(* ===== verification/Prelude.thy ===== *)
theory Prelude
  imports Main "HOL-Library.Word"
begin

unbundle bit_operations_syntax

text \<open>
  The prelude: the names of the types every component shares, the collections of facts the
  component proofs draw on, and the generic lemmas on lists, bytes and bit operations that do
  not mention the program.

  A Go \<open>string\<close> is a sequence of bytes, and so is Isabelle's \<^typ>\<open>string\<close> (a list of
  8-bit characters); the contents of a file are a list of \<^typ>\<open>8 word\<close>.
\<close>

section \<open>Types\<close>

type_synonym byte = "8 word"
type_synonym bytes = "byte list"

section \<open>Collections\<close>

text \<open>
  \<open>go_simps\<close>: characteristic equations of the standard-library functions;
  \<open>tx_intro\<close>: how a database program built from smaller ones inherits their laws;
  \<open>keep_intro\<close>: preservation of a property of the tables by a database program;
  \<open>wf_intro\<close>: preservation of a component's invariant by its operations.
\<close>

named_theorems go_simps
named_theorems tx_intro
named_theorems keep_intro
named_theorems wf_intro

section \<open>Lists\<close>

lemma take_append_exact [simp]: "n = length xs \<Longrightarrow> take n (xs @ ys) = xs"
  by simp

lemma drop_append_exact [simp]: "n = length xs \<Longrightarrow> drop n (xs @ ys) = ys"
  by simp

lemma take_drop_mid:
  "n = length xs \<Longrightarrow> m = length ys \<Longrightarrow> take m (drop n (xs @ ys @ zs)) = ys"
  by simp

lemma distinct_map_filter: "distinct (map f xs) \<Longrightarrow> distinct (map f (filter P xs))"
  by (induction xs) auto

lemma filter_none: "(\<And>x. x \<in> set xs \<Longrightarrow> \<not> P x) \<Longrightarrow> filter P xs = []"
  by (simp add: filter_empty_conv)

lemma filter_all: "(\<And>x. x \<in> set xs \<Longrightarrow> P x) \<Longrightarrow> filter P xs = xs"
  by (simp add: filter_id_conv)

lemma find_SomeD: "find P xs = Some x \<Longrightarrow> x \<in> set xs \<and> P x"
  by (induction xs) (auto split: if_splits)

lemma find_NoneD: "find P xs = None \<Longrightarrow> x \<in> set xs \<Longrightarrow> \<not> P x"
  by (simp add: find_None_iff)

lemma find_filter_other:
  "(\<And>x. x \<in> set xs \<Longrightarrow> P x \<Longrightarrow> Q x) \<Longrightarrow> find P (filter Q xs) = find P xs"
  by (induction xs) auto

lemma dropWhile_fix: "(\<And>x. x \<in> set xs \<Longrightarrow> \<not> P x) \<Longrightarrow> dropWhile P xs = xs"
  by (cases xs) auto

lemma hd_notin_dropWhile: "xs \<noteq> [] \<Longrightarrow> \<not> P (hd xs) \<Longrightarrow> dropWhile P xs = xs"
  by (cases xs) auto

section \<open>Bytes and bits\<close>

lemma unat_byte_less [simp]: "unat (b :: byte) < 256"
  using unsigned_less [of b] by simp

lemma uint_byte_less [simp]: "uint (b :: byte) < 256"
  using unsigned_less [of b] by simp

lemma or_int_bound:
  fixes x y :: int
  assumes "0 \<le> x" "0 \<le> y" "x < 2 ^ n" "y < 2 ^ n"
  shows "0 \<le> x OR y \<and> x OR y < 2 ^ n"
  using assms by (simp add: OR_upper)

lemma push_byte_bound:
  assumes "n + 8 \<le> m"
  shows "0 \<le> push_bit n (uint (b :: byte)) \<and> push_bit n (uint b) < 2 ^ m"
proof -
  have "uint b * 2 ^ n < 2 ^ 8 * 2 ^ n"
    by (rule mult_strict_right_mono) simp_all
  also have "\<dots> = (2 :: int) ^ (n + 8)"
    by (simp add: power_add)
  also have "\<dots> \<le> 2 ^ m"
    using assms by (rule power_increasing) simp
  finally show ?thesis
    by (simp add: push_bit_eq_mult)
qed

lemma or_disjoint:
  fixes a b :: int
  assumes "0 \<le> b" "b < 2 ^ n"
  shows "push_bit n a OR b = push_bit n a + b"
proof -
  have "take_bit n b = b" using assms by (simp add: take_bit_int_eq_self_iff)
  then show ?thesis
    using concat_bit_def [of n b a] concat_bit_eq [of n b a] by (simp add: or.commute add.commute)
qed

lemma uint_and_15: "uint (b AND 0x0F :: byte) = uint b mod 16"
proof -
  have "(0x0F :: int) = mask 4" by (simp add: mask_eq_exp_minus_1)
  then have "uint b AND 0x0F = take_bit 4 (uint b)" by (simp only: take_bit_eq_mask)
  then show ?thesis by (simp add: unsigned_and_eq take_bit_eq_mod)
qed

lemma uint_of_nat_byte: "uint (of_nat k :: byte) = int (k mod 256)"
  by (simp add: unsigned_of_nat take_bit_eq_mod zmod_int)

end
