(* ===== verification/Go_Lib.thy ===== *)
theory Go_Lib
  imports Prelude
begin

text \<open>
  What the program uses of Go's standard library, as functions on byte strings: package
  \<open>strings\<close>, \<open>strconv\<close>, \<open>encoding/hex\<close>, \<open>encoding/binary\<close>, \<open>unicode/utf16\<close> and
  \<open>path/filepath\<close> (Unix). Nothing here is code of the repository, so nothing here is mapped
  to its lines; the components below call these functions where the source calls the library.

  \<open>strings.ToLower\<close> is modelled on ASCII letters. The program only compares its result with
  words over a fixed ASCII alphabet (file suffixes, art file names, hex digests) in which neither
  of the two letters occurs (\<open>k\<close>, \<open>i\<close>) that a non-ASCII character can lower to, so the
  comparisons come out the same.
\<close>

section \<open>Strings\<close>

definition hasPrefix :: "string \<Rightarrow> string \<Rightarrow> bool" where
  "hasPrefix s p \<longleftrightarrow> take (length p) s = p"

definition hasSuffix :: "string \<Rightarrow> string \<Rightarrow> bool" where
  "hasSuffix s p \<longleftrightarrow> hasPrefix (rev s) (rev p)"

definition trimPrefix :: "string \<Rightarrow> string \<Rightarrow> string" where
  "trimPrefix s p = (if hasPrefix s p then drop (length p) s else s)"

definition trimSuffix :: "string \<Rightarrow> string \<Rightarrow> string" where
  "trimSuffix s p = (if hasSuffix s p then take (length s - length p) s else s)"

definition trimRight :: "string \<Rightarrow> string \<Rightarrow> string" where
  "trimRight s cutset = rev (dropWhile (\<lambda>c. c \<in> set cutset) (rev s))"

definition trimBoth :: "string \<Rightarrow> string \<Rightarrow> string" where
  "trimBoth s cutset = dropWhile (\<lambda>c. c \<in> set cutset) (trimRight s cutset)"

fun indexByte :: "string \<Rightarrow> char \<Rightarrow> nat option" where
  "indexByte [] c = None"
| "indexByte (x # xs) c = (if x = c then Some 0 else map_option Suc (indexByte xs c))"

fun splitOn :: "char \<Rightarrow> string \<Rightarrow> string list" where
  "splitOn c [] = [[]]"
| "splitOn c (x # xs) =
     (if x = c then [] # splitOn c xs
      else (case splitOn c xs of [] \<Rightarrow> [[x]] | y # ys \<Rightarrow> (x # y) # ys))"

fun replaceByte :: "char \<Rightarrow> string \<Rightarrow> string \<Rightarrow> string" where
  "replaceByte c r [] = []"
| "replaceByte c r (x # xs) = (if x = c then r @ replaceByte c r xs else x # replaceByte c r xs)"

text \<open>\<open>strings.Cut\<close>: the text before and after the first separator, if there is one.\<close>

definition cut :: "string \<Rightarrow> char \<Rightarrow> (string \<times> string) option" where
  "cut s c = map_option (\<lambda>i. (take i s, drop (Suc i) s)) (indexByte s c)"

definition lowerChar :: "char \<Rightarrow> char" where
  "lowerChar c = (if 65 \<le> (of_char c :: nat) \<and> (of_char c :: nat) \<le> 90
                  then char_of ((of_char c :: nat) + 32) else c)"

definition toLower :: "string \<Rightarrow> string" where
  "toLower s = map lowerChar s"

text \<open>
  \<open>strings.TrimSpace\<close> removes Unicode white space, here given by its UTF-8 encodings.
\<close>

definition chars :: "nat list \<Rightarrow> string" where
  "chars ns = map char_of ns"

definition spaceEncodings :: "string list" where
  "spaceEncodings = map chars
     ([[9], [10], [11], [12], [13], [32], [0xC2, 0x85], [0xC2, 0xA0], [0xE1, 0x9A, 0x80],
       [0xE2, 0x80, 0xA8], [0xE2, 0x80, 0xA9], [0xE2, 0x80, 0xAF], [0xE2, 0x81, 0x9F],
       [0xE3, 0x80, 0x80]] @ map (\<lambda>n. [0xE2, 0x80, 0x80 + n]) [0..<11])"

lemma spaceEncodings_nonempty: "p \<in> set spaceEncodings \<Longrightarrow> p \<noteq> []"
  by (auto simp: spaceEncodings_def chars_def)

function trimLeftSpace :: "(string \<Rightarrow> string) \<Rightarrow> string \<Rightarrow> string" where
  "trimLeftSpace enc s =
     (case find (\<lambda>p. hasPrefix s (enc p) \<and> enc p \<noteq> []) spaceEncodings of
        None \<Rightarrow> s
      | Some p \<Rightarrow> trimLeftSpace enc (drop (length (enc p)) s))"
  by pat_completeness auto
termination
proof (relation "measure (\<lambda>(enc, s). length s)", simp)
  fix enc :: "string \<Rightarrow> string" and s p
  assume "find (\<lambda>p. hasPrefix s (enc p) \<and> enc p \<noteq> []) spaceEncodings = Some p"
  then have pre: "take (length (enc p)) s = enc p" and ne: "enc p \<noteq> []"
    by (auto dest: find_SomeD simp: hasPrefix_def)
  from pre ne have "s \<noteq> []" by (cases s) auto
  with ne show "((enc, drop (length (enc p)) s), (enc, s)) \<in> measure (\<lambda>(enc, s). length s)"
    by (cases "enc p") simp_all
qed

declare trimLeftSpace.simps [simp del]

definition trimSpace :: "string \<Rightarrow> string" where
  "trimSpace s = rev (trimLeftSpace rev (rev (trimLeftSpace (\<lambda>p. p) s)))"

section \<open>Numbers\<close>

definition isDigit :: "char \<Rightarrow> bool" where
  "isDigit c \<longleftrightarrow> 48 \<le> (of_char c :: nat) \<and> (of_char c :: nat) \<le> 57"

definition digitVal :: "char \<Rightarrow> nat" where
  "digitVal c = of_char c - 48"

datatype parsedUint = PUVal nat | PUSyntax | PURange

text \<open>The loop of \<open>strconv.ParseUint\<close> in base 10 with 64 bits.\<close>

fun parseUintLoop :: "nat \<Rightarrow> string \<Rightarrow> parsedUint" where
  "parseUintLoop n [] = PUVal n"
| "parseUintLoop n (c # cs) =
     (if \<not> isDigit c then PUSyntax
      else if n * 10 + digitVal c \<ge> 2 ^ 64 then PURange
      else parseUintLoop (n * 10 + digitVal c) cs)"

text \<open>
  \<open>strconv.ParseInt(s, 10, 64)\<close>, and \<open>strconv.Atoi\<close> on a 64-bit machine: the value returned
  and whether the error is nil. Out of range it returns the nearest bound with an error.
\<close>

definition parseInt :: "string \<Rightarrow> int \<times> bool" where
  "parseInt s =
     (let neg = (s \<noteq> [] \<and> hd s = CHR ''-'');
          ds = (if s \<noteq> [] \<and> (hd s = CHR ''-'' \<or> hd s = CHR ''+'') then tl s else s)
      in if ds = [] then (0, False)
         else (case parseUintLoop 0 ds of
                 PUSyntax \<Rightarrow> (0, False)
               | PURange \<Rightarrow> (if neg then - (2 ^ 63) else 2 ^ 63 - 1, False)
               | PUVal v \<Rightarrow>
                   (if \<not> neg \<and> v \<ge> 2 ^ 63 then (2 ^ 63 - 1, False)
                    else if neg \<and> v > 2 ^ 63 then (- (2 ^ 63), False)
                    else (if neg then - int v else int v, True))))"

abbreviation atoi :: "string \<Rightarrow> int \<times> bool" where
  "atoi \<equiv> parseInt"

text \<open>\<open>strconv.Itoa\<close> on a natural number, used by the tests of round trips below.\<close>

fun showNat :: "nat \<Rightarrow> string" where
  "showNat n = (if n < 10 then [char_of (48 + n)]
                else showNat (n div 10) @ [char_of (48 + n mod 10)])"

declare showNat.simps [simp del]

section \<open>Bytes\<close>

definition strOf :: "bytes \<Rightarrow> string" where
  "strOf bs = map (\<lambda>b. char_of (unat b)) bs"

definition bytesOf :: "string \<Rightarrow> bytes" where
  "bytesOf s = map (\<lambda>c. of_nat (of_char c)) s"

text \<open>\<open>binary.BigEndian\<close> and \<open>binary.LittleEndian\<close>: the bytes of the slice as a number.\<close>

definition beNat :: "bytes \<Rightarrow> nat" where
  "beNat bs = foldl (\<lambda>a b. a * 256 + unat b) 0 bs"

definition leNat :: "bytes \<Rightarrow> nat" where
  "leNat bs = beNat (rev bs)"

fun leBytes :: "nat \<Rightarrow> nat \<Rightarrow> bytes" where
  "leBytes 0 v = []"
| "leBytes (Suc k) v = of_nat v # leBytes k (v div 256)"

definition beBytes :: "nat \<Rightarrow> nat \<Rightarrow> bytes" where
  "beBytes k v = rev (leBytes k v)"

text \<open>
  Slicing \<open>b[lo:hi]\<close>: \<^const>\<open>None\<close> is the run-time panic of a bound out of range.
\<close>

definition slice :: "'a list \<Rightarrow> int \<Rightarrow> int \<Rightarrow> 'a list option" where
  "slice b lo hi = (if 0 \<le> lo \<and> lo \<le> hi \<and> hi \<le> int (length b)
                    then Some (take (nat (hi - lo)) (drop (nat lo) b)) else None)"

text \<open>
  \<open>io.ReadFull\<close> and \<open>io.ReadAtLeast\<close> on what is left of a file: a read of a regular file
  delivers all the bytes that are there, up to the buffer's length.
\<close>

datatype io_error = EOF | UnexpectedEOF | OtherErr string

definition readAtLeast :: "nat \<Rightarrow> nat \<Rightarrow> bytes \<Rightarrow> io_error + bytes" where
  "readAtLeast k least rest =
     (if least \<le> length (take k rest) then Inr (take k rest)
      else if rest = [] then Inl EOF else Inl UnexpectedEOF)"

definition readFull :: "nat \<Rightarrow> bytes \<Rightarrow> io_error + bytes" where
  "readFull k rest = readAtLeast k k rest"

text \<open>Go's integer division truncates towards zero.\<close>

definition goDiv :: "int \<Rightarrow> int \<Rightarrow> int" where
  "goDiv a b = sgn a * sgn b * (\<bar>a\<bar> div \<bar>b\<bar>)"

section \<open>Hex\<close>

definition hexVal :: "char \<Rightarrow> nat option" where
  "hexVal c = (let n = (of_char c :: nat) in
     if 48 \<le> n \<and> n \<le> 57 then Some (n - 48)
     else if 97 \<le> n \<and> n \<le> 102 then Some (n - 87)
     else if 65 \<le> n \<and> n \<le> 70 then Some (n - 55)
     else None)"

fun hexDecode :: "string \<Rightarrow> bytes option" where
  "hexDecode [] = Some []"
| "hexDecode [a] = None"
| "hexDecode (a # b # r) =
     (case (hexVal a, hexVal b) of
        (Some x, Some y) \<Rightarrow> map_option (\<lambda>bs. of_nat (16 * x + y) # bs) (hexDecode r)
      | _ \<Rightarrow> None)"

definition hexChar :: "nat \<Rightarrow> char" where
  "hexChar n = (if n < 10 then char_of (48 + n) else char_of (87 + n))"

fun hexEncode :: "bytes \<Rightarrow> string" where
  "hexEncode [] = []"
| "hexEncode (b # bs) = hexChar (unat b div 16) # hexChar (unat b mod 16) # hexEncode bs"

section \<open>UTF-16 and UTF-8\<close>

fun utf16Decode :: "nat list \<Rightarrow> nat list" where
  "utf16Decode [] = []"
| "utf16Decode [u] = [if u < 0xD800 \<or> 0xE000 \<le> u then u else 0xFFFD]"
| "utf16Decode (u # v # us) =
     (if u < 0xD800 \<or> 0xE000 \<le> u then u # utf16Decode (v # us)
      else if u < 0xDC00 \<and> 0xDC00 \<le> v \<and> v < 0xE000
        then ((u - 0xD800) * 1024 + (v - 0xDC00) + 0x10000) # utf16Decode us
      else 0xFFFD # utf16Decode (v # us))"

text \<open>The conversion of a rune below \<open>0x110000\<close> that is no surrogate to its UTF-8 bytes.\<close>

definition utf8 :: "nat \<Rightarrow> string" where
  "utf8 r = chars
     (if r < 0x80 then [r]
      else if r < 0x800 then [0xC0 + r div 64, 0x80 + r mod 64]
      else if r < 0x10000 then [0xE0 + r div 4096, 0x80 + r div 64 mod 64, 0x80 + r mod 64]
      else [0xF0 + r div 262144, 0x80 + r div 4096 mod 64, 0x80 + r div 64 mod 64,
            0x80 + r mod 64])"

definition runesToString :: "nat list \<Rightarrow> string" where
  "runesToString rs = concat (map utf8 rs)"

section \<open>Paths\<close>

text \<open>
  \<open>filepath.Base\<close>, \<open>filepath.Dir\<close> and \<open>filepath.Ext\<close> on the clean paths that
  \<open>filepath.WalkDir\<close> hands out.
\<close>

definition pathBase :: "string \<Rightarrow> string" where
  "pathBase p =
     (if p = [] then ''.''
      else let q = trimRight p ''/'' in
        if q = [] then ''/'' else rev (takeWhile (\<lambda>c. c \<noteq> CHR ''/'') (rev q)))"

definition pathDir :: "string \<Rightarrow> string" where
  "pathDir p =
     (let d = rev (dropWhile (\<lambda>c. c \<noteq> CHR ''/'') (rev p)); q = trimRight d ''/'' in
      if d = [] then ''.'' else if q = [] then ''/'' else q)"

definition pathExt :: "string \<Rightarrow> string" where
  "pathExt p =
     (let b = takeWhile (\<lambda>c. c \<noteq> CHR ''/'') (rev p) in
      if CHR ''.'' \<in> set b
      then rev (takeWhile (\<lambda>c. c \<noteq> CHR ''.'') b @ ''.'') else '''')"

section \<open>Facts\<close>

lemma length_strOf [simp]: "length (strOf bs) = length bs"
  by (simp add: strOf_def)

lemma strOf_append [simp]: "strOf (xs @ ys) = strOf xs @ strOf ys"
  by (simp add: strOf_def)

lemma length_bytesOf [simp]: "length (bytesOf s) = length s"
  by (simp add: bytesOf_def)

lemma bytesOf_append [simp]: "bytesOf (xs @ ys) = bytesOf xs @ bytesOf ys"
  by (simp add: bytesOf_def)

lemma readFull_Inr [simp]:
  "readFull k rest = Inr bs \<longleftrightarrow> k \<le> length rest \<and> bs = take k rest"
  by (auto simp: readFull_def readAtLeast_def)

lemma slice_Some:
  "slice b lo hi = Some ys \<longleftrightarrow>
     0 \<le> lo \<and> lo \<le> hi \<and> hi \<le> int (length b) \<and> ys = take (nat (hi - lo)) (drop (nat lo) b)"
  by (auto simp: slice_def)

lemma slice_in_range:
  "0 \<le> lo \<Longrightarrow> lo \<le> hi \<Longrightarrow> hi \<le> int (length b) \<Longrightarrow>
     slice b lo hi = Some (take (nat (hi - lo)) (drop (nat lo) b))"
  by (simp add: slice_def)

lemma length_slice: "slice b lo hi = Some ys \<Longrightarrow> int (length ys) = hi - lo"
  by (auto simp: slice_Some)

lemma length_leBytes [simp]: "length (leBytes k v) = k"
  by (induction k arbitrary: v) auto

lemma length_beBytes [simp]: "length (beBytes k v) = k"
  by (simp add: beBytes_def)

lemma beNat_snoc: "beNat (xs @ [b]) = beNat xs * 256 + unat b"
  by (simp add: beNat_def)

lemma beNat_Nil [simp]: "beNat [] = 0"
  by (simp add: beNat_def)

lemma beNat_beBytes: "v < 256 ^ k \<Longrightarrow> beNat (beBytes k v) = v"
proof (induction k arbitrary: v)
  case (Suc k)
  then have "v div 256 < 256 ^ k" by (simp add: less_mult_imp_div_less mult.commute)
  then have "beNat (beBytes k (v div 256)) = v div 256" by (rule Suc.IH)
  then show ?case
    by (simp add: beBytes_def beNat_snoc unat_of_nat take_bit_eq_mod)
qed (simp add: beBytes_def)

lemma beNat_bound: "beNat bs < 256 ^ length bs"
proof (induction bs rule: rev_induct)
  case (snoc b bs)
  have "beNat bs * 256 + unat b < (beNat bs + 1) * 256" by simp
  also have "\<dots> \<le> 256 ^ length bs * 256"
    using snoc by (intro mult_right_mono) auto
  finally show ?case by (simp add: beNat_snoc)
qed simp

lemma strOf_bytesOf [simp]: "strOf (bytesOf s) = s"
  by (induction s) (simp_all add: strOf_def bytesOf_def unat_of_nat take_bit_eq_mod)

lemma bytesOf_strOf [simp]: "bytesOf (strOf bs) = bs"
  by (induction bs) (simp_all add: strOf_def bytesOf_def)

lemma bytesOf_inject [simp]: "bytesOf s = bytesOf t \<longleftrightarrow> s = t"
  by (metis strOf_bytesOf)

text \<open>The character of a numeral, for evaluating closed terms.\<close>

lemma char_of_eval:
  "char_of (n :: nat) = Char (odd n) (odd (n div 2)) (odd (n div 4)) (odd (n div 8))
     (odd (n div 16)) (odd (n div 32)) (odd (n div 64)) (odd (n div 128))"
  by (simp add: char_of_def bit_iff_odd)

section \<open>Decimal numbers\<close>

lemma of_char_digit: "d < 10 \<Longrightarrow> (of_char (char_of (48 + d :: nat)) :: nat) = 48 + d"
  by (simp add: of_char_of)

lemma isDigit_char_of [simp]: "d < 10 \<Longrightarrow> isDigit (char_of (48 + d :: nat))"
  by (simp add: isDigit_def)

lemma digitVal_char_of [simp]: "d < 10 \<Longrightarrow> digitVal (char_of (48 + d :: nat)) = d"
  by (simp add: digitVal_def)

lemma showNat_nonempty [simp]: "showNat n \<noteq> []"
  by (subst showNat.simps) simp

lemma showNat_digits: "\<forall>c \<in> set (showNat n). isDigit c"
proof (induction n rule: showNat.induct)
  case (1 n)
  then show ?case by (subst showNat.simps) auto
qed

lemma parseUintLoop_showNat:
  "n < 2 ^ 64 \<Longrightarrow> parseUintLoop 0 (showNat n @ ys) = parseUintLoop n ys"
proof (induction n arbitrary: ys rule: showNat.induct)
  case (1 n)
  show ?case
  proof (cases "n < 10")
    case True
    then show ?thesis by (subst showNat.simps) simp
  next
    case False
    have "parseUintLoop 0 (showNat n @ ys)
        = parseUintLoop 0 (showNat (n div 10) @ char_of (48 + n mod 10) # ys)"
      using False by (subst showNat.simps) simp
    also have "\<dots> = parseUintLoop (n div 10) (char_of (48 + n mod 10) # ys)"
      using False 1 by (intro "1.IH") auto
    also have "\<dots> = parseUintLoop n ys"
      using "1.prems" by simp
    finally show ?thesis .
  qed
qed

lemma digit_not_sign: "isDigit c \<Longrightarrow> c \<noteq> CHR ''-'' \<and> c \<noteq> CHR ''+''"
  by (auto simp: isDigit_def)

lemma parseInt_showNat [go_simps]: "n < 2 ^ 63 \<Longrightarrow> parseInt (showNat n) = (int n, True)"
proof -
  assume n: "n < 2 ^ 63"
  have "isDigit (hd (showNat n))"
    using showNat_digits [of n] by (cases "showNat n") auto
  then show ?thesis
    using n digit_not_sign parseUintLoop_showNat [of n "[]"] by (simp add: parseInt_def Let_def)
qed

lemma space_not_digit:
  "p \<in> set spaceEncodings \<Longrightarrow> \<not> isDigit (hd p) \<and> \<not> isDigit (hd (rev p))"
  by (auto simp: spaceEncodings_def chars_def isDigit_def)

lemma trimLeftSpace_digit:
  assumes "isDigit (hd s)" "enc = (\<lambda>p. p) \<or> enc = rev"
  shows "trimLeftSpace enc s = s"
proof -
  have "\<not> (hasPrefix s (enc p) \<and> enc p \<noteq> [])" if "p \<in> set spaceEncodings" for p
  proof
    assume a: "hasPrefix s (enc p) \<and> enc p \<noteq> []"
    then have "s \<noteq> []" and "take (length (enc p)) s = enc p"
      by (auto simp: hasPrefix_def)
    then have "hd (enc p) = hd s"
      using a by (metis hd_take length_greater_0_conv)
    then show False
      using assms space_not_digit [OF that] by auto
  qed
  then have "find (\<lambda>p. hasPrefix s (enc p) \<and> enc p \<noteq> []) spaceEncodings = None"
    by (simp add: find_None_iff)
  then show ?thesis
    by (subst trimLeftSpace.simps) simp
qed

lemma trimSpace_showNat [go_simps]: "trimSpace (showNat n) = showNat n"
proof -
  have "isDigit (hd (showNat n))" "isDigit (hd (rev (showNat n)))"
    using showNat_digits [of n] by (simp_all add: hd_rev)
  then show ?thesis
    by (simp add: trimSpace_def trimLeftSpace_digit)
qed

lemma indexByte_append [go_simps]:
  "c \<notin> set xs \<Longrightarrow> indexByte (xs @ c # ys) c = Some (length xs)"
  by (induction xs) auto

lemma indexByte_None [simp]: "indexByte xs c = None \<longleftrightarrow> c \<notin> set xs"
  by (induction xs) auto

lemma indexByte_Some: "indexByte s c = Some i \<Longrightarrow> s = take i s @ c # drop (Suc i) s \<and> c \<notin> set (take i s)"
  by (induction s arbitrary: i) (auto split: if_splits)

lemma cut_Some: "cut s c = Some (a, b) \<Longrightarrow> s = a @ c # b \<and> c \<notin> set a"
  using indexByte_Some by (auto simp: cut_def)

end
