(* ===== verification/Duration.thy ===== *)
theory Duration
  imports Go_Lib
begin

unbundle bit_operations_syntax

text \<open>
  The duration parsers of \<open>internal/scanner/duration.go\<close>: the MP3 frame search with its Xing/Info
  header, the FLAC STREAMINFO reader, and the choice between them and the external \<open>ffprobe\<close>
  program, whose answer is an argument of the model. A file is the list of its bytes; its size is
  the one \<open>stat\<close> reported, which the code does not compare with what it reads.

  Go's 64-bit integers are \<^typ>\<open>int\<close>: every product formed here is below \<open>2^63\<close> for a file below
  \<open>2^60\<close> bytes. Indexing is safe under the loop's bound \<open>i < len(chunk) - 4\<close> and the explicit
  length checks; the table indices have four and two bits.
\<close>

section \<open>MP3\<close>

definition maxSyncSearchBytes :: int where
  "maxSyncSearchBytes = 65536"

definition mp3BitrateTableV1 :: "int list" where
  "mp3BitrateTableV1 =
     [0, 32, 40, 48, 56, 64, 80, 96, 112, 128, 160, 192, 224, 256, 320, 0]"

definition mp3BitrateTableV2 :: "int list" where
  "mp3BitrateTableV2 =
     [0, 8, 16, 24, 32, 40, 48, 56, 64, 80, 96, 112, 128, 144, 160, 0]"

definition mp3SampleRateTableV1 :: "int list" where
  "mp3SampleRateTableV1 = [44100, 48000, 32000, 0]"

definition mp3SampleRateTableV2 :: "int list" where
  "mp3SampleRateTableV2 = [22050, 24000, 16000, 0]"

definition mp3SampleRateTableV25 :: "int list" where
  "mp3SampleRateTableV25 = [11025, 12000, 8000, 0]"

record mp3Frame =
  mf_bitrate :: int
  mf_sampleRate :: int
  mf_samplesPerFrame :: int
  mf_xingOff :: nat

text \<open>
  One turn of the search loop up to the choice of the Xing offset: \<^const>\<open>None\<close> is
  \<open>continue\<close>.
\<close>

definition mp3FrameAt :: "bytes \<Rightarrow> nat \<Rightarrow> mp3Frame option" where
  "mp3FrameAt chunk i =
     (if chunk ! i \<noteq> 0xFF \<or> chunk ! (i + 1) AND 0xE0 \<noteq> 0xE0 then None
      else let version = drop_bit 3 (chunk ! (i + 1)) AND 0x03;
               layer = drop_bit 1 (chunk ! (i + 1)) AND 0x03 in
        if version = 1 \<or> layer \<noteq> 1 then None
        else let bitrateIdx = drop_bit 4 (chunk ! (i + 2)) AND 0x0F;
                 sampleRateIdx = drop_bit 2 (chunk ! (i + 2)) AND 0x03 in
          if bitrateIdx = 0 \<or> bitrateIdx = 15 \<or> sampleRateIdx = 3 then None
          else let channelMode = drop_bit 6 (chunk ! (i + 3)) AND 0x03 in
            if version = 3 then
              Some \<lparr>mf_bitrate = mp3BitrateTableV1 ! unat bitrateIdx,
                    mf_sampleRate = mp3SampleRateTableV1 ! unat sampleRateIdx,
                    mf_samplesPerFrame = 1152,
                    mf_xingOff = (if channelMode = 3 then 17 + 4 else 32 + 4)\<rparr>
            else
              Some \<lparr>mf_bitrate = mp3BitrateTableV2 ! unat bitrateIdx,
                    mf_sampleRate = (if version = 2 then mp3SampleRateTableV2 ! unat sampleRateIdx
                                     else mp3SampleRateTableV25 ! unat sampleRateIdx),
                    mf_samplesPerFrame = 576,
                    mf_xingOff = (if channelMode = 3 then 9 + 4 else 17 + 4)\<rparr>)"

text \<open>The frame count of a Xing or Info header that carries one.\<close>

definition xingFrames :: "bytes \<Rightarrow> nat \<Rightarrow> int option" where
  "xingFrames chunk xingIdx =
     (if xingIdx + 12 \<le> length chunk then
        let tag = strOf (take 4 (drop xingIdx chunk)) in
        if tag = ''Xing'' \<or> tag = ''Info'' then
          let flags = beNat (take 4 (drop (xingIdx + 4) chunk)) in
          if flags AND 0x01 \<noteq> 0
          then Some (int (beNat (take 4 (drop (xingIdx + 8) chunk))))
          else None
        else None
      else None)"

definition mp3Result :: "bytes \<Rightarrow> int \<Rightarrow> int \<Rightarrow> nat \<Rightarrow> mp3Frame \<Rightarrow> int \<times> int" where
  "mp3Result chunk fileSize audioOffset i f =
     (let frameStart = audioOffset + int i in
      case xingFrames chunk (i + mf_xingOff f) of
        Some totalFrames \<Rightarrow>
          (let dur = goDiv (totalFrames * mf_samplesPerFrame f) (mf_sampleRate f);
               avgBitrate = (if dur > 0 then goDiv (goDiv (fileSize * 8) 1000) dur else 0)
           in (dur, avgBitrate))
      | None \<Rightarrow>
          (let audioBytesEst = fileSize - frameStart;
               dur = goDiv (goDiv (audioBytesEst * 8) (mf_bitrate f)) 1000
           in (dur, mf_bitrate f)))"

text \<open>The search loop from index \<open>i\<close>.\<close>

function mp3Search :: "bytes \<Rightarrow> int \<Rightarrow> int \<Rightarrow> nat \<Rightarrow> io_error + (int \<times> int)" where
  "mp3Search chunk fileSize audioOffset i =
     (if int i < int (length chunk) - 4 then
        (case mp3FrameAt chunk i of
           None \<Rightarrow> mp3Search chunk fileSize audioOffset (Suc i)
         | Some f \<Rightarrow> Inr (mp3Result chunk fileSize audioOffset i f))
      else Inl UnexpectedEOF)"
  by pat_completeness auto
termination
  by (relation "measure (\<lambda>(chunk, fs, ao, i). length chunk - i)") auto

declare mp3Search.simps [simp del]

text \<open>The start of the audio: the given offset, or the end of the ID3v2 tag when there is one.\<close>

definition mp3AudioStart :: "bytes \<Rightarrow> int \<Rightarrow> io_error + int" where
  "mp3AudioStart f audioOffset =
     (if audioOffset \<le> 0 then
        (case readFull 10 f of
           Inl e \<Rightarrow> Inl e
         | Inr header \<Rightarrow>
             Inr (if header ! 0 = 73 \<and> header ! 1 = 68 \<and> header ! 2 = 51
                  then (push_bit 21 (uint (header ! 6)) OR push_bit 14 (uint (header ! 7))
                        OR push_bit 7 (uint (header ! 8)) OR uint (header ! 9)) + 10
                  else audioOffset))
      else Inr audioOffset)"

definition mp3ChunkSize :: "int \<Rightarrow> int \<Rightarrow> int" where
  "mp3ChunkSize fileSize audioOffset = min (maxSyncSearchBytes + 256) (fileSize - audioOffset)"

definition parseMP3Duration :: "bytes \<Rightarrow> int \<Rightarrow> int \<Rightarrow> io_error + (int \<times> int)" where
  "parseMP3Duration f fileSize audioOffset =
     (case mp3AudioStart f audioOffset of
        Inl e \<Rightarrow> Inl e
      | Inr off \<Rightarrow>
          (if off < 0 then Inl (OtherErr ''negative seek offset'')
           else if mp3ChunkSize fileSize off \<le> 4 then Inl UnexpectedEOF
           else case readAtLeast (nat (mp3ChunkSize fileSize off)) 4 (drop (nat off) f) of
                  Inl e \<Rightarrow> Inl e
                | Inr chunk \<Rightarrow> mp3Search chunk fileSize off 0))"

section \<open>FLAC\<close>

definition parseFLACDuration :: "bytes \<Rightarrow> int \<Rightarrow> io_error + (int \<times> int)" where
  "parseFLACDuration f fileSize =
     (case readFull 4 f of
        Inl e \<Rightarrow> Inl e
      | Inr marker \<Rightarrow>
          (if strOf marker \<noteq> ''fLaC'' then Inl UnexpectedEOF
           else case readFull 4 (drop 4 f) of
             Inl e \<Rightarrow> Inl e
           | Inr blockHeader \<Rightarrow>
               (if blockHeader ! 0 AND 0x7F \<noteq> 0 then Inl UnexpectedEOF
                else case readFull 34 (drop 8 f) of
                  Inl e \<Rightarrow> Inl e
                | Inr si \<Rightarrow>
                    (let sampleRate = push_bit 12 (uint (si ! 10)) OR push_bit 4 (uint (si ! 11))
                           OR drop_bit 4 (uint (si ! 12));
                         totalSamples = push_bit 32 (uint (si ! 13 AND 0x0F))
                           OR push_bit 24 (uint (si ! 14)) OR push_bit 16 (uint (si ! 15))
                           OR push_bit 8 (uint (si ! 16)) OR uint (si ! 17) in
                     if sampleRate = 0 then Inl UnexpectedEOF
                     else let dur = goDiv totalSamples sampleRate;
                              bitrate = (if dur > 0 then goDiv (goDiv (fileSize * 8) 1000) dur else 0)
                       in Inr (dur, bitrate)))))"

section \<open>Dispatch\<close>

text \<open>\<open>ffprobe\<close> is what the external program answers for this file.\<close>

definition parseDuration ::
  "bytes \<Rightarrow> int \<Rightarrow> int \<Rightarrow> string \<Rightarrow> io_error + (int \<times> int) \<Rightarrow> int \<times> int" where
  "parseDuration f fileSize audioOffset ext ffprobe =
     (let native =
        (if ext = ''.mp3'' then parseMP3Duration f fileSize audioOffset
         else if ext = ''.flac'' then parseFLACDuration f fileSize
         else Inl EOF);
        fallback = (case ffprobe of Inr (d, br) \<Rightarrow> if d > 0 then (d, br) else (0, 0)
                                  | Inl e \<Rightarrow> (0, 0))
      in case native of
           Inr (d, br) \<Rightarrow> if d > 0 then (d, br) else fallback
         | Inl e \<Rightarrow> fallback)"

section \<open>Facts\<close>

lemma goDiv_nonneg [simp]: "0 \<le> a \<Longrightarrow> 0 \<le> b \<Longrightarrow> goDiv a b = a div b"
  by (auto simp: goDiv_def sgn_if)

lemma div_ge_0: "0 \<le> a \<Longrightarrow> 0 \<le> b \<Longrightarrow> 0 \<le> a div (b :: int)"
  by (cases "b = 0") (simp_all add: pos_imp_zdiv_nonneg_iff)

lemma goDiv_ge_0: "0 \<le> a \<Longrightarrow> 0 \<le> b \<Longrightarrow> 0 \<le> goDiv a b"
  by (simp add: div_ge_0)

lemma goDiv_twice: "0 \<le> a \<Longrightarrow> 0 < b \<Longrightarrow> 0 < c \<Longrightarrow> goDiv (goDiv a b) c = a div (b * c)"
  by (simp add: div_ge_0 zdiv_zmult2_eq)

lemma byte_and_less: "unat (b AND m) \<le> unat (m :: byte)"
  by (metis word_and_le1 word_le_nat_alt)

lemma bitrate_tables:
  "0 < n \<Longrightarrow> n < 15 \<Longrightarrow> 8 \<le> mp3BitrateTableV1 ! n \<and> mp3BitrateTableV1 ! n \<le> 320
     \<and> 8 \<le> mp3BitrateTableV2 ! n \<and> mp3BitrateTableV2 ! n \<le> 320"
proof -
  assume "0 < n" "n < 15"
  then have "n \<in> {1, 2, 3, 4, 5, 6, 7, 8, 9, 10, 11, 12, 13, 14}"
    unfolding insert_iff empty_iff by presburger
  then show ?thesis
    by (elim insertE) (simp_all add: mp3BitrateTableV1_def mp3BitrateTableV2_def)
qed

lemma rate_tables:
  "n < 3 \<Longrightarrow> 8000 \<le> mp3SampleRateTableV1 ! n \<and> mp3SampleRateTableV1 ! n \<le> 48000
     \<and> 8000 \<le> mp3SampleRateTableV2 ! n \<and> mp3SampleRateTableV2 ! n \<le> 48000
     \<and> 8000 \<le> mp3SampleRateTableV25 ! n \<and> mp3SampleRateTableV25 ! n \<le> 48000"
  by (auto simp: mp3SampleRateTableV1_def mp3SampleRateTableV2_def mp3SampleRateTableV25_def
      less_Suc_eq numeral_3_eq_3)

lemma nibble_cases:
  fixes b :: byte
  assumes "b AND 0x0F \<noteq> 0" "b AND 0x0F \<noteq> 15"
  shows "0 < unat (b AND 0x0F)" "unat (b AND 0x0F) < 15"
proof -
  have "unat (b AND 0x0F) \<noteq> unat (0 :: byte)" "unat (b AND 0x0F) \<noteq> unat (15 :: byte)"
    using assms by (metis unsigned_word_eqI)+
  then show "0 < unat (b AND 0x0F)" "unat (b AND 0x0F) < 15"
    using byte_and_less [of b "0x0F"] by auto
qed

lemma crumb_cases:
  fixes b :: byte
  assumes "b AND 0x03 \<noteq> 3"
  shows "unat (b AND 0x03) < 3"
proof -
  have "unat (b AND 0x03) \<noteq> unat (3 :: byte)"
    using assms by (metis unsigned_word_eqI)
  then show ?thesis
    using byte_and_less [of b "0x03"] by auto
qed

definition mp3FrameOK :: "mp3Frame \<Rightarrow> bool" where
  "mp3FrameOK f \<longleftrightarrow> 8 \<le> mf_bitrate f \<and> mf_bitrate f \<le> 320 \<and> 8000 \<le> mf_sampleRate f
     \<and> mf_sampleRate f \<le> 48000 \<and> (mf_samplesPerFrame f = 576 \<or> mf_samplesPerFrame f = 1152)
     \<and> 13 \<le> mf_xingOff f \<and> mf_xingOff f \<le> 36"

lemma mp3FrameAt_ok:
  assumes "mp3FrameAt chunk i = Some f"
  shows "mp3FrameOK f"
proof -
  define b s where "b = drop_bit 4 (chunk ! (i + 2)) AND 0x0F"
    and "s = drop_bit 2 (chunk ! (i + 2)) AND 0x03"
  have r: "b \<noteq> 0 \<and> b \<noteq> 15 \<and> s \<noteq> 3"
    using assms unfolding mp3FrameAt_def Let_def b_def [symmetric] s_def [symmetric]
    by (simp split: if_splits)
  have "0 < unat b" "unat b < 15" "unat s < 3"
    using r nibble_cases [of "drop_bit 4 (chunk ! (i + 2))"] crumb_cases [of "drop_bit 2 (chunk ! (i + 2))"]
    by (simp_all add: b_def s_def)
  note tables = bitrate_tables [OF this(1,2)] rate_tables [OF this(3)]
  show ?thesis
    using assms tables unfolding mp3FrameAt_def Let_def b_def [symmetric] s_def [symmetric]
    by (simp add: mp3FrameOK_def split: if_splits; force)
qed

subsection \<open>The search\<close>

lemma mp3Search_finds:
  assumes "\<And>j. i \<le> j \<Longrightarrow> j < k \<Longrightarrow> mp3FrameAt chunk j = None"
    and "mp3FrameAt chunk k = Some f" "i \<le> k" "k + 4 < length chunk"
  shows "mp3Search chunk fileSize off i = Inr (mp3Result chunk fileSize off k f)"
  using assms
proof (induction "k - i" arbitrary: i)
  case 0
  then show ?case by (subst mp3Search.simps) simp
next
  case (Suc n)
  then have "mp3FrameAt chunk i = None" "i < k" by simp_all
  moreover have "mp3Search chunk fileSize off (Suc i) = Inr (mp3Result chunk fileSize off k f)"
    using Suc by (intro Suc.hyps(1)) simp_all
  ultimately show ?case
    using Suc.prems by (subst mp3Search.simps) simp
qed

lemma mp3Search_Inr:
  "mp3Search chunk fileSize off i = Inr res \<Longrightarrow>
     \<exists>k f. i \<le> k \<and> k + 4 < length chunk \<and> mp3FrameAt chunk k = Some f
       \<and> (\<forall>j. i \<le> j \<and> j < k \<longrightarrow> mp3FrameAt chunk j = None)
       \<and> res = mp3Result chunk fileSize off k f"
proof (induction chunk fileSize off i rule: mp3Search.induct)
  case (1 chunk fileSize off i)
  show ?case
  proof (cases "mp3FrameAt chunk i")
    case None
    then have lt: "int i < int (length chunk) - 4"
      and "mp3Search chunk fileSize off (Suc i) = Inr res"
      using "1.prems" by (subst (asm) mp3Search.simps; simp split: if_splits)+
    from "1.IH" [OF lt None this(2)] None show ?thesis
      by (metis Suc_leD Suc_leI le_neq_implies_less)
  next
    case (Some f)
    then have "i + 4 < length chunk" "res = mp3Result chunk fileSize off i f"
      using "1.prems" by (subst (asm) mp3Search.simps; simp split: if_splits)+
    then show ?thesis
      using Some by (intro exI [of _ i] exI [of _ f]) (metis leD order_refl)
  qed
qed

lemma xingFrames_nonneg: "xingFrames chunk x = Some n \<Longrightarrow> 0 \<le> n"
  by (auto simp: xingFrames_def Let_def split: if_splits)

lemma mp3Result_nonneg:
  assumes ok: "mp3FrameOK f" and "0 \<le> fileSize" "off + int i \<le> fileSize"
    and res: "mp3Result chunk fileSize off i f = (d, br)"
  shows "0 \<le> d \<and> 0 \<le> br"
proof -
  from ok have f: "0 \<le> mf_bitrate f" "0 \<le> mf_sampleRate f" "0 \<le> mf_samplesPerFrame f"
    by (auto simp: mp3FrameOK_def)
  show ?thesis
  proof (cases "xingFrames chunk (i + mf_xingOff f)")
    case None
    with res f assms(3) show ?thesis
      by (auto simp: mp3Result_def Let_def simp del: goDiv_nonneg intro!: goDiv_ge_0)
  next
    case (Some n)
    have "0 \<le> goDiv (n * mf_samplesPerFrame f) (mf_sampleRate f)"
      using xingFrames_nonneg [OF Some] f by (intro goDiv_ge_0) simp_all
    with res Some assms(2) show ?thesis
      by (auto simp: mp3Result_def Let_def simp del: goDiv_nonneg intro!: goDiv_ge_0)
  qed
qed

section \<open>Properties\<close>



text \<open>
  A constant-bitrate file: the first frame at byte \<open>k\<close> of the audio, with no Xing
  header in it, gives the bitrate of that frame and the duration of the remaining bytes at that
  bitrate, truncated to seconds.
\<close>

theorem parseMP3Duration_cbr:
  assumes "0 < off" "min 65792 (int (length f) - off) > 4"
    and chunk: "chunk = take 65792 (drop (nat off) f)"
    and first: "\<And>j. j < k \<Longrightarrow> mp3FrameAt chunk j = None"
    and h: "mp3FrameAt chunk k = Some h" "k + 4 < length chunk"
    and cbr: "xingFrames chunk (k + mf_xingOff h) = None"
  shows "parseMP3Duration f (int (length f)) off
    = Inr ((int (length f) - off - int k) * 8 div (mf_bitrate h * 1000), mf_bitrate h)"
proof -
  let ?n = "int (length f)"
  have c: "mp3ChunkSize ?n off = min 65792 (?n - off)"
    by (simp add: mp3ChunkSize_def maxSyncSearchBytes_def)
  have read: "readAtLeast (nat (mp3ChunkSize ?n off)) 4 (drop (nat off) f) = Inr chunk"
    using assms(1,2) h(2)
    by (auto simp: readAtLeast_def chunk c min_def nat_diff_distrib)
  have "mp3Search chunk ?n off 0 = Inr (mp3Result chunk ?n off k h)"
    using first h by (intro mp3Search_finds) simp_all
  moreover have "0 < mf_bitrate h"
    using mp3FrameAt_ok [OF h(1)] by (simp add: mp3FrameOK_def)
  moreover have "off + int k \<le> ?n"
    using h(2) assms(1) by (simp add: chunk) linarith
  ultimately show ?thesis
    using assms(1,2) read
    by (simp add: parseMP3Duration_def mp3AudioStart_def c mp3Result_def cbr goDiv_twice Let_def
        diff_diff_eq del: goDiv_nonneg)
qed

theorem parseMP3Duration_cbr_witness:
  "parseMP3Duration (0 # 0xFF # 0xFB # 0x90 # replicate 32000 0) (int 32004) 1 = Inr (2, 128)"
proof -
  let ?f = "0 # 0xFF # 0xFB # 0x90 # replicate 32000 (0 :: byte)"
  let ?c = "0xFF # 0xFB # 0x90 # replicate 32000 (0 :: byte)"
  let ?h = "\<lparr>mf_bitrate = 128, mf_sampleRate = 44100, mf_samplesPerFrame = 1152, mf_xingOff = 36\<rparr>"
  have l: "int (length ?f) = 32004" by simp
  have "parseMP3Duration ?f (int (length ?f)) 1
    = Inr ((int (length ?f) - 1 - int 0) * 8 div (mf_bitrate ?h * 1000), mf_bitrate ?h)"
  proof (rule parseMP3Duration_cbr [where chunk = ?c])
    show "mp3FrameAt ?c 0 = Some ?h"
    proof -
      have "mp3FrameAt (a # b # c # d # r) 0 = mp3FrameAt [a, b, c, d] 0" for a b c d r
      proof -
        have "(a # b # c # d # r) ! (0 + 1) = [a, b, c, d] ! (0 + 1)"
          "(a # b # c # d # r) ! (0 + 2) = [a, b, c, d] ! (0 + 2)"
          "(a # b # c # d # r) ! (0 + 3) = [a, b, c, d] ! (0 + 3)"
          "(a # b # c # d # r) ! 0 = [a, b, c, d] ! 0"
          by (simp_all add: numeral_2_eq_2 numeral_3_eq_3)
        then show ?thesis unfolding mp3FrameAt_def by (simp only:)
      qed
      moreover have "replicate 32000 (0 :: byte) = 0 # replicate 31999 0"
        by (simp add: replicate_Suc [symmetric] del: replicate_Suc)
      moreover have "mp3FrameAt [0xFF, 0xFB, 0x90, 0] 0 = Some ?h" by code_simp
      ultimately show ?thesis by metis
    qed
    show "xingFrames ?c (0 + mf_xingOff ?h) = None"
    proof -
      have "replicate 4 (char_of (0 :: nat)) \<noteq> ''Xing''" "replicate 4 (char_of (0 :: nat)) \<noteq> ''Info''"
        by code_simp+
      then show ?thesis by (simp add: xingFrames_def strOf_def Let_def)
    qed
  qed simp_all
  then show ?thesis by (simp only: l) simp
qed

text \<open>The encoder's side of STREAMINFO: its bytes 10 to 17 around arbitrary other fields.\<close>

definition encStreamInfo :: "bytes \<Rightarrow> nat \<Rightarrow> nat \<Rightarrow> nat \<Rightarrow> nat \<Rightarrow> bytes \<Rightarrow> bytes" where
  "encStreamInfo pre rate lo hi tot post =
     pre @ [of_nat (rate div 256 div 16), of_nat (rate div 16), of_nat (rate mod 16 * 16 + lo),
            of_nat (hi * 16 + tot div 2 ^ 32)] @ beBytes 4 (tot mod 2 ^ 32) @ post"

lemma flac_rate:
  assumes "rate < 2 ^ 20" "lo < 16"
  shows "push_bit 12 (uint (of_nat (rate div 256 div 16) :: byte))
      OR push_bit 4 (uint (of_nat (rate div 16) :: byte))
      OR drop_bit 4 (uint (of_nat (rate mod 16 * 16 + lo) :: byte)) = int rate"
proof -
  have hi: "rate div 256 div 16 < 256"
    using assms(1) by (simp add: less_mult_imp_div_less)
  have low: "drop_bit 4 (uint (of_nat (rate mod 16 * 16 + lo) :: byte)) = int (rate mod 16)"
  proof -
    have "rate mod 16 < 16" by simp
    then have "rate mod 16 * 16 + lo < 256" using assms(2) by linarith
    then have "uint (of_nat (rate mod 16 * 16 + lo) :: byte) = int (rate mod 16 * 16 + lo)"
      by (simp only: uint_of_nat_byte mod_less)
    then have "drop_bit 4 (uint (of_nat (rate mod 16 * 16 + lo) :: byte))
        = int ((rate mod 16 * 16 + lo) div 16)"
      by (simp add: drop_bit_eq_div zdiv_int)
    then show ?thesis using assms(2) by simp
  qed
  have "rate div 16 mod 256 < 256" "rate mod 16 < 16" by simp_all
  then have nib: "rate div 16 mod 256 * 16 + rate mod 16 < 4096" by linarith
  then have nib: "0 \<le> int (rate div 16 mod 256) * 16 + int (rate mod 16)"
    "int (rate div 16 mod 256) * 16 + int (rate mod 16) < 2 ^ 12"
    by (simp_all del: of_nat_mod)
  have "push_bit 4 (uint (of_nat (rate div 16) :: byte)) OR int (rate mod 16)
      = int (rate div 16 mod 256) * 16 + int (rate mod 16)"
    by (subst or_disjoint) (simp_all add: push_bit_eq_mult uint_of_nat_byte flip: zmod_int)
  moreover have "push_bit 12 (uint (of_nat (rate div 256 div 16) :: byte))
      OR (int (rate div 16 mod 256) * 16 + int (rate mod 16))
      = int (rate div 256 div 16) * 4096 + (int (rate div 16 mod 256) * 16 + int (rate mod 16))"
    using hi nib by (subst or_disjoint) (simp_all add: push_bit_eq_mult uint_of_nat_byte del: of_nat_mod)
  moreover have "rate div 256 div 16 * 4096 + (rate div 16 mod 256 * 16 + rate mod 16) = rate"
  proof -
    have "rate div 256 div 16 = rate div 16 div 256" by (simp add: div_mult2_eq [symmetric])
    moreover have "rate div 16 div 256 * 256 + rate div 16 mod 256 = rate div 16"
      "rate div 16 * 16 + rate mod 16 = rate" by simp_all
    ultimately show ?thesis by linarith
  qed
  ultimately show ?thesis
    unfolding low by (metis of_nat_add of_nat_mult of_nat_numeral)
qed

lemma beBytes_4: "beBytes 4 n = [of_nat (n div 256 div 256 div 256), of_nat (n div 256 div 256),
    of_nat (n div 256), of_nat n]"
  proof -
  have "(4 :: nat) = Suc (Suc (Suc (Suc 0)))" by simp
  then show ?thesis unfolding beBytes_def by (simp only: leBytes.simps rev.simps append.simps)
qed

lemma flac_samples:
  assumes "tot < 2 ^ 36" "hi < 16" "t = tot mod 2 ^ 32"
  shows "push_bit 32 (uint ((of_nat (hi * 16 + tot div 2 ^ 32) :: byte) AND 0x0F))
      OR push_bit 24 (uint (of_nat (t div 256 div 256 div 256) :: byte))
      OR push_bit 16 (uint (of_nat (t div 256 div 256) :: byte))
      OR push_bit 8 (uint (of_nat (t div 256) :: byte)) OR uint (of_nat t :: byte) = int tot"
proof -
  have q: "tot div 2 ^ 32 < 16"
    using assms(1) by (simp add: less_mult_imp_div_less)
  then have top: "uint ((of_nat (hi * 16 + tot div 2 ^ 32) :: byte) AND 0x0F) = int (tot div 2 ^ 32)"
    using assms(2) by (simp only: uint_and_15 uint_of_nat_byte flip: zmod_int) (simp flip: zmod_int)
  have t: "t < 256 * 256 * 256 * 256" using assms(3) by simp
  have b: "uint (of_nat k :: byte) = int (k mod 256)" "k mod 256 \<le> 255" for k :: nat
    by (simp_all add: uint_of_nat_byte less_Suc_eq_le [symmetric])
  define w x y z where "w = int (t div 256 div 256 div 256 mod 256)"
    and "x = int (t div 256 div 256 mod 256)" and "y = int (t div 256 mod 256)" and "z = int (t mod 256)"
  have r: "0 \<le> w" "w \<le> 255" "0 \<le> x" "x \<le> 255" "0 \<le> y" "y \<le> 255" "0 \<le> z" "z \<le> 255"
    using b(2) by (simp_all add: w_def x_def y_def z_def flip: zmod_int) 
  have "push_bit 8 y OR z = y * 256 + z"
    using r by (subst or_disjoint) (simp_all add: push_bit_eq_mult)
  moreover have "push_bit 16 x OR (y * 256 + z) = x * 65536 + (y * 256 + z)"
    using r by (subst or_disjoint) (simp_all add: push_bit_eq_mult)
  moreover have "push_bit 24 w OR (x * 65536 + (y * 256 + z)) = w * 16777216 + (x * 65536 + (y * 256 + z))"
    using r by (subst or_disjoint) (simp_all add: push_bit_eq_mult)
  moreover have "push_bit 32 (int (tot div 2 ^ 32)) OR (w * 16777216 + (x * 65536 + (y * 256 + z)))
      = int (tot div 2 ^ 32) * 4294967296 + (w * 16777216 + (x * 65536 + (y * 256 + z)))"
    using r by (subst or_disjoint) (simp_all add: push_bit_eq_mult)
  moreover have "w * 16777216 + (x * 65536 + (y * 256 + z)) = int t"
  proof -
    have "t div 256 div 256 div 256 mod 256 * 16777216 + (t div 256 div 256 mod 256 * 65536
        + (t div 256 mod 256 * 256 + t mod 256)) = t"
    proof -
      have "t div 256 div 256 div 256 < 256" using t by (simp add: less_mult_imp_div_less)
      then have "t div 256 div 256 div 256 mod 256 = t div 256 div 256 div 256" by simp
      moreover have "t div 256 div 256 div 256 * 256 + t div 256 div 256 mod 256 = t div 256 div 256"
        "t div 256 div 256 * 256 + t div 256 mod 256 = t div 256" "t div 256 * 256 + t mod 256 = t"
        by simp_all
      ultimately show ?thesis by linarith
    qed
    from this [THEN arg_cong [of _ _ int]] show ?thesis
      unfolding w_def x_def y_def z_def by (simp only: of_nat_add of_nat_mult of_nat_numeral)
  qed
  moreover have "int (tot div 2 ^ 32) * 4294967296 + int t = int tot"
    unfolding assms(3) using arg_cong [OF div_mult_mod_eq [of tot "2 ^ 32"], of int]
    by (simp only: of_nat_add of_nat_mult of_nat_numeral of_nat_power) simp
  ultimately show ?thesis
    unfolding top b(1) w_def x_def y_def z_def by simp
qed

text \<open>
  FLAC durations are exact: for a STREAMINFO block holding a 20-bit sampling rate and a
  36-bit sample count between arbitrary other fields, the parser returns the number of whole
  seconds, and the bitrate that the file's size gives over them.
\<close>

theorem parseFLACDuration_roundtrip:
  assumes "0 < rate" "rate < 2 ^ 20" "tot < 2 ^ 36" "lo < 16" "hi < 16"
    and pre: "length pre = 10" "length post = 16" and "0 \<le> fileSize"
    and hdr: "length bh = 4" "bh ! 0 AND 0x7F = 0"
  shows "parseFLACDuration (bytesOf ''fLaC'' @ bh @ encStreamInfo pre rate lo hi tot post @ audio)
      fileSize
    = Inr (int (tot div rate),
           if rate \<le> tot then fileSize * 8 div 1000 div int (tot div rate) else 0)"
proof -
  let ?si = "encStreamInfo pre rate lo hi tot post"
  let ?f = "bytesOf ''fLaC'' @ bh @ ?si @ audio"
  let ?t = "tot mod 2 ^ 32"
  have l: "length ?si = 34" by (simp add: encStreamInfo_def pre)
  have m: "readFull 4 ?f = Inr (bytesOf ''fLaC'')" "readFull 4 (drop 4 ?f) = Inr bh"
    "readFull 34 (drop 8 ?f) = Inr ?si"
    using l hdr by simp_all
  have nth: "?si ! 10 = of_nat (rate div 256 div 16)" "?si ! 11 = of_nat (rate div 16)"
    "?si ! 12 = of_nat (rate mod 16 * 16 + lo)" "?si ! 13 = of_nat (hi * 16 + tot div 2 ^ 32)"
    "?si ! 14 = of_nat (?t div 256 div 256 div 256)" "?si ! 15 = of_nat (?t div 256 div 256)"
    "?si ! 16 = of_nat (?t div 256)" "?si ! 17 = of_nat ?t"
    by (simp_all add: encStreamInfo_def nth_append pre beBytes_4)
  have dur: "goDiv (int tot) (int rate) = int (tot div rate)"
    by (simp add: zdiv_int)
  have pos: "0 < tot div rate \<longleftrightarrow> rate \<le> tot"
    using assms(1) by (simp add: div_greater_zero_iff)
  show ?thesis
    unfolding parseFLACDuration_def m sum.case strOf_bytesOf nth Let_def
      flac_rate [OF assms(2,4)] flac_samples [OF assms(3,5) refl] dur
    using assms(1,8) hdr pos by (simp add: div_ge_0 flip: zdiv_int)
qed

theorem parseFLACDuration_roundtrip_witness:
  "parseFLACDuration (bytesOf ''fLaC'' @ [0, 0, 0, 34]
      @ encStreamInfo (replicate 10 7) 44100 2 15 13230000 (replicate 16 9) @ []) 4000000
    = Inr (300, 106)"
  by (subst parseFLACDuration_roundtrip) simp_all

end
