(* ===== verification/Go_Float.thy ===== *)
theory Go_Float
  imports Go_Lib Complex_Main
begin

text \<open>
  Go's \<open>float64\<close>: IEEE 754 double precision with round-to-nearest-even, a finite value being the
  rational it stands for. The sign of zero is not kept: the program divides by no zero and prints
  no float. Nothing here is code of the repository, so nothing here is mapped to its lines.
\<close>

datatype float64 = NaN | PosInf | NegInf | Finite rat

definition pow2 :: "int \<Rightarrow> rat" where
  "pow2 k = (if 0 \<le> k then 2 ^ nat k else 1 / 2 ^ nat (- k))"

text \<open>The exponent of the highest bit of a positive integer and of a positive rational.\<close>

function bitLog :: "int \<Rightarrow> int" where
  "bitLog n = (if n \<le> 1 then 0 else 1 + bitLog (n div 2))"
  by pat_completeness auto
termination
  by (relation "measure nat") auto

declare bitLog.simps [simp del]

definition ratLog :: "rat \<Rightarrow> int" where
  "ratLog q = (let (n, d) = quotient_of q; k = bitLog n - bitLog d in
     if pow2 k \<le> q then k else k - 1)"

definition roundHalfEven :: "rat \<Rightarrow> int" where
  "roundHalfEven x = (let f = \<lfloor>x\<rfloor>; r = x - of_int f in
     if r < 1 / 2 then f else if r > 1 / 2 then f + 1 else if even f then f else f + 1)"

definition roundDouble :: "rat \<Rightarrow> float64" where
  "roundDouble q =
     (if q = 0 then Finite 0
      else let e = max (ratLog \<bar>q\<bar> - 52) (- 1074);
               v = of_int (roundHalfEven (\<bar>q\<bar> / pow2 e)) * pow2 e in
        if ratLog \<bar>q\<bar> < 1023 then Finite (if q > 0 then v else - v)
        else if pow2 1024 \<le> v then (if q > 0 then PosInf else NegInf)
        else Finite (if q > 0 then v else - v))"

definition floatOf :: "int \<Rightarrow> float64" where
  "floatOf n = roundDouble (of_int n)"

fun fadd :: "float64 \<Rightarrow> float64 \<Rightarrow> float64" where
  "fadd NaN y = NaN"
| "fadd x NaN = NaN"
| "fadd PosInf y = (if y = NegInf then NaN else PosInf)"
| "fadd NegInf y = (if y = PosInf then NaN else NegInf)"
| "fadd (Finite x) PosInf = PosInf"
| "fadd (Finite x) NegInf = NegInf"
| "fadd (Finite x) (Finite y) = roundDouble (x + y)"

fun fneg :: "float64 \<Rightarrow> float64" where
  "fneg NaN = NaN"
| "fneg PosInf = NegInf"
| "fneg NegInf = PosInf"
| "fneg (Finite x) = Finite (- x)"

definition fsub :: "float64 \<Rightarrow> float64 \<Rightarrow> float64" where
  "fsub x y = fadd x (fneg y)"

text \<open>An infinity with the sign of a product.\<close>

definition infOf :: "int \<Rightarrow> float64" where
  "infOf s = (if s = 0 then NaN else if s > 0 then PosInf else NegInf)"

fun fsign :: "float64 \<Rightarrow> int" where
  "fsign NaN = 0"
| "fsign PosInf = 1"
| "fsign NegInf = - 1"
| "fsign (Finite x) = (if x = 0 then 0 else if x > 0 then 1 else - 1)"

fun fmul :: "float64 \<Rightarrow> float64 \<Rightarrow> float64" where
  "fmul (Finite x) (Finite y) = roundDouble (x * y)"
| "fmul NaN y = NaN"
| "fmul x NaN = NaN"
| "fmul x y = infOf (fsign x * fsign y)"

fun fdiv :: "float64 \<Rightarrow> float64 \<Rightarrow> float64" where
  "fdiv (Finite x) (Finite y) = (if y = 0 then infOf (fsign (Finite x)) else roundDouble (x / y))"
| "fdiv (Finite x) PosInf = Finite 0"
| "fdiv (Finite x) NegInf = Finite 0"
| "fdiv PosInf (Finite y) = (if y < 0 then NegInf else PosInf)"
| "fdiv NegInf (Finite y) = (if y < 0 then PosInf else NegInf)"
| "fdiv x y = NaN"

fun fless :: "float64 \<Rightarrow> float64 \<Rightarrow> bool" where
  "fless (Finite x) (Finite y) \<longleftrightarrow> x < y"
| "fless NaN y \<longleftrightarrow> False"
| "fless x NaN \<longleftrightarrow> False"
| "fless NegInf y \<longleftrightarrow> y \<noteq> NegInf"
| "fless x PosInf \<longleftrightarrow> x \<noteq> PosInf"
| "fless x y \<longleftrightarrow> False"

fun fle :: "float64 \<Rightarrow> float64 \<Rightarrow> bool" where
  "fle NaN y \<longleftrightarrow> False"
| "fle x NaN \<longleftrightarrow> False"
| "fle x y \<longleftrightarrow> x = y \<or> fless x y"

text \<open>
  The conversions to integers drop the fraction; a value out of range gives the smallest
  \<open>int64\<close>, as on amd64.
\<close>

definition truncRat :: "rat \<Rightarrow> int" where
  "truncRat x = (if 0 \<le> x then \<lfloor>x\<rfloor> else \<lceil>x\<rceil>)"

fun toInt64 :: "float64 \<Rightarrow> int" where
  "toInt64 (Finite x) = (if - (2 ^ 63) \<le> truncRat x \<and> truncRat x < 2 ^ 63 then truncRat x else - (2 ^ 63))"
| "toInt64 x = - (2 ^ 63)"

fun toUint64 :: "float64 \<Rightarrow> 64 word" where
  "toUint64 (Finite x) = (if 0 \<le> truncRat x \<and> truncRat x < 2 ^ 64 then word_of_int (truncRat x)
     else 0x8000000000000000)"
| "toUint64 x = 0x8000000000000000"

text \<open>
  \<open>strconv.ParseFloat(s, 64)\<close>, \<^const>\<open>None\<close> when it returns an error. The hexadecimal form has a
  reader of its own, which is an argument. The exponent stops growing at \<open>10000\<close> as in the
  library; a decimal that rounds to an infinity is out of range.
\<close>

definition exponentOf :: "string \<Rightarrow> int" where
  "exponentOf ds = foldl (\<lambda>e c. if e < 10000 then e * 10 + int (digitVal c) else e) 0 ds"

definition parseExponent :: "string \<Rightarrow> int option" where
  "parseExponent s =
     (case s of
        [] \<Rightarrow> Some 0
      | c # r \<Rightarrow>
          (if c \<noteq> CHR ''e'' \<and> c \<noteq> CHR ''E'' then None
           else let neg = (r \<noteq> [] \<and> hd r = CHR ''-'');
                    ds = (if r \<noteq> [] \<and> (hd r = CHR ''-'' \<or> hd r = CHR ''+'') then tl r else r) in
             if ds = [] \<or> \<not> list_all isDigit ds then None
             else Some (if neg then - exponentOf ds else exponentOf ds)))"

definition decimalOf :: "string \<Rightarrow> int" where
  "decimalOf ds = foldl (\<lambda>n c. n * 10 + int (digitVal c)) 0 ds"

definition pow10 :: "int \<Rightarrow> rat" where
  "pow10 k = (if 0 \<le> k then 10 ^ nat k else 1 / 10 ^ nat (- k))"

definition parseDecimal :: "string \<Rightarrow> rat option" where
  "parseDecimal s =
     (let ip = takeWhile isDigit s; r1 = dropWhile isDigit s;
          dot = (r1 \<noteq> [] \<and> hd r1 = CHR ''.'');
          fp = (if dot then takeWhile isDigit (tl r1) else []);
          r2 = (if dot then dropWhile isDigit (tl r1) else r1) in
      if ip @ fp = [] then None
      else map_option (\<lambda>e. of_int (decimalOf (ip @ fp)) * pow10 (e - int (length fp))) (parseExponent r2))"

definition parseFloat :: "(string \<Rightarrow> float64 option) \<Rightarrow> string \<Rightarrow> float64 option" where
  "parseFloat hexFloat s =
     (let neg = (s \<noteq> [] \<and> hd s = CHR ''-'');
          signed = (s \<noteq> [] \<and> (hd s = CHR ''-'' \<or> hd s = CHR ''+''));
          u = (if signed then tl s else s); l = toLower u in
      if l = ''inf'' \<or> l = ''infinity'' then Some (if neg then NegInf else PosInf)
      else if l = ''nan'' \<and> \<not> signed then Some NaN
      else if hasPrefix l ''0x'' then hexFloat s
      else case parseDecimal u of
             None \<Rightarrow> None
           | Some q \<Rightarrow> (case roundDouble (if neg then - q else q) of Finite v \<Rightarrow> Some (Finite v) | _ \<Rightarrow> None))"

section \<open>Facts\<close>

lemma pow2_pos [simp]: "0 < pow2 k"
  by (simp add: pow2_def)

lemma pow2_diff: "pow2 (int a - int b) * 2 ^ b = 2 ^ a"
proof (cases "b \<le> a")
  case True
  then obtain c where "a = b + c" using le_Suc_ex by blast
  then show ?thesis by (simp add: pow2_def power_add)
next
  case False
  then obtain c where "b = a + c" using le_Suc_ex nat_le_linear by blast
  then show ?thesis by (simp add: pow2_def power_add)
qed

lemma pow2_add: "pow2 (j + k) = pow2 j * pow2 k"
proof -
  obtain a b where j: "j = int a - int b" by (metis int_diff_cases)
  obtain c d where k: "k = int c - int d" by (metis int_diff_cases)
  have "j + k = int (a + c) - int (b + d)" using j k by simp
  then have "pow2 (j + k) * 2 ^ (b + d) = 2 ^ (a + c)" by (simp only: pow2_diff)
  also have "\<dots> = (pow2 j * 2 ^ b) * (pow2 k * 2 ^ d)" by (simp only: j k pow2_diff power_add)
  also have "\<dots> = (pow2 j * pow2 k) * 2 ^ (b + d)" by (simp add: power_add)
  finally show ?thesis by simp
qed

lemma roundHalfEven_le: "x \<le> of_int n \<Longrightarrow> roundHalfEven x \<le> n"
proof -
  assume x: "x \<le> of_int n"
  show ?thesis
  proof (cases "x = of_int n")
    case True
    then show ?thesis by (simp add: roundHalfEven_def)
  next
    case False
    with x have "\<lfloor>x\<rfloor> < n" by linarith
    then show ?thesis by (auto simp: roundHalfEven_def Let_def)
  qed
qed

lemma roundHalfEven_nonneg: "0 \<le> x \<Longrightarrow> 0 \<le> roundHalfEven x"
  by (auto simp: roundHalfEven_def Let_def)

lemma pow2_strict: "j < k \<Longrightarrow> pow2 j < pow2 k"
proof -
  assume "j < k"
  then have "pow2 k = pow2 j * 2 ^ nat (k - j)" using pow2_add [of j "k - j"] by (simp add: pow2_def [of "k - j"])
  moreover have "pow2 j * 1 < pow2 j * 2 ^ nat (k - j)" using \<open>j < k\<close> by (intro mult_strict_left_mono) simp_all
  ultimately show ?thesis by simp
qed

lemma pow2_le_iff: "pow2 j \<le> pow2 k \<longleftrightarrow> j \<le> k"
  by (metis linorder_not_le order.strict_iff_order pow2_strict)

lemma bitLog_bounds:
  assumes "0 < n"
  shows "0 \<le> bitLog n \<and> 2 ^ nat (bitLog n) \<le> n \<and> n < 2 ^ Suc (nat (bitLog n))"
  using assms
proof (induction n rule: bitLog.induct)
  case (1 n)
  show ?case
  proof (cases "n \<le> 1")
    case True
    with 1(2) have "n = 1" by simp
    then show ?thesis by (simp add: bitLog.simps)
  next
    case False
    with 1 have IH: "0 \<le> bitLog (n div 2)" "2 ^ nat (bitLog (n div 2)) \<le> n div 2"
      "n div 2 < 2 ^ Suc (nat (bitLog (n div 2)))" by auto
    have step: "bitLog n = 1 + bitLog (n div 2)" using False by (subst bitLog.simps) simp
    then have "nat (bitLog n) = Suc (nat (bitLog (n div 2)))" using IH(1) by (simp add: nat_add_distrib)
    moreover define p where "p = (2 :: int) ^ nat (bitLog (n div 2))"
    moreover have "p \<le> n div 2" "n div 2 < 2 * p" using IH by (simp_all add: p_def)
    then have "2 * p \<le> n" "n < 2 * (2 * p)" by linarith+
    ultimately show ?thesis using IH(1) step by simp
  qed
qed

lemma ratLog_le:
  assumes "0 < q"
  shows "pow2 (ratLog q) \<le> q"
proof -
  obtain n d where nd: "quotient_of q = (n, d)" by fastforce
  have q: "q = of_int n / of_int d" and d: "0 < d"
    using quotient_of_div [OF nd] quotient_of_denom_pos [OF nd] by simp_all
  with assms have n: "0 < n" by (simp add: zero_less_divide_iff)
  let ?k = "bitLog n - bitLog d"
  show ?thesis
  proof (cases "pow2 ?k \<le> q")
    case True
    then show ?thesis by (simp add: ratLog_def nd)
  next
    case False
    then have log: "ratLog q = ?k - 1" by (simp add: ratLog_def nd Let_def)
    have "(of_int (2 ^ nat (bitLog n)) :: rat) \<le> of_int n" using bitLog_bounds [OF n] by (simp only: of_int_le_iff)
    then have nb: "pow2 (bitLog n) \<le> of_int n" using bitLog_bounds [OF n] by (simp add: pow2_def)
    have "of_int d \<le> (of_int (2 ^ Suc (nat (bitLog d))) :: rat)" using bitLog_bounds [OF d]
      by (simp only: of_int_le_iff order_less_imp_le)
    then have db: "of_int d \<le> pow2 (bitLog d + 1)" using bitLog_bounds [OF d]
      by (simp add: pow2_def nat_add_distrib)
    have "pow2 (?k - 1) * of_int d \<le> pow2 (?k - 1) * pow2 (bitLog d + 1)"
      using db by (intro mult_left_mono) (simp_all add: order_less_imp_le)
    also have "\<dots> = pow2 (bitLog n)" by (simp flip: pow2_add)
    also note nb
    finally have "pow2 (?k - 1) \<le> of_int n / of_int d" using d by (simp add: pos_le_divide_eq)
    then show ?thesis by (simp only: log flip: q)
  qed
qed

text \<open>Rounding stays below a power of two, and keeps the sign.\<close>

lemma roundDouble_le:
  assumes "0 \<le> q" "q \<le> pow2 k" "- 1074 \<le> k" "k < 1024"
  shows "\<exists>v. roundDouble q = Finite v \<and> 0 \<le> v \<and> v \<le> pow2 k"
proof (cases "q = 0")
  case True
  then show ?thesis by (simp add: roundDouble_def order_less_imp_le)
next
  case False
  with assms have q: "0 < q" by simp
  define e where "e = max (ratLog q - 52) (- 1074)"
  define m where "m = roundHalfEven (q / pow2 e)"
  have "pow2 (ratLog q) \<le> pow2 k" using ratLog_le [OF q] assms(2) by simp
  then have "ratLog q \<le> k" by (simp only: pow2_le_iff)
  then have e: "e \<le> k" using assms(3) by (simp add: e_def)
  have split: "pow2 k = pow2 (k - e) * pow2 e" using pow2_add [of "k - e" e] by simp
  have top: "pow2 (k - e) = of_int (2 ^ nat (k - e))" using e by (simp add: pow2_def)
  have "q / pow2 e \<le> pow2 (k - e)" using assms(2) by (simp add: pos_divide_le_eq split)
  then have "m \<le> 2 ^ nat (k - e)" unfolding m_def top by (rule roundHalfEven_le)
  then have "of_int m \<le> pow2 (k - e)" unfolding top by (simp only: of_int_le_iff)
  then have v: "of_int m * pow2 e \<le> pow2 k" unfolding split by (simp add: mult_right_mono order_less_imp_le)
  have m0: "0 \<le> m" unfolding m_def using q by (intro roundHalfEven_nonneg) (simp add: order_less_imp_le)
  have "pow2 k < pow2 1024" using assms(4) by (rule pow2_strict)
  with v have "roundDouble q = Finite (of_int m * pow2 e)"
    unfolding roundDouble_def Let_def abs_of_pos [OF q] e_def [symmetric] m_def [symmetric] using q by simp
  with v m0 show ?thesis by (simp add: order_less_imp_le)
qed

text \<open>The integers below \<open>2 ^ 53\<close> are floats.\<close>

lemma roundHalfEven_int [simp]: "roundHalfEven (of_int n) = n"
  by (simp add: roundHalfEven_def)

lemma floatOf_exact:
  assumes "0 \<le> n" "n < 2 ^ 53"
  shows "floatOf n = Finite (of_int n)"
proof (cases "n = 0")
  case True
  then show ?thesis by (simp add: floatOf_def roundDouble_def)
next
  case False
  with assms have n: "0 < n" by simp
  let ?q = "of_int n :: rat"
  have le: "pow2 (ratLog ?q) \<le> ?q" using n by (intro ratLog_le) simp
  have "?q < of_int (2 ^ 53)" using assms(2) by (simp only: of_int_less_iff)
  then have lt: "?q < pow2 53" by (simp add: pow2_def)
  with le have "pow2 (ratLog ?q) < pow2 53" by simp
  then have "ratLog ?q < 53" by (metis linorder_not_le pow2_le_iff)
  then have e: "max (ratLog ?q - 52) (- 1074) \<le> 0" by simp
  define e where "e = max (ratLog ?q - 52) (- 1074)"
  have e0: "e \<le> 0" using e by (simp add: e_def)
  have inv: "pow2 (- e) * pow2 e = 1" using pow2_add [of "- e" e] by (simp add: pow2_def [of 0])
  have "?q / pow2 e = ?q * pow2 (- e)" using inv pow2_pos [of e]
    by (metis mult.commute nonzero_mult_div_cancel_left mult.assoc mult_1 less_irrefl)
  also have "\<dots> = of_int (n * 2 ^ nat (- e))" using e0 by (auto simp: pow2_def)
  finally have r: "roundHalfEven (?q / pow2 e) = n * 2 ^ nat (- e)" by (simp only: roundHalfEven_int)
  have "of_int (n * 2 ^ nat (- e)) * pow2 e = ?q"
    using inv e0 by (auto simp: pow2_def)
  then have "of_int (roundHalfEven (?q / pow2 e)) * pow2 e = ?q" by (simp only: r)
  moreover have "?q < pow2 1024" using lt pow2_strict [of 53 1024] by simp
  ultimately show ?thesis using n
    by (simp add: floatOf_def roundDouble_def Let_def flip: e_def)
qed

text \<open>A quotient, product or sum of bounded non-negative numbers is one.\<close>

definition capped :: "int \<Rightarrow> float64 \<Rightarrow> bool" where
  "capped k x \<longleftrightarrow> (case x of Finite v \<Rightarrow> 0 \<le> v \<and> v \<le> pow2 k | _ \<Rightarrow> False)"

lemma capped_round:
  "0 \<le> q \<Longrightarrow> q \<le> pow2 k \<Longrightarrow> - 1074 \<le> k \<Longrightarrow> k < 1024 \<Longrightarrow> capped k (roundDouble q)"
  using roundDouble_le [of q k] by (auto simp: capped_def)

lemma capped_mult:
  assumes "capped j x" "capped k y" "- 1074 \<le> j + k" "j + k < 1024"
  shows "capped (j + k) (fmul x y)"
proof -
  obtain a b where "x = Finite a" "y = Finite b" "0 \<le> a" "a \<le> pow2 j" "0 \<le> b" "b \<le> pow2 k"
    using assms(1,2) by (auto simp: capped_def split: float64.splits)
  moreover from this have "a * b \<le> pow2 (j + k)" by (simp add: pow2_add mult_mono order_less_imp_le)
  ultimately show ?thesis using assms(3,4) by (simp add: capped_round)
qed

lemma capped_toInt64:
  assumes "capped k x" "0 \<le> k" "k < 63"
  shows "0 \<le> toInt64 x \<and> toInt64 x \<le> 2 ^ nat k"
proof -
  obtain v where v: "x = Finite v" "0 \<le> v" "v \<le> pow2 k"
    using assms(1) by (auto simp: capped_def split: float64.splits)
  have "v \<le> of_int (2 ^ nat k)" using v(3) assms(2) by (simp add: pow2_def)
  then have le: "\<lfloor>v\<rfloor> \<le> 2 ^ nat k" by linarith
  have "(2 :: int) ^ nat k < 2 ^ 63" using assms(2,3) by (intro power_strict_increasing) linarith+
  with le have "\<lfloor>v\<rfloor> < 2 ^ 63" by linarith
  moreover have "0 \<le> \<lfloor>v\<rfloor>" using v(2) by simp
  ultimately show ?thesis using le v(1,2) by (simp only: toInt64.simps truncRat_def) simp
qed

lemma capped_floatOf: "0 \<le> n \<Longrightarrow> n \<le> 2 ^ k \<Longrightarrow> k < 1024 \<Longrightarrow> capped (int k) (floatOf n)"
proof -
  assume n: "0 \<le> n" "n \<le> 2 ^ k" "k < 1024"
  then have "(of_int n :: rat) \<le> of_int (2 ^ k)" by (simp only: of_int_le_iff)
  with n show ?thesis unfolding floatOf_def by (intro capped_round) (simp_all add: pow2_def)
qed

lemma capped_divide:
  assumes "capped k x" "y = Finite v" "1 \<le> v" "- 1074 \<le> k" "k < 1024"
  shows "capped k (fdiv x y)"
proof -
  obtain a where a: "x = Finite a" "0 \<le> a" "a \<le> pow2 k"
    using assms(1) by (auto simp: capped_def split: float64.splits)
  have "a / v \<le> a / 1" using a(2) assms(3) by (intro divide_left_mono) simp_all
  with a assms show ?thesis by (auto intro!: capped_round)
qed

lemma capped_mono: "capped j x \<Longrightarrow> j \<le> k \<Longrightarrow> capped k x"
  by (auto simp: capped_def split: float64.splits intro: order_trans [OF _ pow2_le_iff [THEN iffD2]])

lemma cappedD: "capped k x \<Longrightarrow> \<exists>v. x = Finite v \<and> 0 \<le> v \<and> v \<le> pow2 k"
  by (auto simp: capped_def split: float64.splits)

lemma roundDouble_not_NaN [simp]: "roundDouble q \<noteq> NaN"
  by (simp add: roundDouble_def Let_def)

lemma fdiv_not_NaN: "x \<noteq> NaN \<Longrightarrow> 0 < v \<Longrightarrow> fdiv x (Finite v) \<noteq> NaN"
  by (cases x) simp_all

lemma fadd_not_NaN: "fle (Finite 0) x \<Longrightarrow> fless (Finite 0) y \<Longrightarrow> fadd x y \<noteq> NaN"
  by (cases x; cases y) simp_all

lemma fle_refl: "x \<noteq> NaN \<Longrightarrow> fle x x"
  by (cases x) simp_all

lemma not_fle: "x \<noteq> NaN \<Longrightarrow> y \<noteq> NaN \<Longrightarrow> \<not> fle x y \<longleftrightarrow> fless y x"
  by (cases x; cases y) auto

lemma fless_not_NaN: "fless x y \<Longrightarrow> x \<noteq> NaN \<and> y \<noteq> NaN"
  by (cases x; cases y) simp_all

lemma fless_trans: "fless x y \<Longrightarrow> fless y z \<Longrightarrow> fless x z"
  by (cases x; cases y; cases z) auto

lemma fless_irrefl [simp]: "\<not> fless x x"
  by (cases x) simp_all

end
