(* ===== verification/Store.thy ===== *)
theory Store
  imports Go_Lib
begin

text \<open>
  The database of \<open>internal/db\<close>: the tables of \<open>schema.go\<close> as a record of row lists, the
  schema's constraints, the single write connection with its transaction state, and the programs
  that run on it.

  SQLite itself is not code of the repository; what the model states of it is its documented
  behaviour. A statement either changes the tables as its SQL text says, or fails and changes
  nothing: it fails when the result would break a constraint of the schema (\<open>db.go\<close> switches
  \<open>foreign_keys\<close> on for the write connection), and whenever the environment says so (I/O error,
  full disk, lock timeout, interrupt), in which case SQLite may also roll the open transaction
  back. \<open>BEGIN\<close> fails inside a transaction, \<open>COMMIT\<close> and \<open>ROLLBACK\<close> outside one. The other
  connections see the committed state only.

  A text column that holds a time (\<open>YYYY-MM-DDTHH:MM:SS\<close>) is the number of civil seconds it
  names; the text order the queries use is the order of these numbers for the years 0 to 9999.
\<close>

section \<open>Rows and tables\<close>

type_synonym stamp = int

record artist_row =
  ar_id :: string
  ar_name :: string

record album_row =
  al_id :: string
  al_artist_id :: string
  al_name :: string
  al_year :: "int option"
  al_genre :: "string option"
  al_cover_art :: "string option"
  al_song_count :: int
  al_duration :: int
  al_created :: stamp

record song_row =
  so_rowid :: int
  so_id :: string
  so_album_id :: string
  so_artist_id :: string
  so_title :: string
  so_track :: "int option"
  so_disc :: "int option"
  so_year :: "int option"
  so_genre :: "string option"
  so_duration :: int
  so_size :: int
  so_suffix :: string
  so_bitrate :: int
  so_content_type :: string
  so_path :: string
  so_mtime :: int
  so_created :: stamp

record fts_row =
  ft_rowid :: int
  ft_title :: string
  ft_artist_name :: string
  ft_album_name :: string

record credential_row =
  cr_id :: string
  cr_username :: string
  cr_hash :: bytes
  cr_encrypted :: "bytes option"
  cr_client :: string
  cr_legacy :: int
  cr_expires :: "stamp option"
  cr_created :: stamp

record star_row =
  st_id :: string
  st_user :: string
  st_item :: string
  st_type :: string
  st_created :: stamp

record play_row =
  ph_rowid :: int
  ph_id :: string
  ph_song :: string
  ph_user :: string
  ph_played :: stamp

record playlist_row =
  pl_id :: string
  pl_user :: string
  pl_name :: string
  pl_comment :: string
  pl_public :: int
  pl_created :: stamp
  pl_updated :: stamp

record plsong_row =
  ps_playlist :: string
  ps_song :: string
  ps_position :: int

record rating_row =
  rt_user :: string
  rt_item :: string
  rt_rating :: int

record db =
  db_artist :: "artist_row list"
  db_album :: "album_row list"
  db_song :: "song_row list"
  db_fts :: "fts_row list option"
  db_credential :: "credential_row list"
  db_star :: "star_row list"
  db_play :: "play_row list"
  db_playlist :: "playlist_row list"
  db_plsong :: "plsong_row list"
  db_rating :: "rating_row list"

definition emptyDb :: db where
  "emptyDb = \<lparr>db_artist = [], db_album = [], db_song = [], db_fts = Some [], db_credential = [],
     db_star = [], db_play = [], db_playlist = [], db_plsong = [], db_rating = []\<rparr>"

text \<open>The constraints: primary keys, UNIQUE, foreign keys and the CHECK on ratings.\<close>

definition refersTo :: "('a \<Rightarrow> string) \<Rightarrow> 'a list \<Rightarrow> ('b \<Rightarrow> string) \<Rightarrow> 'b list \<Rightarrow> bool" where
  "refersTo f rows key parents \<longleftrightarrow> list_all (\<lambda>r. f r \<in> set (map key parents)) rows"

definition libraryOK :: "artist_row list \<Rightarrow> album_row list \<Rightarrow> song_row list \<Rightarrow> bool" where
  "libraryOK artists albums songs \<longleftrightarrow>
     distinct (map ar_id artists) \<and> distinct (map ar_name artists)
     \<and> distinct (map al_id albums) \<and> distinct (map (\<lambda>a. (al_artist_id a, al_name a)) albums)
     \<and> refersTo al_artist_id albums ar_id artists
     \<and> distinct (map so_id songs) \<and> distinct (map so_path songs) \<and> distinct (map so_rowid songs)
     \<and> refersTo so_album_id songs al_id albums \<and> refersTo so_artist_id songs ar_id artists"

definition starOK :: "star_row list \<Rightarrow> bool" where
  "starOK stars \<longleftrightarrow>
     distinct (map st_id stars) \<and> distinct (map (\<lambda>s. (st_user s, st_item s, st_type s)) stars)"

definition playOK :: "song_row list \<Rightarrow> play_row list \<Rightarrow> bool" where
  "playOK songs plays \<longleftrightarrow>
     distinct (map ph_id plays) \<and> distinct (map ph_rowid plays) \<and> refersTo ph_song plays so_id songs"

definition playlistOK :: "song_row list \<Rightarrow> playlist_row list \<Rightarrow> plsong_row list \<Rightarrow> bool" where
  "playlistOK songs playlists entries \<longleftrightarrow>
     distinct (map pl_id playlists)
     \<and> distinct (map (\<lambda>e. (ps_playlist e, ps_position e)) entries)
     \<and> refersTo ps_playlist entries pl_id playlists \<and> refersTo ps_song entries so_id songs"

definition ratingOK :: "rating_row list \<Rightarrow> bool" where
  "ratingOK ratings \<longleftrightarrow>
     distinct (map (\<lambda>r. (rt_user r, rt_item r)) ratings)
     \<and> list_all (\<lambda>r. 1 \<le> rt_rating r \<and> rt_rating r \<le> 5) ratings"

definition schemaOK :: "db \<Rightarrow> bool" where
  "schemaOK d \<longleftrightarrow>
     libraryOK (db_artist d) (db_album d) (db_song d) \<and> distinct (map cr_id (db_credential d))
     \<and> starOK (db_star d) \<and> playOK (db_song d) (db_play d)
     \<and> playlistOK (db_song d) (db_playlist d) (db_plsong d) \<and> ratingOK (db_rating d)"

text \<open>
  A statement maps the time and the tables to the new tables and a result, or fails with a
  constraint error. \<open>checked\<close> is the test of the schema at the end of a statement.
\<close>

type_synonym 'a stmt = "stamp \<Rightarrow> db \<Rightarrow> (db \<times> 'a) option"

definition checked :: "(stamp \<Rightarrow> db \<Rightarrow> db) \<Rightarrow> unit stmt" where
  "checked f now d = (if schemaOK (f now d) then Some (f now d, ()) else None)"

definition checkedRet :: "(stamp \<Rightarrow> db \<Rightarrow> db \<times> 'a) \<Rightarrow> 'a stmt" where
  "checkedRet f now d = (if schemaOK (fst (f now d)) then Some (f now d) else None)"

definition selecting :: "(stamp \<Rightarrow> db \<Rightarrow> 'a) \<Rightarrow> 'a stmt" where
  "selecting q now d = Some (d, q now d)"

text \<open>The rowid SQLite gives to the next row of a table: one more than the largest in use.\<close>

definition nextRowid :: "int list \<Rightarrow> int" where
  "nextRowid ids = foldr max ids 0 + 1"

section \<open>The write connection\<close>

datatype sqlerr = SqlFault | SqlConstraint | SqlTransaction

datatype fault = NoFault | Fails | FailsRollback

text \<open>
  What the program does not decide: the outcome of each statement, the values of
  \<open>rand.Uint64\<close>, the clock in UTC seconds when the n-th statement runs, the offset of the
  local time zone, and whether the pool gives a connection.
\<close>

record env =
  ev_fault :: "nat \<Rightarrow> fault"
  ev_rnd :: "nat \<Rightarrow> 64 word"
  ev_now :: "nat \<Rightarrow> stamp"
  ev_tz :: "stamp \<Rightarrow> int"
  ev_pool :: bool

record conn =
  cn_db :: db
  cn_saved :: "db option"
  cn_tick :: nat
  cn_rnd :: nat

definition connOf :: "db \<Rightarrow> conn" where
  "connOf d = \<lparr>cn_db = d, cn_saved = None, cn_tick = 0, cn_rnd = 0\<rparr>"

text \<open>What the other connections see.\<close>

definition committed :: "conn \<Rightarrow> db" where
  "committed c = (case cn_saved c of None \<Rightarrow> cn_db c | Some d \<Rightarrow> d)"

definition connOK :: "conn \<Rightarrow> bool" where
  "connOK c \<longleftrightarrow> schemaOK (cn_db c) \<and> schemaOK (committed c)"

type_synonym 'a tx = "conn \<Rightarrow> (sqlerr + 'a) \<times> conn"

definition ticked :: "conn \<Rightarrow> conn" where
  "ticked c = c\<lparr>cn_tick := Suc (cn_tick c)\<rparr>"

text \<open>A failing statement; \<^const>\<open>FailsRollback\<close> also ends the transaction.\<close>

definition faulted :: "fault \<Rightarrow> conn \<Rightarrow> conn" where
  "faulted f c = (if f = FailsRollback
     then (ticked c)\<lparr>cn_db := committed c, cn_saved := None\<rparr> else ticked c)"

definition exec :: "env \<Rightarrow> 'a stmt \<Rightarrow> 'a tx" where
  "exec env s c =
     (case ev_fault env (cn_tick c) of
        NoFault \<Rightarrow>
          (case s (ev_now env (cn_tick c)) (cn_db c) of
             None \<Rightarrow> (Inl SqlConstraint, ticked c)
           | Some (d, x) \<Rightarrow> (Inr x, (ticked c)\<lparr>cn_db := d\<rparr>))
      | f \<Rightarrow> (Inl SqlFault, faulted f c))"

definition beginTx :: "env \<Rightarrow> unit tx" where
  "beginTx env c =
     (case ev_fault env (cn_tick c) of
        NoFault \<Rightarrow>
          (case cn_saved c of
             Some d \<Rightarrow> (Inl SqlTransaction, ticked c)
           | None \<Rightarrow> (Inr (), (ticked c)\<lparr>cn_saved := Some (cn_db c)\<rparr>))
      | f \<Rightarrow> (Inl SqlFault, faulted f c))"

definition commitTx :: "env \<Rightarrow> unit tx" where
  "commitTx env c =
     (case ev_fault env (cn_tick c) of
        NoFault \<Rightarrow>
          (case cn_saved c of
             None \<Rightarrow> (Inl SqlTransaction, ticked c)
           | Some d \<Rightarrow> (Inr (), (ticked c)\<lparr>cn_saved := None\<rparr>))
      | f \<Rightarrow> (Inl SqlFault, faulted f c))"

definition rollbackTx :: "env \<Rightarrow> unit tx" where
  "rollbackTx env c =
     (case ev_fault env (cn_tick c) of
        NoFault \<Rightarrow>
          (case cn_saved c of
             None \<Rightarrow> (Inl SqlTransaction, ticked c)
           | Some d \<Rightarrow> (Inr (), (ticked c)\<lparr>cn_db := d, cn_saved := None\<rparr>))
      | f \<Rightarrow> (Inl SqlFault, faulted f c))"

section \<open>Programs on the connection\<close>

definition tx_return :: "'a \<Rightarrow> 'a tx" where
  "tx_return x c = (Inr x, c)"

definition tx_bind :: "'a tx \<Rightarrow> ('a \<Rightarrow> 'b tx) \<Rightarrow> 'b tx" where
  "tx_bind m f c = (case m c of (Inl e, c') \<Rightarrow> (Inl e, c') | (Inr x, c') \<Rightarrow> f x c')"

definition tx_then :: "'a tx \<Rightarrow> 'b tx \<Rightarrow> 'b tx" where
  "tx_then m n = tx_bind m (\<lambda>_. n)"

definition tx_when :: "bool \<Rightarrow> unit tx \<Rightarrow> unit tx" where
  "tx_when b m = (if b then m else tx_return ())"

fun tx_each :: "('a \<Rightarrow> unit tx) \<Rightarrow> 'a list \<Rightarrow> unit tx" where
  "tx_each f [] = tx_return ()"
| "tx_each f (x # xs) = tx_then (f x) (tx_each f xs)"

text \<open>An error the code ignores: \<open>_ = sqlitex.ExecuteTransient(...)\<close>.\<close>

definition tx_ignore :: "unit tx \<Rightarrow> unit tx" where
  "tx_ignore m c = (Inr (), snd (m c))"

text \<open>\<open>db.NewID\<close>: two random words, little-endian, in hex.\<close>

definition newIDOf :: "64 word \<Rightarrow> 64 word \<Rightarrow> string" where
  "newIDOf a b = hexEncode (leBytes 8 (unat a) @ leBytes 8 (unat b))"

definition NewID :: "env \<Rightarrow> string tx" where
  "NewID env c =
     (Inr (newIDOf (ev_rnd env (cn_rnd c)) (ev_rnd env (Suc (cn_rnd c)))),
      c\<lparr>cn_rnd := cn_rnd c + 2\<rparr>)"

text \<open>\<open>time.Now()\<close> between two statements.\<close>

definition clock :: "env \<Rightarrow> stamp tx" where
  "clock env c = (Inr (ev_now env (cn_tick c)), c)"

text \<open>
  The shape of every writing handler: \<open>BEGIN\<close>, the body, at its first error \<open>ROLLBACK\<close> with the
  rollback's own error ignored, and \<open>COMMIT\<close>. After a failed \<open>COMMIT\<close> the handlers return
  without a \<open>ROLLBACK\<close>.
\<close>

definition transaction :: "env \<Rightarrow> 'a tx \<Rightarrow> 'a tx" where
  "transaction env body =
     tx_then (beginTx env)
       (\<lambda>c. case body c of
          (Inl e, c1) \<Rightarrow> (Inl e, snd (rollbackTx env c1))
        | (Inr x, c1) \<Rightarrow> tx_then (commitTx env) (tx_return x) c1)"

lemmas run_defs = transaction_def tx_then_def tx_bind_def tx_when_def tx_return_def beginTx_def
  commitTx_def exec_def NewID_def clock_def ticked_def checked_def checkedRet_def selecting_def

section \<open>Facts\<close>

lemma ticked_simps [simp]:
  "cn_db (ticked c) = cn_db c" "cn_saved (ticked c) = cn_saved c" "committed (ticked c) = committed c"
  "connOK (ticked c) = connOK c" "cn_rnd (ticked c) = cn_rnd c" "cn_tick (ticked c) = Suc (cn_tick c)"
  by (simp_all add: ticked_def committed_def connOK_def split: option.splits)

lemma committed_simps [simp]:
  "committed (c\<lparr>cn_rnd := n\<rparr>) = committed c" "connOK (c\<lparr>cn_rnd := n\<rparr>) = connOK c"
  "cn_saved c = Some d \<Longrightarrow> committed (c\<lparr>cn_db := d'\<rparr>) = d"
  "committed (c\<lparr>cn_db := d', cn_saved := None\<rparr>) = d'"
  "committed (c\<lparr>cn_saved := Some d'\<rparr>) = d'"
  "committed (c\<lparr>cn_saved := None\<rparr>) = cn_db c"
  by (simp_all add: committed_def connOK_def split: option.splits)

lemma committed_open: "cn_saved c = Some d \<Longrightarrow> committed c = d"
  by (simp add: committed_def)

lemma committed_closed: "cn_saved c = None \<Longrightarrow> committed c = cn_db c"
  by (simp add: committed_def)

lemma faulted_committed [simp]: "committed (faulted f c) = committed c"
  by (simp add: faulted_def)

lemma faulted_ok [simp]: "connOK c \<Longrightarrow> connOK (faulted f c)"
  by (simp add: faulted_def connOK_def)

lemma connOK_connOf [simp]: "connOK (connOf d) = schemaOK d"
  by (simp add: connOK_def connOf_def committed_def)

lemma schemaOK_emptyDb [simp]: "schemaOK emptyDb"
  by (simp add: schemaOK_def emptyDb_def libraryOK_def starOK_def playOK_def playlistOK_def
      ratingOK_def refersTo_def)

lemma refersTo_Nil [simp]: "refersTo f [] key ps"
  by (simp add: refersTo_def)

lemma refersTo_Cons [simp]:
  "refersTo f (r # rs) key ps \<longleftrightarrow> f r \<in> set (map key ps) \<and> refersTo f rs key ps"
  by (simp add: refersTo_def)

lemma refersTo_append [simp]:
  "refersTo f (rs @ rs') key ps \<longleftrightarrow> refersTo f rs key ps \<and> refersTo f rs' key ps"
  by (simp add: refersTo_def)

lemma refersTo_filter [intro]: "refersTo f rs key ps \<Longrightarrow> refersTo f (filter P rs) key ps"
  by (auto simp: refersTo_def list_all_iff)

lemma refersTo_mono:
  "refersTo f rs key ps \<Longrightarrow> set (map key ps) \<subseteq> set (map key' ps') \<Longrightarrow> refersTo f rs key' ps'"
  by (auto simp: refersTo_def list_all_iff)

lemma refersToD: "refersTo f rs key ps \<Longrightarrow> r \<in> set rs \<Longrightarrow> f r \<in> key ` set ps"
  by (auto simp: refersTo_def list_all_iff)

text \<open>What replacing one table asks of the schema.\<close>

lemma schemaOK_update [simp]:
  "schemaOK d \<Longrightarrow> schemaOK (d\<lparr>db_star := stars\<rparr>) = starOK stars"
  "schemaOK d \<Longrightarrow> schemaOK (d\<lparr>db_rating := ratings\<rparr>) = ratingOK ratings"
  "schemaOK d \<Longrightarrow> schemaOK (d\<lparr>db_play := plays\<rparr>) = playOK (db_song d) plays"
  "schemaOK d \<Longrightarrow> schemaOK (d\<lparr>db_plsong := entries\<rparr>) = playlistOK (db_song d) (db_playlist d) entries"
  "schemaOK d \<Longrightarrow> schemaOK (d\<lparr>db_playlist := playlists\<rparr>) = playlistOK (db_song d) playlists (db_plsong d)"
  "schemaOK d \<Longrightarrow> schemaOK (d\<lparr>db_playlist := playlists, db_plsong := entries\<rparr>)
     = playlistOK (db_song d) playlists entries"
  "schemaOK d \<Longrightarrow> schemaOK (d\<lparr>db_credential := creds\<rparr>) = distinct (map cr_id creds)"
  "schemaOK d \<Longrightarrow> schemaOK (d\<lparr>db_fts := fts\<rparr>)"
  by (simp_all add: schemaOK_def)

lemma nextRowid_fresh: "i \<in> set ids \<Longrightarrow> i < nextRowid ids"
  unfolding nextRowid_def by (induction ids) auto

subsection \<open>Statements\<close>

definition stmtOK :: "'a stmt \<Rightarrow> bool" where
  "stmtOK s \<longleftrightarrow> (\<forall>now d d' x. s now d = Some (d', x) \<longrightarrow> schemaOK d \<longrightarrow> schemaOK d')"

lemma stmtOK_checked [tx_intro]: "stmtOK (checked f)"
  by (simp add: stmtOK_def checked_def)

lemma stmtOK_checkedRet [tx_intro]: "stmtOK (checkedRet f)"
  by (auto simp: stmtOK_def checkedRet_def split: if_splits)

lemma stmtOK_selecting [tx_intro]: "stmtOK (selecting q)"
  by (simp add: stmtOK_def selecting_def)

lemma checked_Some [simp]:
  "checked f now d = Some (d', x) \<longleftrightarrow> d' = f now d \<and> schemaOK (f now d)"
  by (auto simp: checked_def)

lemma checkedRet_Some [simp]:
  "checkedRet f now d = Some (d', x) \<longleftrightarrow> f now d = (d', x) \<and> schemaOK d'"
  by (auto simp: checkedRet_def)

lemma selecting_Some [simp]: "selecting q now d = Some (d', x) \<longleftrightarrow> d' = d \<and> x = q now d"
  by (auto simp: selecting_def)

lemma exec_Inr [simp]:
  "exec env s c = (Inr x, c') \<longleftrightarrow> ev_fault env (cn_tick c) = NoFault \<and>
     (\<exists>d. s (ev_now env (cn_tick c)) (cn_db c) = Some (d, x) \<and> c' = (ticked c)\<lparr>cn_db := d\<rparr>)"
  by (auto simp: exec_def split: fault.splits option.splits)

lemma exec_checked:
  "exec env (checked f) c = (Inr u, c') \<Longrightarrow> cn_db c' = f (ev_now env (cn_tick c)) (cn_db c)"
  by auto

lemma exec_Inl:
  "exec env s c = (Inl e, c') \<Longrightarrow> committed c' = committed c \<and> (connOK c \<longrightarrow> connOK c')"
  by (auto simp: exec_def split: fault.splits option.splits)

lemma exec_ok:
  assumes "stmtOK s" "connOK c" "exec env s c = (r, c')"
  shows "connOK c'"
proof (cases r)
  case (Inl e)
  with assms exec_Inl show ?thesis by blast
next
  case (Inr x)
  with assms show ?thesis
    by (auto simp: stmtOK_def connOK_def committed_def split: option.splits)
qed

subsection \<open>Sequencing\<close>

lemma tx_bind_Inr [simp]:
  "tx_bind m f c = (Inr y, c'') \<longleftrightarrow> (\<exists>x c'. m c = (Inr x, c') \<and> f x c' = (Inr y, c''))"
  by (auto simp: tx_bind_def split: prod.splits sum.splits)

lemma tx_then_Inr [simp]:
  "tx_then m n c = (Inr y, c'') \<longleftrightarrow> (\<exists>x c'. m c = (Inr x, c') \<and> n c' = (Inr y, c''))"
  by (simp add: tx_then_def)

lemma tx_return_Inr [simp]: "tx_return x c = (Inr y, c') \<longleftrightarrow> y = x \<and> c' = c"
  by (auto simp: tx_return_def)

lemma tx_when_Inr [simp]:
  "tx_when b m c = (Inr u, c') \<longleftrightarrow> (if b then m c = (Inr u, c') else c' = c)"
  by (auto simp: tx_when_def)

lemma NewID_Inr [simp]:
  "NewID env c = (Inr i, c') \<longleftrightarrow> i = newIDOf (ev_rnd env (cn_rnd c)) (ev_rnd env (Suc (cn_rnd c)))
     \<and> c' = c\<lparr>cn_rnd := cn_rnd c + 2\<rparr>"
  by (auto simp: NewID_def)

lemma clock_Inr [simp]: "clock env c = (Inr n, c') \<longleftrightarrow> n = ev_now env (cn_tick c) \<and> c' = c"
  by (auto simp: clock_def)

text \<open>A loop's effect on a view \<open>h\<close> of the tables is the fold of its steps' effects.\<close>

lemma tx_each_fold:
  assumes "tx_each f xs c = (Inr (), c')"
    and "\<And>x c c'. x \<in> set xs \<Longrightarrow> f x c = (Inr (), c') \<Longrightarrow> h (cn_db c') = g x (h (cn_db c))"
  shows "h (cn_db c') = fold g xs (h (cn_db c))"
  using assms
proof (induction xs arbitrary: c)
  case (Cons x xs)
  then obtain c1 where c1: "f x c = (Inr (), c1)" "tx_each f xs c1 = (Inr (), c')" by auto
  have "h (cn_db c1) = g x (h (cn_db c))" using c1(1) by (rule Cons.prems(2) [rotated]) simp
  moreover have "h (cn_db c') = fold g xs (h (cn_db c1))"
    using Cons.prems(2) by (intro Cons.IH c1(2)) simp
  ultimately show ?case by simp
qed simp

lemma tx_each_inv:
  assumes "tx_each f xs c = (Inr (), c')" "P c"
    and "\<And>x c c'. x \<in> set xs \<Longrightarrow> f x c = (Inr (), c') \<Longrightarrow> P c \<Longrightarrow> P c'"
  shows "P c'"
  using assms
proof (induction xs arbitrary: c)
  case (Cons x xs)
  then obtain c1 where "f x c = (Inr (), c1)" "tx_each f xs c1 = (Inr (), c')" by auto
  with Cons show ?case by (metis list.set_intros(1,2))
qed simp

subsection \<open>The contract of a transaction's body\<close>

text \<open>
  What a handler may do between \<open>BEGIN\<close> and \<open>COMMIT\<close>: it leaves the transaction open when it
  succeeds, publishes nothing when it fails, and keeps the schema. Every body of the program is
  shown to be one, and \<open>transaction\<close> of such a body is atomic.
\<close>

locale tx_program =
  fixes body :: "'a tx"
  assumes keeps: "cn_saved c = Some d \<Longrightarrow> connOK c \<Longrightarrow> body c = (Inr x, c')
      \<Longrightarrow> cn_saved c' = Some d \<and> connOK c'"
    and hides: "cn_saved c = Some d \<Longrightarrow> connOK c \<Longrightarrow> body c = (Inl e, c')
      \<Longrightarrow> committed c' = d \<and> connOK c'"

lemma beginTx_Inr [simp]:
  "beginTx env c = (Inr u, c') \<longleftrightarrow> ev_fault env (cn_tick c) = NoFault \<and> cn_saved c = None
     \<and> c' = (ticked c)\<lparr>cn_saved := Some (cn_db c)\<rparr>"
  by (auto simp: beginTx_def split: fault.splits option.splits)

lemma beginTx_Inl:
  "beginTx env c = (Inl e, c') \<Longrightarrow> committed c' = committed c \<and> (connOK c \<longrightarrow> connOK c')"
  by (auto simp: beginTx_def split: fault.splits option.splits)

lemma commitTx_Inr [simp]:
  "commitTx env c = (Inr u, c') \<longleftrightarrow> ev_fault env (cn_tick c) = NoFault \<and> cn_saved c \<noteq> None
     \<and> c' = (ticked c)\<lparr>cn_saved := None\<rparr>"
  by (auto simp: commitTx_def split: fault.splits option.splits)

lemma commitTx_Inl:
  "commitTx env c = (Inl e, c') \<Longrightarrow> committed c' = committed c \<and> (connOK c \<longrightarrow> connOK c')"
  by (auto simp: commitTx_def split: fault.splits option.splits)

lemma rollbackTx_committed:
  "committed (snd (rollbackTx env c)) = committed c"
  by (auto simp: rollbackTx_def committed_def split: fault.splits option.splits)
    (auto simp: faulted_def committed_def)

lemma rollbackTx_ok: "connOK c \<Longrightarrow> connOK (snd (rollbackTx env c))"
  using rollbackTx_committed [of env c]
  by (auto simp: rollbackTx_def connOK_def committed_def split: fault.splits option.splits)
    (auto simp: faulted_def committed_def)

text \<open>The four ways through \<open>transaction\<close>.\<close>

lemma transaction_no_begin:
  "beginTx env c = (Inl e, c1) \<Longrightarrow> transaction env body c = (Inl e, c1)"
  by (simp add: transaction_def tx_then_def tx_bind_def)

lemma transaction_body_fails:
  "beginTx env c = (Inr (), c1) \<Longrightarrow> body c1 = (Inl e, c2)
    \<Longrightarrow> transaction env body c = (Inl e, snd (rollbackTx env c2))"
  by (simp add: transaction_def tx_then_def tx_bind_def del: beginTx_Inr)

lemma transaction_commit_fails:
  "beginTx env c = (Inr (), c1) \<Longrightarrow> body c1 = (Inr x, c2) \<Longrightarrow> commitTx env c2 = (Inl e, c3)
    \<Longrightarrow> transaction env body c = (Inl e, c3)"
  by (simp add: transaction_def tx_then_def tx_bind_def del: beginTx_Inr)

lemma transaction_commits:
  "beginTx env c = (Inr (), c1) \<Longrightarrow> body c1 = (Inr x, c2) \<Longrightarrow> commitTx env c2 = (Inr (), c3)
    \<Longrightarrow> transaction env body c = (Inr x, c3)"
  by (simp add: transaction_def tx_then_def tx_bind_def tx_return_def del: beginTx_Inr commitTx_Inr)

context tx_program
begin

lemma transaction_cases:
  assumes "transaction env body c = (r, c')" "connOK c"
  obtains (failed) e where "r = Inl e" "committed c' = committed c" "connOK c'"
  | (success) x c1 c2 where "r = Inr x" "cn_saved c = None"
      "c1 = (ticked c)\<lparr>cn_saved := Some (cn_db c)\<rparr>" "body c1 = (Inr x, c2)"
      "cn_saved c' = None" "cn_db c' = cn_db c2" "connOK c'"
proof (cases "beginTx env c")
  case (Pair r0 c1)
  show ?thesis
  proof (cases r0)
    case (Inl e)
    then have "r = Inl e" "c' = c1"
      using assms(1) transaction_no_begin [of env c e c1 body] Pair by simp_all
    then show ?thesis
      using beginTx_Inl [of env c e c1] Pair Inl assms(2) by (intro failed) simp_all
  next
    case (Inr u)
    with Pair have b: "beginTx env c = (Inr (), c1)" by simp
    then have c1: "c1 = (ticked c)\<lparr>cn_saved := Some (cn_db c)\<rparr>" and sv: "cn_saved c = None" by simp_all
    have ok1: "connOK c1" "cn_saved c1 = Some (cn_db c)" "committed c = cn_db c"
      using assms(2) sv by (simp_all add: c1 connOK_def committed_def)
    obtain r2 c2 where r2: "body c1 = (r2, c2)" by fastforce
    show ?thesis
    proof (cases r2)
      case (Inl e)
      then have e: "r = Inl e" "c' = snd (rollbackTx env c2)"
        using assms(1) transaction_body_fails [OF b, of body e c2] r2 by simp_all
      have "committed c2 = cn_db c \<and> connOK c2"
        using hides [OF ok1(2,1)] r2 Inl by simp
      then show ?thesis
        using e ok1(3) by (intro failed) (simp_all add: rollbackTx_committed rollbackTx_ok)
    next
      case (Inr x)
      have k: "cn_saved c2 = Some (cn_db c) \<and> connOK c2"
        using keeps [OF ok1(2,1)] r2 Inr by simp
      obtain r3 c3 where r3: "commitTx env c2 = (r3, c3)" by fastforce
      show ?thesis
      proof (cases r3)
        case (Inl e)
        then have "r = Inl e" "c' = c3"
          using assms(1) transaction_commit_fails [OF b, of body x c2 e c3] r2 r3 Inr by simp_all
        then show ?thesis
          using commitTx_Inl [of env c2 e c3] r3 Inl k ok1(3)
          by (intro failed) (simp_all add: committed_open)
      next
        case (Inr u')
        then have "r = Inr x" "c' = c3"
          using assms(1) transaction_commits [OF b, of body x c2 c3] r2 r3 \<open>r2 = Inr x\<close> by simp_all
        moreover have "c3 = (ticked c2)\<lparr>cn_saved := None\<rparr>"
          using r3 Inr by simp
        ultimately show ?thesis
          using r2 \<open>r2 = Inr x\<close> k sv c1
          by (intro success [of x c1 c2]) (simp_all add: connOK_def)
      qed
    qed
  qed
qed

lemma atomic:
  "transaction env body c = (Inl e, c') \<Longrightarrow> connOK c \<Longrightarrow> committed c' = committed c"
  by (erule transaction_cases) auto

lemma transaction_ok: "transaction env body c = (r, c') \<Longrightarrow> connOK c \<Longrightarrow> connOK c'"
  by (erule transaction_cases) auto

lemma published:
  assumes "transaction env body c = (Inr x, c')" "connOK c"
  obtains c1 c2 where "cn_db c1 = committed c" "body c1 = (Inr x, c2)" "committed c' = cn_db c2"
    "cn_saved c' = None"
  using assms(1,2)
proof (cases rule: transaction_cases)
  case (success y c1 c2)
  then show ?thesis
    using that [of c1 c2] by (simp add: committed_closed)
qed simp

end

subsection \<open>Bodies inherit the contract\<close>

lemma tx_return_program [tx_intro]: "tx_program (tx_return x)"
  by unfold_locales (simp_all add: tx_return_def)

lemma tx_bind_program [tx_intro]:
  assumes "tx_program m" "\<And>x. tx_program (f x)"
  shows "tx_program (tx_bind m f)"
proof
  fix c d x c' assume c: "cn_saved c = Some d" "connOK c" "tx_bind m f c = (Inr x, c')"
  then obtain y c1 where s: "m c = (Inr y, c1)" "f y c1 = (Inr x, c')" by auto
  have "cn_saved c1 = Some d \<and> connOK c1" by (rule tx_program.keeps [OF assms(1) c(1,2) s(1)])
  then show "cn_saved c' = Some d \<and> connOK c'"
    using tx_program.keeps [OF assms(2) _ _ s(2)] by simp
next
  fix c d e c' assume c: "cn_saved c = Some d" "connOK c" "tx_bind m f c = (Inl e, c')"
  obtain r c1 where r: "m c = (r, c1)" by fastforce
  show "committed c' = d \<and> connOK c'"
  proof (cases r)
    case (Inl e')
    then show ?thesis
      using c(3) r tx_program.hides [OF assms(1) c(1,2)] by (simp add: tx_bind_def)
  next
    case (Inr y)
    then have "cn_saved c1 = Some d \<and> connOK c1"
      using r tx_program.keeps [OF assms(1) c(1,2)] by simp
    moreover have "f y c1 = (Inl e, c')" using c(3) r Inr by (simp add: tx_bind_def)
    ultimately show ?thesis using tx_program.hides [OF assms(2)] by blast
  qed
qed

lemma tx_then_program [tx_intro]:
  "tx_program m \<Longrightarrow> tx_program n \<Longrightarrow> tx_program (tx_then m n)"
  unfolding tx_then_def by (intro tx_intro)

lemma tx_when_program [tx_intro]: "(b \<Longrightarrow> tx_program m) \<Longrightarrow> tx_program (tx_when b m)"
  unfolding tx_when_def by (cases b) (simp_all add: tx_return_program)

lemma tx_each_program [tx_intro]: "(\<And>x. tx_program (f x)) \<Longrightarrow> tx_program (tx_each f xs)"
  by (induction xs) (auto intro: tx_intro)

lemma exec_program [tx_intro]:
  assumes "stmtOK s"
  shows "tx_program (exec env s)"
proof
  fix c d x c' assume c: "cn_saved c = Some d" "connOK c" "exec env s c = (Inr x, c')"
  then show "cn_saved c' = Some d \<and> connOK c'"
    using exec_ok [OF assms c(2,3)] by auto
next
  fix c d e c' assume "cn_saved c = Some d" "connOK c" "exec env s c = (Inl e, c')"
  then show "committed c' = d \<and> connOK c'"
    using exec_Inl [of env s c e c'] by (simp add: committed_open)
qed

lemma NewID_program [tx_intro]: "tx_program (NewID env)"
  by unfold_locales (auto simp: NewID_def)

lemma clock_program [tx_intro]: "tx_program (clock env)"
  by unfold_locales (auto simp: clock_def)

end
