(* ===== verification/Http.thy ===== *)
theory Http
  imports Store
begin

text \<open>
  Requests and responses of \<open>internal/api\<close>: what the handlers read of an \<open>http.Request\<close>, the
  envelope and the body types of \<open>responses.go\<close>, and the helpers every handler starts with.

  A request carries the parsed form as the ordered list of its key-value pairs (query and body,
  as \<open>net/http\<close> merges them), whether \<open>ParseForm\<close> reports an error, and the username the
  authentication middleware put in its context. The pointers of \<open>SubsonicResponse\<close>, of which at
  most one is set, are one \<open>respBody\<close>; times are the numbers of \<open>Store\<close>. The JSON and XML
  encoders are \<open>encoding/json\<close> and \<open>encoding/xml\<close> and are not modelled: a response is the format
  chosen for it and the envelope.
\<close>

section \<open>Requests\<close>

record request =
  rq_method :: string
  rq_path :: string
  rq_query :: string
  rq_form :: "(string \<times> string) list"
  rq_formOK :: bool
  rq_user :: "string option"
  rq_remote :: string
  rq_headers :: "(string \<times> string) list"
  rq_cookies :: "(string \<times> string) list"

definition formValues :: "request \<Rightarrow> string \<Rightarrow> string list" where
  "formValues r k = map snd (filter (\<lambda>p. fst p = k) (rq_form r))"

definition FormValue :: "request \<Rightarrow> string \<Rightarrow> string" where
  "FormValue r k = (case formValues r k of [] \<Rightarrow> '''' | v # _ \<Rightarrow> v)"

definition headerGet :: "request \<Rightarrow> string \<Rightarrow> string" where
  "headerGet r k = (case map_of (rq_headers r) k of Some v \<Rightarrow> v | None \<Rightarrow> '''')"

definition withUser :: "string \<Rightarrow> request \<Rightarrow> request" where
  "withUser u r = r\<lparr>rq_user := Some u\<rparr>"

definition intParam :: "request \<Rightarrow> string \<Rightarrow> int \<Rightarrow> int" where
  "intParam r name fallback =
     (let v = FormValue r name in
      if v = '''' then fallback
      else let (n, ok) = parseInt v in
        if \<not> ok \<or> n < 0 then fallback else n)"

section \<open>Response types\<close>

record APIError =
  er_code :: int
  er_message :: string

record ArtistID3 =
  ra_id :: string
  ra_name :: string
  ra_albumCount :: int
  ra_coverArt :: string

record IndexID3 =
  ri_name :: string
  ri_artists :: "ArtistID3 list"

record AlbumID3 =
  rl_id :: string
  rl_name :: string
  rl_artist :: string
  rl_artistID :: string
  rl_coverArt :: string
  rl_songCount :: int
  rl_duration :: int
  rl_year :: int
  rl_genre :: string
  rl_created :: stamp

record SongID3 =
  rs_id :: string
  rs_title :: string
  rs_album :: string
  rs_artist :: string
  rs_albumID :: string
  rs_artistID :: string
  rs_track :: int
  rs_disc :: int
  rs_year :: int
  rs_genre :: string
  rs_duration :: int
  rs_size :: int
  rs_suffix :: string
  rs_bitRate :: int
  rs_contentType :: string
  rs_path :: string
  rs_coverArt :: string
  rs_type :: string
  rs_userRating :: int

record ArtistWithAlbumsID3 =
  aw_id :: string
  aw_name :: string
  aw_albumCount :: int
  aw_albums :: "AlbumID3 list"

record AlbumWithSongsID3 =
  lw_album :: AlbumID3
  lw_songs :: "SongID3 list"

record Genre =
  rg_name :: string
  rg_songCount :: int
  rg_albumCount :: int

record SearchResult3 =
  sr_artists :: "ArtistID3 list"
  sr_albums :: "AlbumID3 list"
  sr_songs :: "SongID3 list"

record PlaylistEntry =
  pe_id :: string
  pe_name :: string
  pe_comment :: string
  pe_songCount :: int
  pe_duration :: int
  pe_owner :: string
  pe_public :: bool
  pe_created :: "stamp option"
  pe_changed :: "stamp option"

record PlaylistWithSongs =
  pw_entry :: PlaylistEntry
  pw_songs :: "SongID3 list"

record User =
  us_username :: string
  us_scrobbling :: bool
  us_admin :: bool
  us_settings :: bool
  us_download :: bool
  us_upload :: bool
  us_playlist :: bool
  us_coverArt :: bool
  us_comment :: bool
  us_podcast :: bool
  us_stream :: bool
  us_jukebox :: bool
  us_share :: bool
  us_folder :: "int list"

record RespLyricLine =
  ll_start :: "int option"
  ll_value :: string

record StructuredLyrics =
  sl_lang :: string
  sl_synced :: bool
  sl_lines :: "RespLyricLine list"

datatype respBody =
    NoBody
  | License bool
  | MusicFolders "(int \<times> string) list"
  | OpenSubsonicExt "(string \<times> int list) list"
  | Artists "IndexID3 list"
  | Artist ArtistWithAlbumsID3
  | Album AlbumWithSongsID3
  | Song SongID3
  | Genres "Genre list"
  | SearchResult3 SearchResult3
  | AlbumList2 "AlbumID3 list"
  | RandomSongs "SongID3 list"
  | Starred2 SearchResult3
  | SongsByGenre "SongID3 list"
  | ScanStatus bool int
  | Playlists "PlaylistEntry list"
  | Playlist PlaylistWithSongs
  | ArtistInfo2
  | AlbumInfo
  | TopSongs "SongID3 list"
  | SimilarSongs2 "SongID3 list"
  | UserBody User
  | LyricsList "StructuredLyrics list"

record SubsonicResponse =
  re_status :: string
  re_version :: string
  re_type :: string
  re_error :: "APIError option"
  re_body :: respBody

definition APIVersion :: string where "APIVersion = ''1.16.1''"

definition ServerName :: string where "ServerName = ''preamp''"

definition okResp :: SubsonicResponse where
  "okResp = \<lparr>re_status = ''ok'', re_version = APIVersion, re_type = ServerName,
     re_error = None, re_body = NoBody\<rparr>"

definition okWith :: "respBody \<Rightarrow> SubsonicResponse" where
  "okWith b = okResp\<lparr>re_body := b\<rparr>"

definition errResponse :: "int \<Rightarrow> string \<Rightarrow> SubsonicResponse" where
  "errResponse code msg = \<lparr>re_status = ''failed'', re_version = APIVersion, re_type = ServerName,
     re_error = Some \<lparr>er_code = code, er_message = msg\<rparr>, re_body = NoBody\<rparr>"

section \<open>The format\<close>

fun formatIn :: "string list \<Rightarrow> string" where
  "formatIn [] = ''xml''"
| "formatIn (seg # segs) =
     (case cut seg (CHR ''='') of
        Some (k, v) \<Rightarrow> if k = ''f'' then v else formatIn segs
      | None \<Rightarrow> formatIn segs)"

definition responseFormat :: "request \<Rightarrow> string" where
  "responseFormat r = formatIn (splitOn (CHR ''&'') (rq_query r))"

datatype encoding = JSON | XML

definition writeResponse :: "request \<Rightarrow> SubsonicResponse \<Rightarrow> encoding \<times> SubsonicResponse" where
  "writeResponse r resp = (if responseFormat r = ''json'' then JSON else XML, resp)"

section \<open>Users\<close>

definition usernameFromRequest :: "request \<Rightarrow> string" where
  "usernameFromRequest r =
     (case rq_user r of
        Some u \<Rightarrow> if u \<noteq> '''' then u else FormValue r ''u''
      | None \<Rightarrow> FormValue r ''u'')"

definition requireUsername :: "request \<Rightarrow> SubsonicResponse + string" where
  "requireUsername r =
     (let u = usernameFromRequest r in
      if u = '''' then Inl (errResponse 10 ''missing parameter: u'') else Inr u)"

text \<open>
  The readers: the k-th query of a handler on a read connection fails or sees the tables as
  they were committed when it ran, at that time by the clock.
\<close>

record reader =
  rd_pool :: bool
  rd_query :: "nat \<Rightarrow> sqlerr + db"
  rd_now :: "nat \<Rightarrow> stamp"

definition select :: "reader \<Rightarrow> nat \<Rightarrow> (stamp \<Rightarrow> db \<Rightarrow> 'a) \<Rightarrow> sqlerr + 'a" where
  "select rd k q = (case rd_query rd k of Inl e \<Rightarrow> Inl e | Inr d \<Rightarrow> Inr (q (rd_now rd k) d))"

section \<open>Facts\<close>

definition succeeded :: "SubsonicResponse \<Rightarrow> bool" where
  "succeeded resp \<longleftrightarrow> re_error resp = None"

lemma succeeded_simps [simp]:
  "succeeded okResp" "succeeded (okWith b)" "\<not> succeeded (errResponse code msg)"
  by (simp_all add: succeeded_def okResp_def okWith_def errResponse_def)

lemma errResponse_eq [simp]:
  "errResponse a m = errResponse b n \<longleftrightarrow> a = b \<and> m = n"
  by (simp add: errResponse_def)

lemma err_not_ok [simp]:
  "errResponse code msg \<noteq> okWith b" "okWith b \<noteq> errResponse code msg"
  "errResponse code msg \<noteq> okResp" "okResp \<noteq> errResponse code msg"
  by (simp_all add: errResponse_def okWith_def okResp_def)

lemma okWith_eq [simp]: "okWith b = okWith b' \<longleftrightarrow> b = b'"
  by (simp add: okWith_def okResp_def)

lemma requireUsername_Inr [simp]:
  "requireUsername r = Inr u \<longleftrightarrow> u = usernameFromRequest r \<and> u \<noteq> ''''"
  by (auto simp: requireUsername_def Let_def)

lemma requireUsername_Inl:
  "requireUsername r = Inl e \<longleftrightarrow>
     usernameFromRequest r = '''' \<and> e = errResponse 10 ''missing parameter: u''"
  by (auto simp: requireUsername_def Let_def)

lemma withUser_username [simp]: "u \<noteq> '''' \<Longrightarrow> usernameFromRequest (withUser u r) = u"
  by (simp add: usernameFromRequest_def withUser_def)

lemma intParam_ge_0: "0 \<le> fallback \<Longrightarrow> 0 \<le> intParam r name fallback"
  by (auto simp: intParam_def Let_def split: prod.splits)

lemma intParam_fallback: "FormValue r name = '''' \<Longrightarrow> intParam r name fallback = fallback"
  by (simp add: intParam_def)

end
