(* ===== verification/Slice.thy ===== *)
theory Slice
  imports Duration Go_Float Http
begin

unbundle bit_operations_syntax

text \<open>
  The slicers of \<open>internal/api/slice.go\<close>: an MP3, FLAC or WAV file cut to a time range while it
  is served. A file is the list of its bytes, its size the one \<open>stat\<close> reported; seeking to a
  negative offset fails, seeking past the end does not, and a read there meets the end of the
  file. The \<open>http.ResponseWriter\<close> is the content type and length set so far and the bytes
  written; once a byte is written, the headers are sent and later settings have no effect.

  A slicer returns whether it handled the request, with the writer as it left it: after
  \<open>false\<close> the caller serves the full file to the same writer. Seconds are \<open>float64\<close> values.
  A 64-bit sum that can overflow on the contents of a file is written on \<^typ>\<open>64 word\<close>; the other
  sums and products stay below \<open>2^63\<close> for files below \<open>2^60\<close> bytes.
\<close>

section \<open>The response writer\<close>

record responseWriter =
  rw_type :: string
  rw_length :: "int option"
  rw_body :: bytes

definition emptyWriter :: responseWriter where
  "emptyWriter = \<lparr>rw_type = '''', rw_length = None, rw_body = []\<rparr>"

definition setType :: "string \<Rightarrow> responseWriter \<Rightarrow> responseWriter" where
  "setType ct w = (if rw_body w = [] then w\<lparr>rw_type := ct\<rparr> else w)"

definition setLength :: "int \<Rightarrow> responseWriter \<Rightarrow> responseWriter" where
  "setLength n w = (if rw_body w = [] then w\<lparr>rw_length := Some n\<rparr> else w)"

definition writeBytes :: "bytes \<Rightarrow> responseWriter \<Rightarrow> responseWriter" where
  "writeBytes bs w = w\<lparr>rw_body := rw_body w @ bs\<rparr>"

text \<open>\<open>io.Copy(w, io.LimitReader(f, n))\<close> with the file at \<open>off\<close>.\<close>

definition fileRange :: "bytes \<Rightarrow> int \<Rightarrow> int \<Rightarrow> bytes" where
  "fileRange f off n = take (nat n) (drop (nat off) f)"

section \<open>MP3\<close>

definition sliceBitrateV1 :: "int list" where
  "sliceBitrateV1 = [0, 32, 40, 48, 56, 64, 80, 96, 112, 128, 160, 192, 224, 256, 320, 0]"

definition sliceBitrateV2 :: "int list" where
  "sliceBitrateV2 = [0, 8, 16, 24, 32, 40, 48, 56, 64, 80, 96, 112, 128, 144, 160, 0]"

definition sliceSampleRateV1 :: "int list" where
  "sliceSampleRateV1 = [44100, 48000, 32000, 0]"

definition sliceSampleRateV2 :: "int list" where
  "sliceSampleRateV2 = [22050, 24000, 16000, 0]"

definition sliceSampleRateV25 :: "int list" where
  "sliceSampleRateV25 = [11025, 12000, 8000, 0]"

definition sliceMaxSync :: int where
  "sliceMaxSync = 65536"

record mp3FrameInfo =
  mi_audioStart :: int
  mi_bitrate :: int
  mi_sampleRate :: int
  mi_samplesPerFrame :: int
  mi_totalFrames :: int
  mi_totalDuration :: float64
  mi_toc :: bytes
  mi_hasTOC :: bool
  mi_audioBytes :: int

definition noFrameInfo :: mp3FrameInfo where
  "noFrameInfo = \<lparr>mi_audioStart = 0, mi_bitrate = 0, mi_sampleRate = 0, mi_samplesPerFrame = 0,
     mi_totalFrames = 0, mi_totalDuration = Finite 0, mi_toc = replicate 100 0, mi_hasTOC = False,
     mi_audioBytes = 0\<rparr>"

text \<open>
  The head of one turn of the search: the frame header at \<open>i\<close> as the new frame info and the
  offset of the Xing header; \<^const>\<open>None\<close> is \<open>continue\<close>.
\<close>

definition sliceFrameAt :: "bytes \<Rightarrow> nat \<Rightarrow> (mp3FrameInfo \<times> nat) option" where
  "sliceFrameAt chunk i =
     (if chunk ! i \<noteq> 0xFF \<or> chunk ! (i + 1) AND 0xE0 \<noteq> 0xE0 then None
      else let version = drop_bit 3 (chunk ! (i + 1)) AND 0x03;
               layer = drop_bit 1 (chunk ! (i + 1)) AND 0x03 in
        if version = 1 \<or> layer \<noteq> 1 then None
        else let bitrateIdx = drop_bit 4 (chunk ! (i + 2)) AND 0x0F;
                 sampleRateIdx = drop_bit 2 (chunk ! (i + 2)) AND 0x03 in
          if bitrateIdx = 0 \<or> bitrateIdx = 15 \<or> sampleRateIdx = 3 then None
          else let (info, xingStereoOff, xingMonoOff) =
                 (if version = 3
                  then (noFrameInfo\<lparr>mi_bitrate := sliceBitrateV1 ! unat bitrateIdx,
                          mi_sampleRate := sliceSampleRateV1 ! unat sampleRateIdx,
                          mi_samplesPerFrame := 1152\<rparr>, 32 + 4, 17 + 4)
                  else (noFrameInfo\<lparr>mi_bitrate := sliceBitrateV2 ! unat bitrateIdx,
                          mi_sampleRate := (if version = 2 then sliceSampleRateV2 ! unat sampleRateIdx
                                            else sliceSampleRateV25 ! unat sampleRateIdx),
                          mi_samplesPerFrame := 576\<rparr>, 17 + 4, 9 + 4));
                channelMode = drop_bit 6 (chunk ! (i + 3)) AND 0x03
            in Some (info, if channelMode = 3 then xingMonoOff else xingStereoOff))"

text \<open>The frame count and the table of contents of a Xing or Info header at \<open>xingIdx\<close>.\<close>

definition withXing :: "bytes \<Rightarrow> nat \<Rightarrow> mp3FrameInfo \<Rightarrow> mp3FrameInfo" where
  "withXing chunk xingIdx info =
     (if xingIdx + 12 \<le> length chunk then
        let tag = strOf (take 4 (drop xingIdx chunk)) in
        if tag = ''Xing'' \<or> tag = ''Info'' then
          let flags = beNat (take 4 (drop (xingIdx + 4) chunk));
              frames = int (beNat (take 4 (drop (xingIdx + 8) chunk)));
              info1 = (if flags AND 0x01 \<noteq> 0
                then let counted = info\<lparr>mi_totalFrames := frames\<rparr> in
                  if mi_sampleRate info > 0
                  then counted\<lparr>mi_totalDuration := fdiv (fmul (floatOf frames)
                         (floatOf (mi_samplesPerFrame info))) (floatOf (mi_sampleRate info))\<rparr>
                  else counted
                else info);
              tocOff = xingIdx + 8 + (if flags AND 0x01 \<noteq> 0 then 4 else 0)
                         + (if flags AND 0x02 \<noteq> 0 then 4 else 0) in
          if flags AND 0x04 \<noteq> 0 \<and> tocOff + 100 \<le> length chunk
          then info1\<lparr>mi_toc := take 100 (drop tocOff chunk), mi_hasTOC := True\<rparr>
          else info1
        else info
      else info)"

definition withEstimate :: "mp3FrameInfo \<Rightarrow> mp3FrameInfo" where
  "withEstimate info =
     (if mi_totalDuration info = Finite 0 \<and> mi_bitrate info > 0
      then info\<lparr>mi_totalDuration := fdiv (fdiv (fmul (floatOf (mi_audioBytes info)) (floatOf 8))
             (floatOf (mi_bitrate info))) (floatOf 1000)\<rparr>
      else info)"

definition frameInfo :: "bytes \<Rightarrow> int \<Rightarrow> int \<Rightarrow> nat \<Rightarrow> mp3FrameInfo \<Rightarrow> nat \<Rightarrow> mp3FrameInfo" where
  "frameInfo chunk fileSize audioOffset i info xingOff =
     (let start = audioOffset + int i in
      withEstimate (withXing chunk (i + xingOff)
        (info\<lparr>mi_audioStart := start, mi_audioBytes := fileSize - start\<rparr>)))"

function infoSearch :: "bytes \<Rightarrow> int \<Rightarrow> int \<Rightarrow> nat \<Rightarrow> io_error + mp3FrameInfo" where
  "infoSearch chunk fileSize audioOffset i =
     (if int i < int (length chunk) - 4 then
        (case sliceFrameAt chunk i of
           None \<Rightarrow> infoSearch chunk fileSize audioOffset (Suc i)
         | Some (info, xingOff) \<Rightarrow> Inr (frameInfo chunk fileSize audioOffset i info xingOff))
      else Inl (OtherErr ''no valid MP3 frame sync found''))"
  by pat_completeness auto
termination
  by (relation "measure (\<lambda>(chunk, fs, ao, i). length chunk - i)") auto

declare infoSearch.simps [simp del]

definition parseMP3Info :: "bytes \<Rightarrow> int \<Rightarrow> io_error + mp3FrameInfo" where
  "parseMP3Info f fileSize =
     (case readFull 10 f of
        Inl e \<Rightarrow> Inl e
      | Inr header \<Rightarrow>
          (let audioOffset =
             (if header ! 0 = 73 \<and> header ! 1 = 68 \<and> header ! 2 = 51
              then (push_bit 21 (uint (header ! 6)) OR push_bit 14 (uint (header ! 7))
                    OR push_bit 7 (uint (header ! 8)) OR uint (header ! 9)) + 10
              else 0);
             chunkSize = min (sliceMaxSync + 256) (fileSize - audioOffset) in
           if chunkSize \<le> 4 then Inl UnexpectedEOF
           else case readAtLeast (nat chunkSize) 4 (drop (nat audioOffset) f) of
                  Inl e \<Rightarrow> Inl e
                | Inr chunk \<Rightarrow> infoSearch chunk fileSize audioOffset 0))"

text \<open>
  The interpolation in the table of contents. \<^const>\<open>None\<close> is the panic of an index out of
  range, as a fraction that is not a number would cause.
\<close>

definition tocLookup :: "bytes \<Rightarrow> int \<Rightarrow> float64 \<Rightarrow> int option" where
  "tocLookup toc audioBytes fraction =
     (if fle fraction (Finite 0) then Some 0
      else if fle (Finite 1) fraction then Some audioBytes
      else let idx = fmul fraction (floatOf 100); i = toInt64 idx in
        if i \<ge> 99
        then Some (toInt64 (fmul (fdiv (floatOf (uint (toc ! 99))) (floatOf 256)) (floatOf audioBytes)))
        else if i < 0 then None
        else let frac = fsub idx (floatOf i);
                 a = floatOf (uint (toc ! nat i));
                 b = floatOf (uint (toc ! nat (i + 1)));
                 pos = fdiv (fadd a (fmul frac (fsub b a))) (floatOf 256)
          in Some (toInt64 (fmul pos (floatOf audioBytes))))"

definition mp3End :: "mp3FrameInfo \<Rightarrow> float64 \<Rightarrow> float64 \<Rightarrow> float64" where
  "mp3End info startTime duration =
     (let endTime = fadd startTime duration in
      if fless (Finite 0) (mi_totalDuration info) \<and> fless (mi_totalDuration info) endTime
      then mi_totalDuration info else endTime)"

text \<open>The byte of the file at a time, by the table of contents or by the bitrate.\<close>

definition mp3ByteAt :: "mp3FrameInfo \<Rightarrow> float64 \<Rightarrow> int option" where
  "mp3ByteAt info t =
     (if mi_hasTOC info \<and> fless (Finite 0) (mi_totalDuration info)
      then map_option (\<lambda>off. mi_audioStart info + off)
             (tocLookup (mi_toc info) (mi_audioBytes info) (fdiv t (mi_totalDuration info)))
      else Some (mi_audioStart info
             + toInt64 (fmul t (fdiv (fmul (floatOf (mi_bitrate info)) (floatOf 1000)) (floatOf 8)))))"

definition sliceMP3 ::
  "responseWriter \<Rightarrow> bytes \<Rightarrow> int \<Rightarrow> string \<Rightarrow> float64 \<Rightarrow> float64 \<Rightarrow> (bool \<times> responseWriter) option" where
  "sliceMP3 w f fileSize contentType startTime duration =
     (case parseMP3Info f fileSize of
        Inl e \<Rightarrow> Some (False, w)
      | Inr info \<Rightarrow>
          (if mi_sampleRate info = 0 then Some (False, w)
           else let endTime = mp3End info startTime duration in
             if fle endTime startTime then Some (False, w)
             else if \<not> (mi_hasTOC info \<and> fless (Finite 0) (mi_totalDuration info))
                     \<and> \<not> mi_bitrate info > 0 then Some (False, w)
             else (case (mp3ByteAt info startTime, mp3ByteAt info endTime) of
                 (Some s, Some e) \<Rightarrow>
                   (let startByte = max s (mi_audioStart info); endByte = min e fileSize in
                    if startByte \<ge> endByte then Some (False, w)
                    else if startByte < 0 then Some (False, w)
                    else let len = endByte - startByte in
                      Some (True, writeBytes (fileRange f startByte len)
                                    (setLength len (setType contentType w))))
               | _ \<Rightarrow> None)))"

section \<open>FLAC\<close>

record flacSeekPoint =
  sp_sampleNumber :: "64 word"
  sp_byteOffset :: "64 word"
  sp_numSamples :: "16 word"

definition placeholderPoint :: "64 word" where
  "placeholderPoint = 0xFFFFFFFFFFFFFFFF"

fun floorFrom :: "64 word \<Rightarrow> flacSeekPoint list \<Rightarrow> 64 word \<Rightarrow> 64 word" where
  "floorFrom best [] targetSample = best"
| "floorFrom best (p # ps) targetSample =
     (if sp_sampleNumber p = placeholderPoint then floorFrom best ps targetSample
      else if sp_sampleNumber p \<le> targetSample then floorFrom (sp_byteOffset p) ps targetSample
      else best)"

definition seekPointFloor :: "flacSeekPoint list \<Rightarrow> 64 word \<Rightarrow> 64 word" where
  "seekPointFloor points targetSample = floorFrom 0 points targetSample"

fun seekPointCeil :: "flacSeekPoint list \<Rightarrow> 64 word \<Rightarrow> int \<Rightarrow> 64 word" where
  "seekPointCeil [] targetSample audioSize = word_of_int audioSize"
| "seekPointCeil (p # ps) targetSample audioSize =
     (if sp_sampleNumber p = placeholderPoint then seekPointCeil ps targetSample audioSize
      else if sp_sampleNumber p > targetSample then sp_byteOffset p
      else seekPointCeil ps targetSample audioSize)"

definition seekPointOf :: "bytes \<Rightarrow> flacSeekPoint" where
  "seekPointOf sp = \<lparr>sp_sampleNumber = of_nat (beNat (take 8 sp)),
     sp_byteOffset = of_nat (beNat (take 8 (drop 8 sp))),
     sp_numSamples = of_nat (beNat (take 2 (drop 16 sp)))\<rparr>"

text \<open>The entries of the seek table at \<open>off\<close>, each read whole; \<^const>\<open>None\<close> is a short read.\<close>

fun readSeekPoints :: "bytes \<Rightarrow> nat \<Rightarrow> nat \<Rightarrow> flacSeekPoint list option" where
  "readSeekPoints f off 0 = Some []"
| "readSeekPoints f off (Suc n) =
     (case readFull 18 (drop off f) of
        Inl e \<Rightarrow> None
      | Inr sp \<Rightarrow> map_option (\<lambda>ps. seekPointOf sp # ps) (readSeekPoints f (off + 18) n))"

record flacHeader =
  fh_streamInfo :: bytes
  fh_seekPoints :: "flacSeekPoint list"
  fh_found :: bool
  fh_audioStart :: int

definition noFlacHeader :: flacHeader where
  "noFlacHeader = \<lparr>fh_streamInfo = replicate 34 0, fh_seekPoints = [], fh_found = False,
     fh_audioStart = 0\<rparr>"

definition blockLenOf :: "bytes \<Rightarrow> nat" where
  "blockLenOf bh = nat (push_bit 16 (uint (bh ! 1)) OR push_bit 8 (uint (bh ! 2)) OR uint (bh ! 3))"

text \<open>
  The contents of one metadata block: the header gathered so far with the block's data, and the
  place where the file stands after it. A seek table whose length is no multiple of 18 leaves the
  file before the end of the block.
\<close>

definition flacBlock :: "bytes \<Rightarrow> nat \<Rightarrow> byte \<Rightarrow> nat \<Rightarrow> flacHeader \<Rightarrow> (flacHeader \<times> nat) option" where
  "flacBlock f off blockType blockLen h =
     (if blockType = 0 then
        (if blockLen \<noteq> 34 then None
         else case readFull 34 (drop off f) of
           Inl e \<Rightarrow> None
         | Inr si \<Rightarrow> Some (h\<lparr>fh_streamInfo := si, fh_found := True\<rparr>, off + 34))
      else if blockType = 3 then
        map_option (\<lambda>pts. (h\<lparr>fh_seekPoints := pts\<rparr>, off + 18 * (blockLen div 18)))
          (readSeekPoints f off (blockLen div 18))
      else Some (h, off + blockLen))"

text \<open>
  The loop over the blocks: \<open>off\<close> is where the file stands, \<open>pos\<close> the position the code
  counts.
\<close>

lemma flacBlock_off: "flacBlock f off t n h = Some (h', off') \<Longrightarrow> off \<le> off'"
  by (auto simp: flacBlock_def split: if_splits sum.splits)

function flacBlocks :: "bytes \<Rightarrow> nat \<Rightarrow> int \<Rightarrow> flacHeader \<Rightarrow> flacHeader option" where
  "flacBlocks f off pos h =
     (case readFull 4 (drop off f) of
        Inl e \<Rightarrow> None
      | Inr bh \<Rightarrow>
          (let isLast = (bh ! 0 AND 0x80 \<noteq> 0); blockType = bh ! 0 AND 0x7F;
               blockLen = blockLenOf bh in
           case flacBlock f (off + 4) blockType blockLen h of
             None \<Rightarrow> None
           | Some (h', off') \<Rightarrow>
               (let pos' = pos + 4 + int blockLen in
                if isLast then Some (h'\<lparr>fh_audioStart := pos'\<rparr>) else flacBlocks f off' pos' h')))"
  by pat_completeness auto
termination
  by (relation "measure (\<lambda>(f, off, pos, h). length f - off)")
    (auto simp: readFull_Inr dest!: flacBlock_off)

declare flacBlocks.simps [simp del]

definition parseFlacHeader :: "bytes \<Rightarrow> flacHeader option" where
  "parseFlacHeader f =
     (case readFull 4 f of
        Inl e \<Rightarrow> None
      | Inr marker \<Rightarrow>
          (if strOf marker \<noteq> ''fLaC'' then None
           else case flacBlocks f 4 4 noFlacHeader of
             None \<Rightarrow> None
           | Some h \<Rightarrow> if \<not> fh_found h \<or> fh_seekPoints h = [] then None else Some h))"

definition flacSampleRate :: "bytes \<Rightarrow> int" where
  "flacSampleRate si = push_bit 12 (uint (si ! 10)) OR push_bit 4 (uint (si ! 11))
     OR drop_bit 4 (uint (si ! 12))"

definition flacTotalSamples :: "bytes \<Rightarrow> int" where
  "flacTotalSamples si = push_bit 32 (uint (si ! 13 AND 0x0F)) OR push_bit 24 (uint (si ! 14))
     OR push_bit 16 (uint (si ! 15)) OR push_bit 8 (uint (si ! 16)) OR uint (si ! 17)"

definition flacMinimalHeader :: "bytes \<Rightarrow> bytes" where
  "flacMinimalHeader si = bytesOf ''fLaC'' @ [0x80, 0, 0, 34] @ si"

text \<open>\<open>absStart\<close> and \<open>absEnd\<close>: 64-bit sums of a position and an offset of the file's own.\<close>

definition absOffset :: "int \<Rightarrow> 64 word \<Rightarrow> int" where
  "absOffset audioDataStart off = sint (word_of_int audioDataStart + off)"

definition flacEnd :: "bytes \<Rightarrow> float64 \<Rightarrow> float64 \<Rightarrow> float64" where
  "flacEnd si startTime duration =
     (let totalDuration = fdiv (floatOf (flacTotalSamples si)) (floatOf (flacSampleRate si));
          endTime = fadd startTime duration
      in if fless totalDuration endTime then totalDuration else endTime)"

definition sliceFLAC ::
  "responseWriter \<Rightarrow> bytes \<Rightarrow> int \<Rightarrow> string \<Rightarrow> float64 \<Rightarrow> float64 \<Rightarrow> bool \<times> responseWriter" where
  "sliceFLAC w f fileSize contentType startTime duration =
     (case parseFlacHeader f of
        None \<Rightarrow> (False, w)
      | Some h \<Rightarrow>
          (let sampleRate = flacSampleRate (fh_streamInfo h) in
           if sampleRate = 0 then (False, w)
           else let endTime = flacEnd (fh_streamInfo h) startTime duration in
             if fle endTime startTime then (False, w)
             else let audioSize = fileSize - fh_audioStart h;
                      startSample = toUint64 (fmul startTime (floatOf sampleRate));
                      endSample = toUint64 (fmul endTime (floatOf sampleRate));
                      absStart = absOffset (fh_audioStart h) (seekPointFloor (fh_seekPoints h) startSample);
                      absEnd = min fileSize
                        (absOffset (fh_audioStart h) (seekPointCeil (fh_seekPoints h) endSample audioSize)) in
               if absStart \<ge> absEnd then (False, w)
               else let audioLen = absEnd - absStart;
                        w1 = writeBytes (flacMinimalHeader (fh_streamInfo h))
                               (setLength (4 + 4 + 34 + audioLen) (setType contentType w)) in
                 if absStart < 0 then (False, w1)
                 else (True, writeBytes (fileRange f absStart audioLen) w1)))"

section \<open>WAV\<close>

record wavHeader =
  wv_fmt :: bytes
  wv_dataOffset :: int
  wv_dataSize :: int
  wv_sampleRate :: int
  wv_blockAlign :: int

definition noWavHeader :: wavHeader where
  "noWavHeader = \<lparr>wv_fmt = [], wv_dataOffset = 0, wv_dataSize = 0, wv_sampleRate = 0,
     wv_blockAlign = 0\<rparr>"

text \<open>
  One chunk at \<open>pos\<close>; the format chunk has at least sixteen bytes, so an empty \<open>wv_fmt\<close> is the
  code's \<open>nil\<close>. \<^const>\<open>None\<close> is \<open>return false\<close>.
\<close>

definition wavChunk :: "bytes \<Rightarrow> int \<Rightarrow> string \<Rightarrow> int \<Rightarrow> wavHeader \<Rightarrow> wavHeader option" where
  "wavChunk f pos chunkID chunkSize h =
     (if chunkID = ''fmt '' then
        (if chunkSize < 16 \<or> chunkSize > 1024 then None
         else case readFull (nat chunkSize) (drop (nat pos + 8) f) of
           Inl e \<Rightarrow> None
         | Inr fmt \<Rightarrow> Some (h\<lparr>wv_fmt := fmt, wv_sampleRate := int (leNat (take 4 (drop 4 fmt))),
                              wv_blockAlign := int (leNat (take 2 (drop 12 fmt)))\<rparr>))
      else if chunkID = ''data'' then Some (h\<lparr>wv_dataOffset := pos + 8, wv_dataSize := chunkSize\<rparr>)
      else Some h)"

function wavChunks :: "bytes \<Rightarrow> int \<Rightarrow> int \<Rightarrow> wavHeader \<Rightarrow> wavHeader option" where
  "wavChunks f fileSize pos h =
     (if pos < fileSize - 8 then
        (if pos < 0 then Some h
         else case readFull 8 (drop (nat pos) f) of
           Inl e \<Rightarrow> Some h
         | Inr ch \<Rightarrow>
             (let chunkSize = int (leNat (take 4 (drop 4 ch))) in
              case wavChunk f pos (strOf (take 4 ch)) chunkSize h of
                None \<Rightarrow> None
              | Some h' \<Rightarrow>
                  (if wv_fmt h' \<noteq> [] \<and> wv_dataOffset h' > 0 then Some h'
                   else wavChunks f fileSize
                          (pos + 8 + chunkSize + (if chunkSize mod 2 \<noteq> 0 then 1 else 0)) h')))
      else Some h)"
  by pat_completeness auto
termination
  by (relation "measure (\<lambda>(f, fs, pos, h). nat (fs - pos))") auto

declare wavChunks.simps [simp del]

definition parseWavHeader :: "bytes \<Rightarrow> int \<Rightarrow> wavHeader option" where
  "parseWavHeader f fileSize =
     (case readFull 12 f of
        Inl e \<Rightarrow> None
      | Inr riff \<Rightarrow>
          (if strOf (take 4 riff) \<noteq> ''RIFF'' \<or> strOf (drop 8 riff) \<noteq> ''WAVE'' then None
           else case wavChunks f fileSize 12 noWavHeader of
             None \<Rightarrow> None
           | Some h \<Rightarrow>
               (if wv_sampleRate h = 0 \<or> wv_blockAlign h = 0 \<or> wv_dataSize h = 0 then None
                else Some h)))"

text \<open>\<open>binary.LittleEndian.PutUint32\<close> of the conversion to \<open>uint32\<close>.\<close>

definition putUint32 :: "int \<Rightarrow> bytes" where
  "putUint32 n = leBytes 4 (nat (n mod 2 ^ 32))"

definition wavPrefix :: "bytes \<Rightarrow> int \<Rightarrow> bytes" where
  "wavPrefix fmt sliceSize =
     (let fmtLen = int (length fmt); totalLen = 12 + 8 + fmtLen + 8 + sliceSize in
      bytesOf ''RIFF'' @ putUint32 (totalLen - 8) @ bytesOf ''WAVE''
      @ bytesOf ''fmt '' @ putUint32 fmtLen @ fmt
      @ bytesOf ''data'' @ putUint32 sliceSize)"

definition wavEnd :: "wavHeader \<Rightarrow> float64 \<Rightarrow> float64 \<Rightarrow> float64" where
  "wavEnd h startTime duration =
     (let totalDuration = fdiv (floatOf (wv_dataSize h)) (floatOf (wv_sampleRate h * wv_blockAlign h));
          endTime = fadd startTime duration
      in if fless totalDuration endTime then totalDuration else endTime)"

definition wavByteAt :: "wavHeader \<Rightarrow> float64 \<Rightarrow> int" where
  "wavByteAt h t = toInt64 (fmul t (floatOf (wv_sampleRate h))) * wv_blockAlign h"

definition sliceWAV ::
  "responseWriter \<Rightarrow> bytes \<Rightarrow> int \<Rightarrow> string \<Rightarrow> float64 \<Rightarrow> float64 \<Rightarrow> bool \<times> responseWriter" where
  "sliceWAV w f fileSize contentType startTime duration =
     (case parseWavHeader f fileSize of
        None \<Rightarrow> (False, w)
      | Some h \<Rightarrow>
          (let endTime = wavEnd h startTime duration in
           if fle endTime startTime then (False, w)
           else let startByte = wavByteAt h startTime;
                    endByte = min (wavByteAt h endTime) (wv_dataSize h);
                    sliceSize = endByte - startByte in
             if sliceSize \<le> 0 then (False, w)
             else let w1 = writeBytes (wavPrefix (wv_fmt h) sliceSize)
                        (setLength (12 + 8 + int (length (wv_fmt h)) + 8 + sliceSize)
                          (setType contentType w)) in
               if wv_dataOffset h + startByte < 0 then (False, w1)
               else (True, writeBytes (fileRange f (wv_dataOffset h + startByte) sliceSize) w1)))"

end
