(* ===== verification/Slice_Facts.thy ===== *)
theory Slice_Facts
  imports Slice
begin

unbundle bit_operations_syntax

text \<open>
  What the slicers promise: the frame search agrees with the scanner's, no slicer leaves the file
  or panics, the slices of consecutive time ranges meet, a WAV slice reads back as the WAV file of
  the same format that holds a block-aligned part of the samples, and a FLAC slice is bounded by
  seek points around the range.
\<close>

lemmas writer_defs = emptyWriter_def setType_def setLength_def writeBytes_def

lemma readAtLeast_Inr: "readAtLeast k l r = Inr bs \<longleftrightarrow> bs = take k r \<and> l \<le> length bs"
  by (auto simp: readAtLeast_def)

lemma readAtLeast_if: "readAtLeast k l r = (if l \<le> length (take k r) then Inr (take k r)
    else Inl (if r = [] then EOF else UnexpectedEOF))"
  by (simp add: readAtLeast_def)

lemma readFull_if: "readFull k r = (if k \<le> length r then Inr (take k r)
    else Inl (if r = [] then EOF else UnexpectedEOF))"
  by (simp add: readFull_def readAtLeast_if)

lemma length_fileRange:
  "0 \<le> off \<Longrightarrow> 0 \<le> n \<Longrightarrow> off + n \<le> int (length f) \<Longrightarrow> int (length (fileRange f off n)) = n"
  by (simp add: fileRange_def)

text \<open>Two ranges that meet are one range.\<close>

lemma fileRange_append:
  assumes "0 \<le> s" "s \<le> m" "m \<le> e"
  shows "fileRange f s (m - s) @ fileRange f m (e - m) = fileRange f s (e - s)"
proof -
  have "nat (e - s) = nat (m - s) + nat (e - m)" "nat m = nat (m - s) + nat s" using assms by auto
  then show ?thesis by (simp add: fileRange_def take_add)
qed

section \<open>The frame search agrees with the scanner's\<close>

lemma slice_tables:
  "sliceBitrateV1 = mp3BitrateTableV1" "sliceBitrateV2 = mp3BitrateTableV2"
  "sliceSampleRateV1 = mp3SampleRateTableV1" "sliceSampleRateV2 = mp3SampleRateTableV2"
  "sliceSampleRateV25 = mp3SampleRateTableV25"
  by (simp_all add: sliceBitrateV1_def mp3BitrateTableV1_def sliceBitrateV2_def mp3BitrateTableV2_def
      sliceSampleRateV1_def mp3SampleRateTableV1_def sliceSampleRateV2_def mp3SampleRateTableV2_def
      sliceSampleRateV25_def mp3SampleRateTableV25_def)

definition infoOfFrame :: "mp3Frame \<Rightarrow> mp3FrameInfo" where
  "infoOfFrame fr = noFrameInfo\<lparr>mi_bitrate := mf_bitrate fr, mi_sampleRate := mf_sampleRate fr,
     mi_samplesPerFrame := mf_samplesPerFrame fr\<rparr>"

lemma sliceFrameAt_agrees:
  "sliceFrameAt chunk i = map_option (\<lambda>fr. (infoOfFrame fr, mf_xingOff fr)) (mp3FrameAt chunk i)"
  by (simp add: sliceFrameAt_def mp3FrameAt_def Let_def slice_tables infoOfFrame_def)

lemma infoSearch_agrees:
  "case infoSearch chunk n off i of
     Inl e \<Rightarrow> \<exists>e'. mp3Search chunk n off i = Inl e'
   | Inr info \<Rightarrow> \<exists>fr k. mp3FrameAt chunk k = Some fr \<and> i \<le> k \<and> k + 4 < length chunk
       \<and> info = frameInfo chunk n off k (infoOfFrame fr) (mf_xingOff fr)
       \<and> mp3Search chunk n off i = Inr (mp3Result chunk n off k fr)"
proof (induction chunk n off i rule: infoSearch.induct)
  case (1 chunk n off i)
  note step = infoSearch.simps [of chunk n off i] mp3Search.simps [of chunk n off i]
  show ?case
  proof (cases "int i < int (length chunk) - 4")
    case False
    then show ?thesis by (simp add: step)
  next
    case bound: True
    show ?thesis
    proof (cases "mp3FrameAt chunk i")
      case None
      with 1 [OF bound] bound show ?thesis
        by (auto simp: step sliceFrameAt_agrees split: sum.splits dest: Suc_leD)
    next
      case (Some fr)
      with bound show ?thesis
        by (auto simp: step sliceFrameAt_agrees intro!: exI [of _ fr] exI [of _ i])
    qed
  qed
qed

lemma withXing_simps [simp]:
  "mi_bitrate (withXing c x i) = mi_bitrate i" "mi_sampleRate (withXing c x i) = mi_sampleRate i"
  "mi_samplesPerFrame (withXing c x i) = mi_samplesPerFrame i"
  "mi_audioStart (withXing c x i) = mi_audioStart i" "mi_audioBytes (withXing c x i) = mi_audioBytes i"
  by (simp_all add: withXing_def Let_def)

lemma withEstimate_simps [simp]:
  "mi_bitrate (withEstimate i) = mi_bitrate i" "mi_sampleRate (withEstimate i) = mi_sampleRate i"
  "mi_samplesPerFrame (withEstimate i) = mi_samplesPerFrame i" "mi_hasTOC (withEstimate i) = mi_hasTOC i"
  "mi_audioStart (withEstimate i) = mi_audioStart i" "mi_audioBytes (withEstimate i) = mi_audioBytes i"
  by (simp_all add: withEstimate_def)

lemma frameInfo_simps [simp]:
  "mi_bitrate (frameInfo c n off k i x) = mi_bitrate i"
  "mi_sampleRate (frameInfo c n off k i x) = mi_sampleRate i"
  "mi_samplesPerFrame (frameInfo c n off k i x) = mi_samplesPerFrame i"
  "mi_audioStart (frameInfo c n off k i x) = off + int k"
  "mi_audioBytes (frameInfo c n off k i x) = n - (off + int k)"
  by (simp_all add: frameInfo_def Let_def)

lemma infoOfFrame_simps [simp]:
  "mi_bitrate (infoOfFrame fr) = mf_bitrate fr" "mi_sampleRate (infoOfFrame fr) = mf_sampleRate fr"
  "mi_samplesPerFrame (infoOfFrame fr) = mf_samplesPerFrame fr"
  by (simp_all add: infoOfFrame_def)

definition tagEnd :: "bytes \<Rightarrow> int" where
  "tagEnd header = (if header ! 0 = 73 \<and> header ! 1 = 68 \<and> header ! 2 = 51
     then (push_bit 21 (uint (header ! 6)) OR push_bit 14 (uint (header ! 7))
           OR push_bit 7 (uint (header ! 8)) OR uint (header ! 9)) + 10 else 0)"

lemma tagEnd_ge_0: "0 \<le> tagEnd header"
  by (simp add: tagEnd_def)

lemma mp3AudioStart_0:
  "mp3AudioStart f 0 = (case readFull 10 f of Inl e \<Rightarrow> Inl e | Inr header \<Rightarrow> Inr (tagEnd header))"
  by (simp add: readFull_if mp3AudioStart_def tagEnd_def)

lemma slice_chunkSize: "min (sliceMaxSync + 256) (n - off) = mp3ChunkSize n off"
  by (simp add: mp3ChunkSize_def sliceMaxSync_def maxSyncSearchBytes_def)

lemma parseMP3Info_eq:
  "parseMP3Info f n =
     (case mp3AudioStart f 0 of
        Inl e \<Rightarrow> Inl e
      | Inr off \<Rightarrow>
          (if mp3ChunkSize n off \<le> 4 then Inl UnexpectedEOF
           else case readAtLeast (nat (mp3ChunkSize n off)) 4 (drop (nat off) f) of
                  Inl e \<Rightarrow> Inl e
                | Inr chunk \<Rightarrow> infoSearch chunk n off 0))"
  unfolding parseMP3Info_def tagEnd_def [symmetric] mp3AudioStart_0 slice_chunkSize
  by (simp add: readFull_if Let_def)

lemma mp3AudioStart_ge_0: "mp3AudioStart f 0 = Inr off \<Longrightarrow> 0 \<le> off"
  by (auto simp: mp3AudioStart_0 tagEnd_ge_0 split: sum.splits)

lemma parseMP3Info_agrees_facts:
  "case parseMP3Info f n of
     Inl e \<Rightarrow> \<exists>e'. parseMP3Duration f n 0 = Inl e'
   | Inr info \<Rightarrow> \<exists>off chunk k fr. mp3AudioStart f 0 = Inr off \<and> mp3FrameAt chunk k = Some fr
       \<and> chunk = take (nat (mp3ChunkSize n off)) (drop (nat off) f) \<and> k + 4 < length chunk
       \<and> info = frameInfo chunk n off k (infoOfFrame fr) (mf_xingOff fr)
       \<and> parseMP3Duration f n 0 = Inr (mp3Result chunk n off k fr)"
proof (cases "mp3AudioStart f 0")
  case (Inl e)
  then show ?thesis by (simp add: parseMP3Info_eq parseMP3Duration_def)
next
  case (Inr off)
  define r where "r = readAtLeast (nat (mp3ChunkSize n off)) 4 (drop (nat off) f)"
  have pos: "\<not> off < 0" using mp3AudioStart_ge_0 [OF Inr] by simp
  show ?thesis
  proof (cases "mp3ChunkSize n off \<le> 4")
    case True
    with Inr pos show ?thesis by (simp add: parseMP3Info_eq parseMP3Duration_def)
  next
    case size: False
    show ?thesis
    proof (cases r)
      case (Inl e)
      with Inr pos size show ?thesis by (simp add: parseMP3Info_eq parseMP3Duration_def r_def)
    next
      case chunk: (Inr chunk)
      have eqs: "parseMP3Info f n = infoSearch chunk n off 0" "parseMP3Duration f n 0 = mp3Search chunk n off 0"
        using Inr pos size chunk by (simp_all add: parseMP3Info_eq parseMP3Duration_def r_def)
      have "chunk = take (nat (mp3ChunkSize n off)) (drop (nat off) f)"
        using chunk by (simp add: r_def readAtLeast_Inr)
      then show ?thesis unfolding eqs Inr using infoSearch_agrees [of chunk n off 0]
        by (cases "infoSearch chunk n off 0") (simp_all, blast)
    qed
  qed
qed

text \<open>
  Claim C37. The slicer and the scanner read the same frame of an MP3 file: the slicer finds a frame
  exactly when the duration parser does, at the same place, with the same bitrate, sample rate and
  frame length, so the two copies of the search and its tables agree.
\<close>

theorem parseMP3Info_agrees:
  "case parseMP3Info f n of
     Inl e \<Rightarrow> \<exists>e'. parseMP3Duration f n 0 = Inl e'
   | Inr info \<Rightarrow> \<exists>off chunk k fr. mp3AudioStart f 0 = Inr off \<and> mp3FrameAt chunk k = Some fr
       \<and> chunk = take (nat (mp3ChunkSize n off)) (drop (nat off) f) \<and> k + 4 < length chunk
       \<and> mi_audioStart info = off + int k \<and> mi_bitrate info = mf_bitrate fr
       \<and> mi_sampleRate info = mf_sampleRate fr \<and> mi_samplesPerFrame info = mf_samplesPerFrame fr
       \<and> parseMP3Duration f n 0 = Inr (mp3Result chunk n off k fr)"
proof (cases "parseMP3Info f n")
  case (Inl e)
  then show ?thesis using parseMP3Info_agrees_facts [of f n] by simp
next
  case (Inr info)
  then obtain off chunk k fr where "mp3AudioStart f 0 = Inr off" "mp3FrameAt chunk k = Some fr"
    "chunk = take (nat (mp3ChunkSize n off)) (drop (nat off) f)" "k + 4 < length chunk"
    "info = frameInfo chunk n off k (infoOfFrame fr) (mf_xingOff fr)"
    "parseMP3Duration f n 0 = Inr (mp3Result chunk n off k fr)"
    using parseMP3Info_agrees_facts [of f n] by auto
  then show ?thesis unfolding Inr
    by (intro sum.case(2) [THEN iffD2] exI [of _ off] exI [of _ chunk] exI [of _ k] exI [of _ fr]) simp
qed

section \<open>MP3\<close>

lemma beNat_4: "beNat (take 4 bs) < 2 ^ 32"
proof -
  have "(256 :: nat) ^ length (take 4 bs) \<le> 256 ^ 4" by (intro power_increasing) simp_all
  with beNat_bound [of "take 4 bs"] show ?thesis by simp
qed

lemma totalDuration_finite:
  assumes "parseMP3Info f n = Inr info" "n \<le> 2 ^ 60"
  shows "\<exists>T. mi_totalDuration info = Finite T \<and> 0 \<le> T"
proof -
  obtain off chunk k fr where fr: "mp3AudioStart f 0 = Inr off" "mp3FrameAt chunk k = Some fr"
    "chunk = take (nat (mp3ChunkSize n off)) (drop (nat off) f)" "k + 4 < length chunk"
    "info = frameInfo chunk n off k (infoOfFrame fr) (mf_xingOff fr)"
    using assms(1) parseMP3Info_agrees_facts [of f n] by auto
  have ok: "mp3FrameOK fr" using mp3FrameAt_ok [OF fr(2)] .
  have "k + 4 < nat (mp3ChunkSize n off)" using fr(4) unfolding fr(3) by simp
  then have "int k + 4 < mp3ChunkSize n off" by linarith
  then have start: "off + int k < n" by (simp add: mp3ChunkSize_def)
  have start0: "0 \<le> off + int k" using mp3AudioStart_ge_0 [OF fr(1)] by simp
  have exact: "floatOf (mf_sampleRate fr) = Finite (of_int (mf_sampleRate fr))"
    "floatOf (mf_bitrate fr) = Finite (of_int (mf_bitrate fr))" "floatOf 1000 = Finite 1000"
    using ok floatOf_exact [of 1000] by (simp_all add: mp3FrameOK_def floatOf_exact)
  define i0 where "i0 = infoOfFrame fr\<lparr>mi_audioStart := off + int k, mi_audioBytes := n - (off + int k)\<rparr>"
  define i1 where "i1 = withXing chunk (k + mf_xingOff fr) i0"
  have "capped 43 (fdiv (fmul (floatOf (int (beNat (take 4 bs)))) (floatOf (mf_samplesPerFrame fr)))
      (floatOf (mf_sampleRate fr)))" for bs
  proof (rule capped_divide [OF _ exact(1)])
    have "capped 32 (floatOf (int (beNat (take 4 bs))))"
      using capped_floatOf [of "int (beNat (take 4 bs))" 32] beNat_4 [of bs] by simp
    moreover have "capped 11 (floatOf (mf_samplesPerFrame fr))"
      using capped_floatOf [of "mf_samplesPerFrame fr" 11] ok by (auto simp: mp3FrameOK_def)
    ultimately show "capped 43 (fmul (floatOf (int (beNat (take 4 bs)))) (floatOf (mf_samplesPerFrame fr)))"
      using capped_mult [of 32 _ 11] by simp
  qed (use ok in \<open>simp_all add: mp3FrameOK_def\<close>)
  then have "capped 43 (mi_totalDuration i1)"
    by (simp add: i1_def i0_def withXing_def Let_def capped_def infoOfFrame_def noFrameInfo_def
        order_less_imp_le)
  moreover have "capped 63 (fdiv (fdiv (fmul (floatOf (mi_audioBytes i1)) (floatOf 8))
      (floatOf (mi_bitrate i1))) (floatOf 1000))"
  proof -
    have "capped 63 (fmul (floatOf (mi_audioBytes i1)) (floatOf 8))"
      using capped_floatOf [of "mi_audioBytes i1" 60] capped_floatOf [of 8 3] start start0 assms(2)
        capped_mult [of 60 _ 3] by (simp add: i1_def i0_def)
    moreover have "mi_bitrate i1 = mf_bitrate fr" by (simp add: i1_def i0_def)
    moreover have "(1 :: rat) \<le> of_int (mf_bitrate fr)" using ok by (simp add: mp3FrameOK_def)
    ultimately have "capped 63 (fdiv (fmul (floatOf (mi_audioBytes i1)) (floatOf 8)) (floatOf (mi_bitrate i1)))"
      using capped_divide [OF _ exact(2)] by simp
    then show ?thesis by (intro capped_divide [OF _ exact(3)]) simp_all
  qed
  ultimately have "capped 63 (mi_totalDuration (withEstimate i1))"
    by (auto simp: withEstimate_def elim: capped_mono)
  then show ?thesis using fr(5) cappedD
    by (auto simp: frameInfo_def Let_def i1_def i0_def dest: cappedD)
qed

lemma tocLookup_Some:
  assumes "fraction \<noteq> NaN"
  shows "\<exists>off. tocLookup toc n fraction = Some off"
proof (cases "fle fraction (Finite 0) \<or> fle (Finite 1) fraction")
  case True
  then show ?thesis by (auto simp: tocLookup_def)
next
  case False
  with assms obtain q where q: "fraction = Finite q" "0 < q" "q < 1"
    by (cases fraction) auto
  then have "capped 0 fraction" by (simp add: capped_def pow2_def)
  moreover have "capped 7 (floatOf 100)" using capped_floatOf [of 100 7] by simp
  ultimately have "capped 7 (fmul fraction (floatOf 100))" using capped_mult [of 0 _ 7] by simp
  then have "0 \<le> toInt64 (fmul fraction (floatOf 100))" using capped_toInt64 [of 7] by simp
  with False show ?thesis by (auto simp: tocLookup_def Let_def)
qed

lemma mp3ByteAt_Some:
  assumes "t \<noteq> NaN" "mi_totalDuration info = Finite T"
  shows "\<exists>b. mp3ByteAt info t = Some b"
proof (cases "0 < T")
  case True
  then show ?thesis using assms tocLookup_Some [OF fdiv_not_NaN [OF assms(1) True]]
    by (auto simp: mp3ByteAt_def)
next
  case False
  then show ?thesis using assms by (auto simp: mp3ByteAt_def)
qed

lemma mp3End_not_NaN:
  "fle (Finite 0) s \<Longrightarrow> fless (Finite 0) d \<Longrightarrow> mp3End info s d \<noteq> NaN"
  using fadd_not_NaN [of s d] fless_not_NaN by (auto simp: mp3End_def Let_def)

text \<open>The outcomes of the MP3 slicer: none, or the bytes from \<open>a\<close> to \<open>b\<close>.\<close>

definition mp3Cut :: "bytes \<Rightarrow> int \<Rightarrow> float64 \<Rightarrow> float64 \<Rightarrow> mp3FrameInfo \<Rightarrow> int \<Rightarrow> int \<Rightarrow> bool" where
  "mp3Cut f n s d info a b \<longleftrightarrow>
     parseMP3Info f n = Inr info \<and> 0 \<le> mi_audioStart info \<and> mi_audioStart info \<le> a \<and> a < b \<and> b \<le> n
     \<and> (\<exists>x y. mp3ByteAt info s = Some x \<and> mp3ByteAt info (mp3End info s d) = Some y
          \<and> a = max x (mi_audioStart info) \<and> b = min y n)
     \<and> fless s (mp3End info s d)"

lemma sliceMP3_cases:
  assumes "n = int (length f)" "n \<le> 2 ^ 60" "fle (Finite 0) s" "fless (Finite 0) d"
  shows "sliceMP3 w f n ct s d = Some (False, w) \<or>
    (\<exists>info a b. mp3Cut f n s d info a b \<and> sliceMP3 w f n ct s d
       = Some (True, writeBytes (fileRange f a (b - a)) (setLength (b - a) (setType ct w))))"
proof (cases "parseMP3Info f n")
  case (Inl e)
  then show ?thesis by (simp add: sliceMP3_def)
next
  case (Inr info)
  let ?e = "mp3End info s d"
  obtain T where T: "mi_totalDuration info = Finite T" using totalDuration_finite [OF Inr assms(2)] by blast
  have e: "?e \<noteq> NaN" using mp3End_not_NaN [OF assms(3,4)] .
  have s: "s \<noteq> NaN" using assms(3) by (cases s) auto
  obtain x y where xy: "mp3ByteAt info s = Some x" "mp3ByteAt info ?e = Some y"
    using mp3ByteAt_Some [OF s T] mp3ByteAt_Some [OF e T] by blast
  have start: "0 \<le> mi_audioStart info"
  proof -
    have "\<exists>off k. mp3AudioStart f 0 = Inr off \<and> mi_audioStart info = off + int k"
      using Inr parseMP3Info_agrees_facts [of f n] by auto
    then show ?thesis using mp3AudioStart_ge_0 by fastforce
  qed
  let ?a = "max x (mi_audioStart info)" and ?b = "min y n"
  show ?thesis
  proof (cases "mi_sampleRate info = 0 \<or> fle ?e s
      \<or> \<not> (mi_hasTOC info \<and> fless (Finite 0) (mi_totalDuration info)) \<and> \<not> mi_bitrate info > 0 \<or> ?b \<le> ?a")
    case True
    then have "sliceMP3 w f n ct s d = Some (False, w)"
      using Inr xy start by (auto simp: sliceMP3_def Let_def)
    then show ?thesis ..
  next
    case False
    then have "sliceMP3 w f n ct s d
        = Some (True, writeBytes (fileRange f ?a (?b - ?a)) (setLength (?b - ?a) (setType ct w)))"
      using Inr xy start by (simp add: sliceMP3_def Let_def)
    moreover have "fless s ?e" using False not_fle [OF e s] by simp
    moreover have "mp3Cut f n s d info ?a ?b" unfolding mp3Cut_def
      using calculation(2) Inr xy start False by (intro conjI exI [of _ x] exI [of _ y]) linarith+
    ultimately show ?thesis by blast
  qed
qed

definition mp3Slice :: "bytes \<Rightarrow> string \<Rightarrow> float64 \<Rightarrow> float64 \<Rightarrow> (bool \<times> responseWriter) option" where
  "mp3Slice f ct s d = sliceMP3 emptyWriter f (int (length f)) ct s d"

lemma sliceMP3_sound_facts:
  assumes "length f \<le> 2 ^ 60" "fle (Finite 0) s" "fless (Finite 0) d"
  shows "mp3Slice f ct s d = Some (False, emptyWriter) \<or>
    (\<exists>info a b. parseMP3Info f (int (length f)) = Inr info
       \<and> 0 \<le> mi_audioStart info \<and> mi_audioStart info \<le> a \<and> a < b \<and> b \<le> int (length f)
       \<and> mp3Slice f ct s d = Some (True, \<lparr>rw_type = ct, rw_length = Some (b - a),
            rw_body = take (nat (b - a)) (drop (nat a) f)\<rparr>)
       \<and> int (length (take (nat (b - a)) (drop (nat a) f))) = b - a)"
proof -
  have size: "int (length f) \<le> 2 ^ 60" using assms(1) by (metis of_nat_le_iff of_nat_numeral of_nat_power)
  from sliceMP3_cases [OF refl size assms(2,3), of emptyWriter ct] show ?thesis
  proof (elim disjE exE conjE)
    fix info a b assume *: "mp3Cut f (int (length f)) s d info a b"
      "sliceMP3 emptyWriter f (int (length f)) ct s d
         = Some (True, writeBytes (fileRange f a (b - a)) (setLength (b - a) (setType ct emptyWriter)))"
    then have "mp3Slice f ct s d = Some (True, \<lparr>rw_type = ct, rw_length = Some (b - a),
        rw_body = take (nat (b - a)) (drop (nat a) f)\<rparr>)"
      by (simp add: mp3Slice_def writer_defs fileRange_def)
    moreover have "int (length (take (nat (b - a)) (drop (nat a) f))) = b - a"
      using *(1) length_fileRange [of a "b - a" f] unfolding mp3Cut_def fileRange_def by linarith
    ultimately show ?thesis using *(1) unfolding mp3Cut_def by blast
  qed (simp add: mp3Slice_def)
qed

text \<open>
  Claim C24. Slicing an MP3 file never indexes out of range: for every file below \<open>2 ^ 60\<close> bytes and
  every time range the handler lets through, the slicer either leaves the response untouched, for
  the full file to be served, or answers with a contiguous, non-empty part of the file between the
  first frame and the end of the file, announced with exactly its length and the song's type.
\<close>

theorem sliceMP3_sound:
  assumes "length f \<le> 2 ^ 60" "fle (Finite 0) s" "fless (Finite 0) d"
  shows "mp3Slice f ct s d = Some (False, emptyWriter) \<or>
    (\<exists>info a b. parseMP3Info f (int (length f)) = Inr info
       \<and> 0 \<le> mi_audioStart info \<and> mi_audioStart info \<le> a \<and> a < b \<and> b \<le> int (length f)
       \<and> mp3Slice f ct s d = Some (True, \<lparr>rw_type = ct, rw_length = Some (b - a),
            rw_body = take (nat (b - a)) (drop (nat a) f)\<rparr>)
       \<and> int (length (take (nat (b - a)) (drop (nat a) f))) = b - a)"
  using sliceMP3_sound_facts [OF assms] .

text \<open>A time before the clipped end of a second range is not itself clipped.\<close>

lemma clip_meets:
  assumes "fless t (if P \<and> fless T u then T else u)"
  shows "\<not> (P \<and> fless T t)"
proof
  assume *: "P \<and> fless T t"
  show False
  proof (cases "fless T u")
    case True
    then have "fless t T" using assms * by simp
    then show False using * fless_trans fless_irrefl by blast
  next
    case False
    then have "fless t u" using assms by simp
    then show False using * False fless_trans by blast
  qed
qed

lemma mp3End_meets:
  "fless (fadd s d) (mp3End info (fadd s d) d') \<Longrightarrow> mp3End info s d = fadd s d"
  unfolding mp3End_def Let_def by (drule clip_meets) presburger

lemma fadd_ge_0: "fle (Finite 0) s \<Longrightarrow> fless (Finite 0) d \<Longrightarrow> fle (Finite 0) (fadd s d)"
proof (cases s; cases d)
  fix x y assume *: "fle (Finite 0) s" "fless (Finite 0) d" "s = Finite x" "d = Finite y"
  then have "0 < x + y" by auto
  then have "0 \<le> roundHalfEven (\<bar>x + y\<bar> / pow2 e)" for e
    by (intro roundHalfEven_nonneg) (simp add: order_less_imp_le)
  then have "(0 :: rat) \<le> of_int (roundHalfEven (\<bar>x + y\<bar> / pow2 e)) * pow2 e" for e
    by (simp add: order_less_imp_le)
  with \<open>0 < x + y\<close> * show ?thesis by (auto simp: roundDouble_def Let_def order_le_less)
qed simp_all

lemma sliceMP3_meets:
  assumes size: "int (length f) \<le> 2 ^ 60" and s: "fle (Finite 0) s" "fless (Finite 0) d" "fless (Finite 0) d'"
    and t: "fle (Finite 0) (fadd s d)"
    and one: "mp3Slice f ct s d = Some (True, w1)" and two: "mp3Slice f ct (fadd s d) d' = Some (True, w2)"
  shows "\<exists>a m b. 0 \<le> a \<and> a < m \<and> m < b \<and> b \<le> int (length f) \<and> rw_body w1 = fileRange f a (m - a)
     \<and> rw_body w2 = fileRange f m (b - m) \<and> rw_body w1 @ rw_body w2 = fileRange f a (b - a)"
proof -
  obtain info a b where first: "mp3Cut f (int (length f)) s d info a b" "rw_body w1 = fileRange f a (b - a)"
    using sliceMP3_cases [OF refl size s(1,2), of emptyWriter ct] one by (auto simp: mp3Slice_def writer_defs)
  obtain info' m c where second: "mp3Cut f (int (length f)) (fadd s d) d' info' m c" "rw_body w2 = fileRange f m (c - m)"
    using sliceMP3_cases [OF refl size t s(3), of emptyWriter ct] two by (auto simp: mp3Slice_def writer_defs)
  have info: "info' = info" using first(1) second(1) by (simp add: mp3Cut_def)
  have "mp3End info s d = fadd s d" using mp3End_meets second(1) info by (auto simp: mp3Cut_def)
  then have "m = b" using first(1) second(1) info by (auto simp: mp3Cut_def)
  then show ?thesis using first second fileRange_append [of a b c f]
    by (intro exI [of _ a] exI [of _ b] exI [of _ c]) (simp add: mp3Cut_def)
qed

section \<open>WAV\<close>

text \<open>What the header loop guarantees of the header it returns.\<close>

definition wavOK :: "wavHeader \<Rightarrow> bool" where
  "wavOK h \<longleftrightarrow> 0 \<le> wv_dataOffset h \<and> 0 \<le> wv_dataSize h \<and> wv_dataSize h < 2 ^ 32
     \<and> 0 \<le> wv_sampleRate h \<and> wv_sampleRate h < 2 ^ 32 \<and> 0 \<le> wv_blockAlign h \<and> wv_blockAlign h < 2 ^ 16
     \<and> length (wv_fmt h) \<le> 1024
     \<and> (wv_fmt h = [] \<longrightarrow> wv_sampleRate h = 0 \<and> wv_blockAlign h = 0)
     \<and> (wv_fmt h \<noteq> [] \<longrightarrow> 16 \<le> length (wv_fmt h)
          \<and> wv_sampleRate h = int (leNat (take 4 (drop 4 (wv_fmt h))))
          \<and> wv_blockAlign h = int (leNat (take 2 (drop 12 (wv_fmt h)))))"

lemma wavOK_bounds:
  assumes "wavOK h"
  shows "0 \<le> wv_dataOffset h" "0 \<le> wv_dataSize h" "wv_dataSize h \<le> 2 ^ 32" "wv_dataSize h < 2 ^ 53"
    "wv_sampleRate h < 2 ^ 32" "wv_sampleRate h \<le> 2 ^ 32" "wv_blockAlign h \<le> 2 ^ 16"
proof -
  have "wv_dataSize h < 2 ^ 32 \<and> wv_sampleRate h < 2 ^ 32 \<and> wv_blockAlign h < 2 ^ 16"
    using assms unfolding wavOK_def by blast
  then show "wv_dataSize h \<le> 2 ^ 32" "wv_dataSize h < 2 ^ 53" "wv_sampleRate h < 2 ^ 32"
    "wv_sampleRate h \<le> 2 ^ 32" "wv_blockAlign h \<le> 2 ^ 16" by auto
  show "0 \<le> wv_dataOffset h" "0 \<le> wv_dataSize h" using assms unfolding wavOK_def by blast+
qed

lemma leNat_bound: "leNat bs < 256 ^ length bs"
  unfolding leNat_def using beNat_bound [of "rev bs"] by simp

lemma leNat_take: "leNat (take k bs) < 256 ^ k"
proof -
  have "(256 :: nat) ^ length (take k bs) \<le> 256 ^ k" by (intro power_increasing) simp_all
  with leNat_bound [of "take k bs"] show ?thesis by linarith
qed

lemma wavChunk_ok:
  assumes "wavOK h" "wavChunk f pos cid sz h = Some h'" "0 \<le> pos" "0 \<le> sz" "sz < 2 ^ 32"
  shows "wavOK h'"
proof (cases "cid = ''fmt ''")
  case True
  with assms(2) obtain fmt where fmt: "readFull (nat sz) (drop (nat pos + 8) f) = Inr fmt" "16 \<le> sz" "sz \<le> 1024"
    and h': "h' = h\<lparr>wv_fmt := fmt, wv_sampleRate := int (leNat (take 4 (drop 4 fmt))),
                 wv_blockAlign := int (leNat (take 2 (drop 12 fmt)))\<rparr>"
    by (auto simp: wavChunk_def split: if_splits sum.splits)
  have "16 \<le> length fmt" "length fmt \<le> 1024" using fmt by (auto simp: readFull_Inr)
  moreover have "fmt \<noteq> []" using calculation(1) by auto
  ultimately show ?thesis
    using assms(1) leNat_take [of 4 "drop 4 fmt"] leNat_take [of 2 "drop 12 fmt"] by (simp add: wavOK_def h')
next
  case False
  with assms show ?thesis by (auto simp: wavChunk_def wavOK_def split: if_splits)
qed

lemma wavChunks_ok:
  assumes "wavOK h" "wavChunks f n pos h = Some h'"
  shows "wavOK h'"
  using assms
proof (induction f n pos h rule: wavChunks.induct)
  case (1 f n pos h)
  note step = wavChunks.simps [of f n pos h]
  show ?case
  proof (cases "pos < n - 8 \<and> \<not> pos < 0 \<and> (\<exists>ch. readFull 8 (drop (nat pos) f) = Inr ch)")
    case False
    with 1(2,3) show ?thesis by (auto simp: step split: if_splits sum.splits)
  next
    case True
    then obtain ch where ch: "readFull 8 (drop (nat pos) f) = Inr ch" and pos: "pos < n - 8" "\<not> pos < 0" by blast
    let ?sz = "int (leNat (take 4 (drop 4 ch)))"
    obtain h1 where h1: "wavChunk f pos (strOf (take 4 ch)) ?sz h = Some h1"
      using 1(3) pos ch by (auto simp: step Let_def split: option.splits)
    have ok: "wavOK h1" using wavChunk_ok [OF 1(2) h1] pos leNat_take [of 4 "drop 4 ch"] by simp
    show ?thesis using 1(1) [OF pos ch refl h1] ok 1(3) pos ch h1
      by (auto simp: step Let_def split: if_splits)
  qed
qed

lemma parseWavHeader_ok:
  assumes "parseWavHeader f n = Some h"
  shows "wavOK h" "0 < wv_sampleRate h" "0 < wv_blockAlign h" "0 < wv_dataSize h" "16 \<le> length (wv_fmt h)"
proof -
  have w: "wavChunks f n 12 noWavHeader = Some h" "wv_sampleRate h \<noteq> 0" "wv_blockAlign h \<noteq> 0" "wv_dataSize h \<noteq> 0"
    using assms by (auto simp: parseWavHeader_def split: sum.splits if_splits option.splits)
  have "wavOK noWavHeader" by (simp add: wavOK_def noWavHeader_def)
  from wavChunks_ok [OF this w(1)] show ok: "wavOK h" .
  with w show "0 < wv_sampleRate h" "0 < wv_blockAlign h" "0 < wv_dataSize h" "16 \<le> length (wv_fmt h)"
    by (auto simp: wavOK_def)
qed

text \<open>
  No product of the WAV slicer leaves the 64-bit integers: a time before the end of the data is
  at most \<open>2 ^ 33\<close> samples in.
\<close>

lemma power_bracket:
  assumes "0 < (r :: int)" "r < 2 ^ 32"
  shows "\<exists>j. j \<le> 31 \<and> 2 ^ j \<le> r \<and> r < 2 ^ Suc j"
proof -
  have "\<exists>j. 2 ^ j \<le> nat r \<and> nat r < 2 ^ Suc j" using assms(1) ex_power_ivl1 [of 2 "nat r"] by auto
  then obtain j where j: "2 ^ j \<le> nat r" "nat r < 2 ^ Suc j" by blast
  then have "2 ^ j \<le> r" "r < 2 ^ Suc j"
    using assms(1) by (simp_all add: nat_less_iff le_nat_iff)
  moreover from this assms(2) have "(2 :: int) ^ j < 2 ^ 32" by linarith
  then have "j < 32" by (rule power_less_imp_less_exp [rotated]) simp
  then have "j \<le> 31" by simp
  ultimately show ?thesis by blast
qed

lemma wavTotal_capped:
  assumes h: "wavOK h" "0 < wv_sampleRate h" "0 < wv_blockAlign h" "0 < wv_dataSize h"
    and j: "2 ^ j \<le> wv_sampleRate h" "j \<le> 31"
  shows "capped (32 - int j) (fdiv (floatOf (wv_dataSize h)) (floatOf (wv_sampleRate h * wv_blockAlign h)))"
proof -
  let ?r = "wv_sampleRate h * wv_blockAlign h"
  have rate: "2 ^ j \<le> ?r" using j(1) h(2,3) mult_left_mono [of 1 "wv_blockAlign h" "wv_sampleRate h"] by linarith
  have "?r \<le> 2 ^ 32 * 2 ^ 16" using h(2,3) wavOK_bounds [OF h(1)] by (intro mult_mono) simp_all
  then have r: "floatOf ?r = Finite (of_int ?r)" "0 < ?r"
    using h(2,3) floatOf_exact [of ?r] by simp_all
  have d: "floatOf (wv_dataSize h) = Finite (of_int (wv_dataSize h))"
    using wavOK_bounds [OF h(1)] by (intro floatOf_exact)
  have "of_int (wv_dataSize h) \<le> (of_int (2 ^ 32) :: rat)" using wavOK_bounds(3) [OF h(1)] by (simp only: of_int_le_iff)
  moreover have "(of_int (2 ^ j) :: rat) \<le> of_int ?r" using rate by (simp only: of_int_le_iff)
  ultimately have "of_int (wv_dataSize h) / of_int ?r \<le> (of_int (2 ^ 32) :: rat) / of_int (2 ^ j)"
    using wavOK_bounds(2) [OF h(1)] by (intro frac_le) simp_all
  also have "\<dots> = pow2 (32 - int j)" using j(2) by (simp add: pow2_def nat_diff_distrib power_diff)
  finally have "of_int (wv_dataSize h) / (of_int ?r :: rat) \<le> pow2 (32 - int j)" .
  then show ?thesis using r d h j(2) by (auto intro!: capped_round)
qed

lemma wavByteAt_bounds:
  assumes h: "wavOK h" "0 < wv_sampleRate h" "0 < wv_blockAlign h" "0 < wv_dataSize h"
    and t: "fle (Finite 0) t" "fle t (fdiv (floatOf (wv_dataSize h)) (floatOf (wv_sampleRate h * wv_blockAlign h)))"
  shows "0 \<le> wavByteAt h t \<and> wavByteAt h t \<le> 2 ^ 33 * 2 ^ 16 \<and> wv_blockAlign h dvd wavByteAt h t"
proof -
  obtain j where j: "j \<le> 31" "2 ^ j \<le> wv_sampleRate h" "wv_sampleRate h < 2 ^ Suc j"
    using power_bracket [OF h(2) wavOK_bounds(5) [OF h(1)]] by blast
  obtain T where T: "fdiv (floatOf (wv_dataSize h)) (floatOf (wv_sampleRate h * wv_blockAlign h)) = Finite T"
    "T \<le> pow2 (32 - int j)" using cappedD [OF wavTotal_capped [OF h j(2,1)]] by blast
  obtain x where x: "t = Finite x" "0 \<le> x" "x \<le> T" using t T(1) by (cases t) (auto simp: order_le_less)
  have "capped (32 - int j) t" using x T(2) by (simp add: capped_def)
  moreover have "capped (int (Suc j)) (floatOf (wv_sampleRate h))"
    using j h by (intro capped_floatOf) simp_all
  ultimately have "capped (32 - int j + int (Suc j)) (fmul t (floatOf (wv_sampleRate h)))"
    using j(1) by (intro capped_mult) simp_all
  then have b: "0 \<le> toInt64 (fmul t (floatOf (wv_sampleRate h)))"
    "toInt64 (fmul t (floatOf (wv_sampleRate h))) \<le> 2 ^ 33"
    using capped_toInt64 [of 33] by simp_all
  moreover have "wv_blockAlign h \<le> 2 ^ 16" by (rule wavOK_bounds [OF h(1)])
  ultimately show ?thesis using h(3) unfolding wavByteAt_def by (intro conjI mult_mono) simp_all
qed

definition wavCut :: "bytes \<Rightarrow> int \<Rightarrow> float64 \<Rightarrow> float64 \<Rightarrow> wavHeader \<Rightarrow> int \<Rightarrow> int \<Rightarrow> bool" where
  "wavCut f n s d h a b \<longleftrightarrow>
     parseWavHeader f n = Some h \<and> 0 \<le> a \<and> a < b \<and> b \<le> wv_dataSize h
     \<and> a = wavByteAt h s \<and> b = min (wavByteAt h (wavEnd h s d)) (wv_dataSize h)
     \<and> wv_blockAlign h dvd a \<and> fless s (wavEnd h s d)"

lemma wavEnd_not_NaN:
  assumes "fle (Finite 0) s" "fless (Finite 0) d"
  shows "wavEnd h s d \<noteq> NaN"
  using fadd_not_NaN [OF assms] fless_not_NaN by (auto simp: wavEnd_def Let_def)

lemma wavEnd_le_total:
  assumes "fle (Finite 0) s" "fless (Finite 0) d" "T \<noteq> NaN"
    and "T = fdiv (floatOf (wv_dataSize h)) (floatOf (wv_sampleRate h * wv_blockAlign h))"
  shows "fle (wavEnd h s d) T"
proof (cases "fless T (fadd s d)")
  case True
  then show ?thesis using assms(3,4) by (simp add: wavEnd_def fle_refl)
next
  case False
  then have "wavEnd h s d = fadd s d" using assms(4) by (simp add: wavEnd_def)
  then show ?thesis using not_fle [OF fadd_not_NaN [OF assms(1,2)] assms(3)] False by simp
qed

lemma fless_fle_trans: "fless x y \<Longrightarrow> fle y z \<Longrightarrow> fle x z"
  by (cases x; cases y; cases z) auto

lemma sliceWAV_cases:
  assumes s: "fle (Finite 0) s" "fless (Finite 0) d"
  shows "sliceWAV w f n ct s d = (False, w) \<or>
    (\<exists>h a b. wavCut f n s d h a b \<and> sliceWAV w f n ct s d
       = (True, writeBytes (fileRange f (wv_dataOffset h + a) (b - a))
                  (writeBytes (wavPrefix (wv_fmt h) (b - a))
                    (setLength (28 + int (length (wv_fmt h)) + (b - a)) (setType ct w)))))"
proof (cases "parseWavHeader f n")
  case None
  then show ?thesis by (simp add: sliceWAV_def)
next
  case (Some h)
  note ok = parseWavHeader_ok [OF Some]
  let ?a = "wavByteAt h s" and ?b = "min (wavByteAt h (wavEnd h s d)) (wv_dataSize h)"
  let ?T = "fdiv (floatOf (wv_dataSize h)) (floatOf (wv_sampleRate h * wv_blockAlign h))"
  show ?thesis
  proof (cases "fle (wavEnd h s d) s \<or> ?b \<le> ?a")
    case True
    then show ?thesis using Some by (auto simp: sliceWAV_def Let_def)
  next
    case False
    have T: "?T \<noteq> NaN" using wavTotal_capped [OF ok(1-4), of 0] ok(2) by (auto simp: capped_def)
    have le: "fle (wavEnd h s d) ?T" using wavEnd_le_total [OF s T refl] .
    have less: "fless s (wavEnd h s d)"
      using False not_fle [OF wavEnd_not_NaN [OF s]] s(1) by (cases s) auto
    have a: "0 \<le> ?a" "wv_blockAlign h dvd ?a"
      using wavByteAt_bounds [OF ok(1-4) s(1) fless_fle_trans [OF less le]] by simp_all
    have "wavCut f n s d h ?a ?b" unfolding wavCut_def using Some a False less by linarith
    moreover have "0 \<le> wv_dataOffset h + ?a" using a(1) wavOK_bounds(1) [OF ok(1)] by simp
    then have "sliceWAV w f n ct s d
       = (True, writeBytes (fileRange f (wv_dataOffset h + ?a) (?b - ?a))
                  (writeBytes (wavPrefix (wv_fmt h) (?b - ?a))
                    (setLength (28 + int (length (wv_fmt h)) + (?b - ?a)) (setType ct w))))"
      using Some False by (simp add: sliceWAV_def Let_def algebra_simps)
    ultimately show ?thesis by blast
  qed
qed

text \<open>Reading back the header the slicer writes.\<close>

lemma leNat_putUint32: "0 \<le> n \<Longrightarrow> n < 2 ^ 32 \<Longrightarrow> int (leNat (putUint32 n)) = n"
  using beNat_beBytes [of "nat n" 4] by (simp add: leNat_def putUint32_def beBytes_def nat_less_iff)

lemma length_putUint32 [simp]: "length (putUint32 n) = 4"
  by (simp add: putUint32_def)

lemma wavChunks_written:
  fixes fmt samples pre :: bytes
  defines "body \<equiv> pre @ (bytesOf ''fmt '' @ putUint32 (int (length fmt))) @ fmt
    @ (bytesOf ''data'' @ putUint32 (int (length samples))) @ samples"
  assumes pre: "length pre = 12" and fmt: "16 \<le> length fmt" "length fmt \<le> 1024" "even (length fmt)"
    and samples: "samples \<noteq> []" "int (length samples) < 2 ^ 32"
  shows "wavChunks body (int (length body)) 12 noWavHeader
    = Some \<lparr>wv_fmt = fmt, wv_dataOffset = 28 + int (length fmt), wv_dataSize = int (length samples),
        wv_sampleRate = int (leNat (take 4 (drop 4 fmt))), wv_blockAlign = int (leNat (take 2 (drop 12 fmt)))\<rparr>"
    (is "_ = Some ?h")
proof -
  let ?h1 = "?h\<lparr>wv_dataOffset := 0, wv_dataSize := 0\<rparr>"
  have fmtLen: "int (leNat (putUint32 (int (length fmt)))) = int (length fmt)"
    and dataLen: "int (leNat (putUint32 (int (length samples)))) = int (length samples)"
    using fmt(2) samples(2) by (simp_all add: leNat_putUint32)
  have size: "length body = 28 + length fmt + length samples" by (simp add: body_def pre)
  have h1: "take 8 (drop 12 body) = (bytesOf ''fmt '' @ putUint32 (int (length fmt)))"
    "take (length fmt) (drop 20 body) = fmt"
    by (simp_all add: body_def pre)
  have h2: "take 8 (drop (20 + length fmt) body) = (bytesOf ''data'' @ putUint32 (int (length samples)))"
    by (simp add: body_def pre)
  have ne: "fmt \<noteq> []" using fmt(1) by auto
  have one: "wavChunk body 12 ''fmt '' (int (length fmt)) noWavHeader = Some ?h1"
    using fmt h1(2) size by (simp add: wavChunk_def noWavHeader_def readFull_if)
  have two: "wavChunk body (20 + int (length fmt)) ''data'' (int (length samples)) ?h1 = Some ?h"
    by (simp add: wavChunk_def)
  have "wavChunks body (int (length body)) (20 + int (length fmt)) ?h1 = Some ?h"
    using size samples(1) h2 dataLen two ne
    by (subst wavChunks.simps) (simp add: nat_add_distrib readFull_if)
  then show ?thesis
    using size samples(1) h1(1) fmtLen one ne fmt(3)
    by (subst wavChunks.simps) (simp add: add.commute readFull_if)
qed

lemma parseWavHeader_written:
  assumes h: "wavOK h" "0 < wv_sampleRate h" "0 < wv_blockAlign h" "16 \<le> length (wv_fmt h)" "even (length (wv_fmt h))"
    and samples: "samples \<noteq> []" "int (length samples) < 2 ^ 32"
  defines "body \<equiv> wavPrefix (wv_fmt h) (int (length samples)) @ samples"
  shows "parseWavHeader body (int (length body))
    = Some (h\<lparr>wv_dataOffset := 28 + int (length (wv_fmt h)), wv_dataSize := int (length samples)\<rparr>)"
proof -
  define pre where "pre = bytesOf ''RIFF'' @ putUint32 (20 + int (length (wv_fmt h)) + int (length samples)) @ bytesOf ''WAVE''"
  have body: "body = pre @ (bytesOf ''fmt '' @ putUint32 (int (length (wv_fmt h)))) @ wv_fmt h
    @ (bytesOf ''data'' @ putUint32 (int (length samples))) @ samples"
    by (simp add: body_def wavPrefix_def pre_def Let_def algebra_simps)
  have pre: "length pre = 12" by (simp add: pre_def)
  have ne: "wv_fmt h \<noteq> []" using h(4) by auto
  have fmt: "length (wv_fmt h) \<le> 1024" "wv_sampleRate h = int (leNat (take 4 (drop 4 (wv_fmt h))))"
    "wv_blockAlign h = int (leNat (take 2 (drop 12 (wv_fmt h))))"
    using h(1) ne unfolding wavOK_def by blast+
  have riff: "take 12 body = pre" "12 \<le> length body" unfolding body by (simp_all add: pre)
  have tags: "strOf (take 4 pre) = ''RIFF''" "strOf (drop 8 pre) = ''WAVE''" by (simp_all add: pre_def)
  have "wavChunks body (int (length body)) 12 noWavHeader = Some \<lparr>wv_fmt = wv_fmt h,
      wv_dataOffset = 28 + int (length (wv_fmt h)), wv_dataSize = int (length samples),
      wv_sampleRate = wv_sampleRate h, wv_blockAlign = wv_blockAlign h\<rparr>"
    unfolding body fmt(2,3) using wavChunks_written [OF pre h(4) fmt(1) h(5) samples] .
  moreover have "\<lparr>wv_fmt = wv_fmt h, wv_dataOffset = 28 + int (length (wv_fmt h)),
      wv_dataSize = int (length samples), wv_sampleRate = wv_sampleRate h, wv_blockAlign = wv_blockAlign h\<rparr>
    = h\<lparr>wv_dataOffset := 28 + int (length (wv_fmt h)), wv_dataSize := int (length samples)\<rparr>"
    by (cases h) simp
  ultimately show ?thesis using h(2,3) samples(1) riff tags by (simp add: parseWavHeader_def readFull_if)
qed

definition wavSlice :: "bytes \<Rightarrow> string \<Rightarrow> float64 \<Rightarrow> float64 \<Rightarrow> bool \<times> responseWriter" where
  "wavSlice f ct s d = sliceWAV emptyWriter f (int (length f)) ct s d"

lemma wavPrefix_ne [simp]: "wavPrefix fmt n \<noteq> []"
  by (simp add: wavPrefix_def Let_def bytesOf_def)

lemma length_wavPrefix [simp]: "length (wavPrefix fmt n) = 28 + length fmt"
  by (simp add: wavPrefix_def Let_def)

lemma wavSlice_cases:
  assumes "fle (Finite 0) s" "fless (Finite 0) d" "wavSlice f ct s d = (True, w)"
  shows "\<exists>h a b. wavCut f (int (length f)) s d h a b
    \<and> w = \<lparr>rw_type = ct, rw_length = Some (28 + int (length (wv_fmt h)) + (b - a)),
         rw_body = wavPrefix (wv_fmt h) (b - a) @ fileRange f (wv_dataOffset h + a) (b - a)\<rparr>"
  using sliceWAV_cases [OF assms(1,2), of emptyWriter f "int (length f)" ct] assms(3)
  by (auto simp: wavSlice_def writer_defs)


lemma wavEnd_meets:
  "fless (fadd s d) (wavEnd h (fadd s d) d') \<Longrightarrow> wavEnd h s d = fadd s d"
  unfolding wavEnd_def Let_def using clip_meets [of "fadd s d" True] by simp

lemma sliceWAV_meets:
  assumes s: "fle (Finite 0) s" "fless (Finite 0) d" "fless (Finite 0) d'"
    and one: "wavSlice f ct s d = (True, w1)" and two: "wavSlice f ct (fadd s d) d' = (True, w2)"
  shows "\<exists>h a m b. parseWavHeader f (int (length f)) = Some h \<and> 0 \<le> a \<and> a < m \<and> m < b \<and> b \<le> wv_dataSize h
     \<and> rw_body w1 = wavPrefix (wv_fmt h) (m - a) @ fileRange f (wv_dataOffset h + a) (m - a)
     \<and> rw_body w2 = wavPrefix (wv_fmt h) (b - m) @ fileRange f (wv_dataOffset h + m) (b - m)
     \<and> fileRange f (wv_dataOffset h + a) (m - a) @ fileRange f (wv_dataOffset h + m) (b - m)
         = fileRange f (wv_dataOffset h + a) (b - a)"
proof -
  obtain h a b where first: "wavCut f (int (length f)) s d h a b"
    "rw_body w1 = wavPrefix (wv_fmt h) (b - a) @ fileRange f (wv_dataOffset h + a) (b - a)"
    using wavSlice_cases [OF s(1,2) one] by auto
  obtain h' m c where second: "wavCut f (int (length f)) (fadd s d) d' h' m c"
    "rw_body w2 = wavPrefix (wv_fmt h') (c - m) @ fileRange f (wv_dataOffset h' + m) (c - m)"
    using wavSlice_cases [OF fadd_ge_0 [OF s(1,2)] s(3) two] by auto
  have h': "h' = h" using first(1) second(1) by (simp add: wavCut_def)
  have "wavEnd h s d = fadd s d" using wavEnd_meets second(1) h' by (auto simp: wavCut_def)
  then have m: "m = b" using first(1) second(1) h' by (auto simp: wavCut_def)
  have ab: "parseWavHeader f (int (length f)) = Some h" "0 \<le> a" "a < b" "b < c" "c \<le> wv_dataSize h"
    using first(1) second(1) unfolding wavCut_def h' m by blast+
  have "0 \<le> wv_dataOffset h" using wavOK_bounds(1) [OF parseWavHeader_ok(1) [OF ab(1)]] .
  then have "fileRange f (wv_dataOffset h + a) (b - a) @ fileRange f (wv_dataOffset h + b) (c - b)
      = fileRange f (wv_dataOffset h + a) (c - a)"
    using fileRange_append [of "wv_dataOffset h + a" "wv_dataOffset h + b" "wv_dataOffset h + c" f] ab by simp
  then show ?thesis using ab first(2) second(2) unfolding h' m by blast
qed

text \<open>
  Claim C25. Consecutive time ranges give consecutive slices: when a slice from \<open>s\<close> for \<open>d\<close> seconds and
  one from \<open>s + d\<close> for \<open>d'\<close> seconds (in the arithmetic of \<open>float64\<close>) are both handled, the second
  starts at the byte the first stops at, so that nothing is lost or repeated between them; an MP3's
  bodies concatenate to one range of the file, a WAV's samples to one range of its data chunk.
\<close>

theorem slices_meet:
  assumes "length f \<le> 2 ^ 60" "fle (Finite 0) s" "fless (Finite 0) d" "fless (Finite 0) d'"
  shows "(mp3Slice f ct s d = Some (True, w1) \<and> mp3Slice f ct (fadd s d) d' = Some (True, w2) \<longrightarrow>
      (\<exists>a m b. 0 \<le> a \<and> a < m \<and> m < b \<and> b \<le> int (length f) \<and> rw_body w1 = fileRange f a (m - a)
         \<and> rw_body w2 = fileRange f m (b - m) \<and> rw_body w1 @ rw_body w2 = fileRange f a (b - a)))
    \<and> (wavSlice f ct s d = (True, v1) \<and> wavSlice f ct (fadd s d) d' = (True, v2) \<longrightarrow>
      (\<exists>h a m b. parseWavHeader f (int (length f)) = Some h \<and> 0 \<le> a \<and> a < m \<and> m < b \<and> b \<le> wv_dataSize h
         \<and> rw_body v1 = wavPrefix (wv_fmt h) (m - a) @ fileRange f (wv_dataOffset h + a) (m - a)
         \<and> rw_body v2 = wavPrefix (wv_fmt h) (b - m) @ fileRange f (wv_dataOffset h + m) (b - m)
         \<and> fileRange f (wv_dataOffset h + a) (m - a) @ fileRange f (wv_dataOffset h + m) (b - m)
             = fileRange f (wv_dataOffset h + a) (b - a)))"
proof -
  have size: "int (length f) \<le> 2 ^ 60" using assms(1) by (metis of_nat_le_iff of_nat_numeral of_nat_power)
  show ?thesis
    using sliceMP3_meets [OF size assms(2-4) fadd_ge_0 [OF assms(2,3)], of ct w1 w2]
      sliceWAV_meets [OF assms(2-4), of f ct v1 v2] by blast
qed

section \<open>FLAC\<close>

text \<open>
  The seek points that stand for a sample, and the reference the two searches are compared with:
  the last one at or before the sample, the first one after it.
\<close>

definition realPoints :: "flacSeekPoint list \<Rightarrow> flacSeekPoint list" where
  "realPoints pts = filter (\<lambda>p. sp_sampleNumber p \<noteq> placeholderPoint) pts"

definition sortedPoints :: "flacSeekPoint list \<Rightarrow> bool" where
  "sortedPoints pts \<longleftrightarrow> sorted (map sp_sampleNumber (realPoints pts))"

definition lastAtOrBefore :: "flacSeekPoint list \<Rightarrow> 64 word \<Rightarrow> 64 word" where
  "lastAtOrBefore pts t = (case filter (\<lambda>p. sp_sampleNumber p \<le> t) (realPoints pts) of
     [] \<Rightarrow> 0 | ps \<Rightarrow> sp_byteOffset (last ps))"

definition firstAfter :: "flacSeekPoint list \<Rightarrow> 64 word \<Rightarrow> int \<Rightarrow> 64 word" where
  "firstAfter pts t audioSize = (case find (\<lambda>p. t < sp_sampleNumber p) (realPoints pts) of
     None \<Rightarrow> word_of_int audioSize | Some p \<Rightarrow> sp_byteOffset p)"

lemma floorFrom_reference:
  assumes "sortedPoints pts"
  shows "floorFrom best pts t = (case filter (\<lambda>p. sp_sampleNumber p \<le> t) (realPoints pts) of
     [] \<Rightarrow> best | ps \<Rightarrow> sp_byteOffset (last ps))"
  using assms
proof (induction pts arbitrary: best)
  case Nil
  then show ?case by (simp add: realPoints_def)
next
  case (Cons p pts)
  show ?case
  proof (cases "sp_sampleNumber p = placeholderPoint")
    case True
    with Cons show ?thesis by (simp add: realPoints_def sortedPoints_def)
  next
    case False
    then have real: "realPoints (p # pts) = p # realPoints pts" by (simp add: realPoints_def)
    then have sorted: "sortedPoints pts" "\<forall>q \<in> set (realPoints pts). sp_sampleNumber p \<le> sp_sampleNumber q"
      using Cons.prems by (simp_all add: sortedPoints_def)
    show ?thesis
    proof (cases "sp_sampleNumber p \<le> t")
      case True
      with Cons.IH [OF sorted(1)] False show ?thesis by (simp add: real split: list.splits)
    next
      case far: False
      then have "filter (\<lambda>q. sp_sampleNumber q \<le> t) (realPoints pts) = []"
        using sorted(2) by (auto simp: filter_empty_conv dest: order_trans)
      with far False show ?thesis by (simp add: real)
    qed
  qed
qed

lemma seekPointFloor_reference: "sortedPoints pts \<Longrightarrow> seekPointFloor pts t = lastAtOrBefore pts t"
  by (simp add: seekPointFloor_def floorFrom_reference lastAtOrBefore_def)

lemma seekPointCeil_reference: "seekPointCeil pts t n = firstAfter pts t n"
  by (induction pts) (simp_all add: firstAfter_def realPoints_def)

text \<open>The STREAMINFO block of a header the block loop returns.\<close>

lemma flacBlocks_streamInfo:
  assumes "flacBlocks f off pos h = Some h'" "length (fh_streamInfo h) = 34" "0 \<le> pos"
  shows "length (fh_streamInfo h') = 34 \<and> 0 \<le> fh_audioStart h'"
  using assms
proof (induction f off pos h rule: flacBlocks.induct)
  case (1 f off pos h)
  note step = flacBlocks.simps [of f off pos h]
  obtain bh where bh: "readFull 4 (drop off f) = Inr bh" using 1(2) by (auto simp: step split: sum.splits)
  then obtain h1 off1 where b: "flacBlock f (off + 4) (bh ! 0 AND 0x7F) (blockLenOf bh) h = Some (h1, off1)"
    using 1(2) by (auto simp: step Let_def readFull_if split: option.splits if_splits)
  have len: "length (fh_streamInfo h1) = 34"
    using b 1(3) by (auto simp: flacBlock_def readFull_if split: if_splits)
  show ?case
  proof (cases "bh ! 0 AND 0x80 \<noteq> 0")
    case True
    then show ?thesis using 1(2,4) bh b len by (auto simp: step Let_def readFull_if split: if_splits)
  next
    case False
    have "flacBlocks f off1 (pos + 4 + int (blockLenOf bh)) h1 = Some h'"
      using 1(2) bh b False by (auto simp: step Let_def readFull_if split: if_splits)
    then show ?thesis using 1(1) [OF bh refl refl refl b refl refl False] len 1(4) by simp
  qed
qed

lemma parseFlacHeader_ok:
  assumes "parseFlacHeader f = Some h"
  shows "length (fh_streamInfo h) = 34" "0 \<le> fh_audioStart h"
proof -
  have "flacBlocks f 4 4 noFlacHeader = Some h"
    using assms by (auto simp: parseFlacHeader_def split: sum.splits if_splits option.splits)
  then show "length (fh_streamInfo h) = 34" "0 \<le> fh_audioStart h"
    using flacBlocks_streamInfo [of f 4 4 noFlacHeader h] by (simp_all add: noFlacHeader_def)
qed

definition flacSlice :: "bytes \<Rightarrow> string \<Rightarrow> float64 \<Rightarrow> float64 \<Rightarrow> bool \<times> responseWriter" where
  "flacSlice f ct s d = sliceFLAC emptyWriter f (int (length f)) ct s d"

lemma flacMinimalHeader_ne [simp]: "flacMinimalHeader si \<noteq> []"
  by (simp add: flacMinimalHeader_def bytesOf_def)

lemma length_flacMinimalHeader [simp]: "length (flacMinimalHeader si) = 8 + length si"
  by (simp add: flacMinimalHeader_def bytesOf_def)

lemma sliceFLAC_handled:
  assumes "sliceFLAC emptyWriter f n ct s d = (True, w)"
  shows "\<exists>h a b. parseFlacHeader f = Some h \<and> flacSampleRate (fh_streamInfo h) \<noteq> 0
     \<and> a = absOffset (fh_audioStart h) (seekPointFloor (fh_seekPoints h)
             (toUint64 (fmul s (floatOf (flacSampleRate (fh_streamInfo h))))))
     \<and> b = min n (absOffset (fh_audioStart h) (seekPointCeil (fh_seekPoints h)
             (toUint64 (fmul (flacEnd (fh_streamInfo h) s d) (floatOf (flacSampleRate (fh_streamInfo h)))))
             (n - fh_audioStart h)))
     \<and> 0 \<le> a \<and> a < b
     \<and> w = \<lparr>rw_type = ct, rw_length = Some (42 + (b - a)),
          rw_body = flacMinimalHeader (fh_streamInfo h) @ fileRange f a (b - a)\<rparr>"
  using assms by (auto simp: sliceFLAC_def Let_def writer_defs split: option.splits if_splits)

lemma parseFLACDuration_minimal:
  assumes "length si = 34" "flacSampleRate si \<noteq> 0"
  shows "\<exists>br. parseFLACDuration (flacMinimalHeader si @ audio) n
    = Inr (goDiv (flacTotalSamples si) (flacSampleRate si), br)"
proof -
  let ?f = "flacMinimalHeader si @ audio"
  have parts: "take 4 ?f = bytesOf ''fLaC''" "take 4 (drop 4 ?f) = [0x80, 0, 0, 34]"
    "take 34 (drop 8 ?f) = si" "4 \<le> length ?f" "8 \<le> length ?f" "42 \<le> length ?f"
    using assms(1) by (simp_all add: flacMinimalHeader_def bytesOf_def)
  then have "readFull 4 ?f = Inr (bytesOf ''fLaC'')" "readFull 4 (drop 4 ?f) = Inr [0x80, 0, 0, 34]"
    "readFull 34 (drop 8 ?f) = Inr si"
    by (simp_all only: readFull_if length_drop) simp_all
  then show ?thesis using assms(2)
    by (simp add: parseFLACDuration_def flacSampleRate_def flacTotalSamples_def Let_def del: readFull_Inr)
qed

text \<open>
  Claim C26. A slice of a FLAC file is a FLAC stream: the marker, the original's STREAMINFO as its
  only metadata block, and one range of the original audio, from the last seek point at or before
  the first sample asked for to the first seek point after the last one (or the end of the file), so
  the range asked for is inside; the announced length is the length of the body. The duration parser
  reads the slice as a file of the original's full duration: the sample count is not adjusted.
\<close>

theorem sliceFLAC_correct:
  assumes "flacSlice f ct s d = (True, w)"
    and "\<And>h. parseFlacHeader f = Some h \<Longrightarrow> sortedPoints (fh_seekPoints h)"
  shows "\<exists>h si a b br. parseFlacHeader f = Some h \<and> si = fh_streamInfo h
     \<and> a = absOffset (fh_audioStart h) (lastAtOrBefore (fh_seekPoints h)
             (toUint64 (fmul s (floatOf (flacSampleRate si)))))
     \<and> b = min (int (length f)) (absOffset (fh_audioStart h) (firstAfter (fh_seekPoints h)
             (toUint64 (fmul (flacEnd si s d) (floatOf (flacSampleRate si))))
             (int (length f) - fh_audioStart h)))
     \<and> 0 \<le> a \<and> a < b \<and> rw_type w = ct \<and> rw_length w = Some (int (length (rw_body w)))
     \<and> rw_body w = bytesOf ''fLaC'' @ [0x80, 0, 0, 34] @ si @ take (nat (b - a)) (drop (nat a) f)
     \<and> parseFLACDuration (rw_body w) (int (length (rw_body w)))
         = Inr (goDiv (flacTotalSamples si) (flacSampleRate si), br)"
proof -
  obtain h a b where h: "parseFlacHeader f = Some h" "flacSampleRate (fh_streamInfo h) \<noteq> 0"
    and ab: "a = absOffset (fh_audioStart h) (seekPointFloor (fh_seekPoints h)
             (toUint64 (fmul s (floatOf (flacSampleRate (fh_streamInfo h))))))"
      "b = min (int (length f)) (absOffset (fh_audioStart h) (seekPointCeil (fh_seekPoints h)
             (toUint64 (fmul (flacEnd (fh_streamInfo h) s d) (floatOf (flacSampleRate (fh_streamInfo h)))))
             (int (length f) - fh_audioStart h)))" "0 \<le> a" "a < b"
    and w: "w = \<lparr>rw_type = ct, rw_length = Some (42 + (b - a)),
          rw_body = flacMinimalHeader (fh_streamInfo h) @ fileRange f a (b - a)\<rparr>"
    using sliceFLAC_handled [OF assms(1) [unfolded flacSlice_def]] by blast
  have len: "length (fh_streamInfo h) = 34" using parseFlacHeader_ok(1) [OF h(1)] .
  have "int (length (fileRange f a (b - a))) = b - a" using ab by (intro length_fileRange) linarith+
  then have wl: "rw_length w = Some (int (length (rw_body w)))" by (simp add: w len)
  obtain br where "parseFLACDuration (rw_body w) (int (length (rw_body w)))
      = Inr (goDiv (flacTotalSamples (fh_streamInfo h)) (flacSampleRate (fh_streamInfo h)), br)"
    using parseFLACDuration_minimal [OF len h(2)] unfolding w responseWriter.simps by blast
  moreover have "rw_body w = bytesOf ''fLaC'' @ [0x80, 0, 0, 34] @ fh_streamInfo h @ take (nat (b - a)) (drop (nat a) f)"
    by (simp add: w flacMinimalHeader_def fileRange_def)
  moreover have "rw_type w = ct" by (simp add: w)
  ultimately show ?thesis
    using h(1) ab [unfolded seekPointFloor_reference [OF assms(2) [OF h(1)]] seekPointCeil_reference] wl
    by blast
qed

end
