(* ===== verification/Slice_Samples.thy ===== *)
theory Slice_Samples
  imports Slice_Facts
begin

text \<open>
  Small files on which the slicers run: twenty bytes of MP3 at 128 kbit/s, a WAV file of eight
  16-bit samples at 8 Hz, and a FLAC file with 80 samples at 8 Hz and a seek table of three points.
\<close>

definition tinyMP3 :: bytes where
  "tinyMP3 = [0xFF, 0xFB, 0x90, 0, 1, 2, 3, 4, 5, 6, 7, 8, 9, 10, 11, 12, 13, 14, 15, 16]"

definition tinyWAV :: bytes where
  "tinyWAV = bytesOf ''RIFF'' @ putUint32 52 @ bytesOf ''WAVE''
     @ bytesOf ''fmt '' @ putUint32 16 @ [1, 0, 1, 0, 8, 0, 0, 0, 16, 0, 0, 0, 2, 0, 16, 0]
     @ bytesOf ''data'' @ putUint32 16 @ [1, 0, 2, 0, 3, 0, 4, 0, 5, 0, 6, 0, 7, 0, 8, 0]"

definition tinyFLAC :: bytes where
  "tinyFLAC = bytesOf ''fLaC''
     @ [0, 0, 0, 34] @ replicate 10 0 @ [0, 0, 0x80, 0, 0, 0, 0, 80] @ replicate 16 0
     @ [0x83, 0, 0, 54]
     @ [0, 0, 0, 0, 0, 0, 0, 0, 0, 0, 0, 0, 0, 0, 0, 0, 0, 16,
        0, 0, 0, 0, 0, 0, 0, 16, 0, 0, 0, 0, 0, 0, 0, 5, 0, 16,
        0, 0, 0, 0, 0, 0, 0, 32, 0, 0, 0, 0, 0, 0, 0, 9, 0, 16]
     @ [1, 2, 3, 4, 5, 6, 7, 8, 9, 10, 11, 12, 13, 14]"

lemma mp3_sample: "mp3Slice tinyMP3 ''audio/mpeg'' (Finite 0) (Finite (1 / 2048))
  = Some (True, \<lparr>rw_type = ''audio/mpeg'', rw_length = Some 7, rw_body = [0xFF, 0xFB, 0x90, 0, 1, 2, 3]\<rparr>)"
  by code_simp

lemma wav_sample: "wavSlice tinyWAV ''audio/wav'' (Finite (1 / 4)) (Finite (1 / 2)) = (True, 
   \<lparr>rw_type = ''audio/wav'', rw_length = Some 52, rw_body =
     wavPrefix [1, 0, 1, 0, 8, 0, 0, 0, 16, 0, 0, 0, 2, 0, 16, 0] 8 @ [3, 0, 4, 0, 5, 0, 6, 0]\<rparr>)"
  by code_simp

lemma flac_sample: "flacSlice tinyFLAC ''audio/flac'' (Finite 2) (Finite 1) = (True, 
   \<lparr>rw_type = ''audio/flac'', rw_length = Some 46, rw_body =
     flacMinimalHeader (replicate 10 0 @ [0, 0, 0x80, 0, 0, 0, 0, 80] @ replicate 16 0) @ [6, 7, 8, 9]\<rparr>)"
  by code_simp

lemma mp3_sample_next: "mp3Slice tinyMP3 ''audio/mpeg'' (Finite (1 / 2048)) (Finite (1 / 2048))
  = Some (True, \<lparr>rw_type = ''audio/mpeg'', rw_length = Some 8, rw_body = [4, 5, 6, 7, 8, 9, 10, 11]\<rparr>)"
  by code_simp

lemma wav_sample_next: "wavSlice tinyWAV ''audio/wav'' (Finite (3 / 4)) (Finite 2) = (True, 
   \<lparr>rw_type = ''audio/wav'', rw_length = Some 48, rw_body =
     wavPrefix [1, 0, 1, 0, 8, 0, 0, 0, 16, 0, 0, 0, 2, 0, 16, 0] 4 @ [7, 0, 8, 0]\<rparr>)"
  by code_simp

lemma sample_sums: "fadd (Finite 0) (Finite (1 / 2048)) = Finite (1 / 2048)"
  "fadd (Finite (1 / 4)) (Finite (1 / 2)) = Finite (3 / 4)"
  by code_simp+

definition tinyWavHeader :: wavHeader where
  "tinyWavHeader = \<lparr>wv_fmt = [1, 0, 1, 0, 8, 0, 0, 0, 16, 0, 0, 0, 2, 0, 16, 0], wv_dataOffset = 44,
     wv_dataSize = 16, wv_sampleRate = 8, wv_blockAlign = 2\<rparr>"

lemma tinyWAV_length: "length tinyWAV = 60"
  by (simp add: tinyWAV_def)

lemma wav_header: "parseWavHeader tinyWAV (int (length tinyWAV)) = Some tinyWavHeader"
  by code_simp

definition tinyFlacHeader :: flacHeader where
  "tinyFlacHeader = \<lparr>fh_streamInfo = replicate 10 0 @ [0, 0, 0x80, 0, 0, 0, 0, 80] @ replicate 16 0,
     fh_seekPoints = [\<lparr>sp_sampleNumber = 0, sp_byteOffset = 0, sp_numSamples = 16\<rparr>,
       \<lparr>sp_sampleNumber = 16, sp_byteOffset = 5, sp_numSamples = 16\<rparr>,
       \<lparr>sp_sampleNumber = 32, sp_byteOffset = 9, sp_numSamples = 16\<rparr>],
     fh_found = True, fh_audioStart = 100\<rparr>"

lemma flac_header: "parseFlacHeader tinyFLAC = Some tinyFlacHeader"
  by code_simp

lemma flac_sorted: "sortedPoints (fh_seekPoints tinyFlacHeader)"
  by code_simp

theorem sliceMP3_sound_witness:
  "mp3Slice tinyMP3 ''audio/mpeg'' (Finite 0) (Finite (1 / 2048)) \<noteq> Some (False, emptyWriter)
   \<and> (\<exists>info a b. parseMP3Info tinyMP3 20 = Inr info \<and> mi_audioStart info \<le> a \<and> b = a + 7
       \<and> take (nat (b - a)) (drop (nat a) tinyMP3) = [0xFF, 0xFB, 0x90, 0, 1, 2, 3])"
proof -
  have len: "length tinyMP3 \<le> 2 ^ 60" "int (length tinyMP3) = 20" by (simp_all add: tinyMP3_def)
  from sliceMP3_sound [OF len(1), of "Finite 0" "Finite (1 / 2048)" "''audio/mpeg''"] mp3_sample
  obtain info a b where "parseMP3Info tinyMP3 20 = Inr info" "mi_audioStart info \<le> a" "b - a = 7"
    "take (nat (b - a)) (drop (nat a) tinyMP3) = [0xFF, 0xFB, 0x90, 0, 1, 2, 3]"
    unfolding len(2) by fastforce
  then show ?thesis using mp3_sample by (intro conjI exI [of _ info] exI [of _ a] exI [of _ b]) simp_all
qed

theorem slices_meet_witness:
  "(\<exists>a b. fileRange tinyMP3 a (b - a) = [0xFF, 0xFB, 0x90, 0, 1, 2, 3] @ [4, 5, 6, 7, 8, 9, 10, 11])
   \<and> (\<exists>h a m b. parseWavHeader tinyWAV (int (length tinyWAV)) = Some h
       \<and> wavPrefix [1, 0, 1, 0, 8, 0, 0, 0, 16, 0, 0, 0, 2, 0, 16, 0] 8 @ [3, 0, 4, 0, 5, 0, 6, 0]
         = wavPrefix (wv_fmt h) (m - a) @ fileRange tinyWAV (wv_dataOffset h + a) (m - a))"
proof -
  have len: "length tinyMP3 \<le> 2 ^ 60" "length tinyWAV \<le> 2 ^ 60"
    by (simp_all add: tinyMP3_def tinyWAV_def)
  note mp3 = slices_meet [OF len(1), of "Finite 0" "Finite (1 / 2048)" "Finite (1 / 2048)" "''audio/mpeg''",
      unfolded sample_sums, THEN conjunct1, rule_format, OF _ _ _ conjI [OF mp3_sample mp3_sample_next]]
  note wav = slices_meet [OF len(2), of "Finite (1 / 4)" "Finite (1 / 2)" "Finite 2" "''audio/wav''",
      unfolded sample_sums, THEN conjunct2, rule_format, OF _ _ _ conjI [OF wav_sample wav_sample_next]]
  have "fle (Finite 0) (Finite 0)" "fless (Finite 0) (Finite (1 / 2048))" "fle (Finite 0) (Finite (1 / 4))"
    "fless (Finite 0) (Finite (1 / 2))" "fless (Finite 0) (Finite 2)" by simp_all
  with mp3 wav show ?thesis unfolding responseWriter.simps by metis
qed


lemma flac_sample_numbers:
  "toUint64 (fmul (Finite 2) (floatOf (flacSampleRate (fh_streamInfo tinyFlacHeader)))) = 16"
  "goDiv (flacTotalSamples (fh_streamInfo tinyFlacHeader)) (flacSampleRate (fh_streamInfo tinyFlacHeader)) = 10"
  by code_simp+

theorem sliceFLAC_correct_witness:
  "\<exists>a b br w. flacSlice tinyFLAC ''audio/flac'' (Finite 2) (Finite 1) = (True, w)
     \<and> a = absOffset 100 (lastAtOrBefore (fh_seekPoints tinyFlacHeader) 16)
     \<and> take (nat (b - a)) (drop (nat a) tinyFLAC) = [6, 7, 8, 9]
     \<and> parseFLACDuration (rw_body w) (int (length (rw_body w))) = Inr (10, br)"
proof -
  have sorted: "sortedPoints (fh_seekPoints h)" if "parseFlacHeader tinyFLAC = Some h" for h
    using that flac_header flac_sorted by simp
  from sliceFLAC_correct [OF flac_sample sorted] obtain h si a b br
    where h: "parseFlacHeader tinyFLAC = Some h" "si = fh_streamInfo h"
    and a: "a = absOffset (fh_audioStart h) (lastAtOrBefore (fh_seekPoints h)
             (toUint64 (fmul (Finite 2) (floatOf (flacSampleRate si)))))"
    and body: "flacMinimalHeader (replicate 10 0 @ [0, 0, 0x80, 0, 0, 0, 0, 80] @ replicate 16 0) @ [6, 7, 8, 9]
      = bytesOf ''fLaC'' @ [0x80, 0, 0, 34] @ si @ take (nat (b - a)) (drop (nat a) tinyFLAC)"
    and dur: "parseFLACDuration
        (flacMinimalHeader (replicate 10 0 @ [0, 0, 0x80, 0, 0, 0, 0, 80] @ replicate 16 0) @ [6, 7, 8, 9])
        (int (length (flacMinimalHeader (replicate 10 0 @ [0, 0, 0x80, 0, 0, 0, 0, 80] @ replicate 16 0)
          @ [6 :: byte, 7, 8, 9])))
      = Inr (goDiv (flacTotalSamples si) (flacSampleRate si), br)"
    unfolding responseWriter.simps by blast
  have eq: "h = tinyFlacHeader" using h(1) flac_header by simp
  have "take (nat (b - a)) (drop (nat a) tinyFLAC) = [6, 7, 8, 9]"
    using body by (simp add: h(2) eq tinyFlacHeader_def flacMinimalHeader_def)
  moreover have "a = absOffset 100 (lastAtOrBefore (fh_seekPoints tinyFlacHeader) 16)"
    using a unfolding h(2) eq flac_sample_numbers by (simp add: tinyFlacHeader_def)
  moreover note dur [unfolded h(2) eq flac_sample_numbers]
  ultimately show ?thesis using flac_sample
    by (intro exI [of _ a] exI [of _ b] exI [of _ br] exI [of _ "\<lparr>rw_type = ''audio/flac'', rw_length = Some 46,
       rw_body = flacMinimalHeader (replicate 10 0 @ [0, 0, 0x80, 0, 0, 0, 0, 80] @ replicate 16 0) @ [6, 7, 8, 9]\<rparr>"])
      simp
qed

end
