(* ===== verification/ID3.thy ===== *)
theory ID3
  imports Go_Lib
begin

unbundle bit_operations_syntax

text \<open>
  The ID3v2 readers of \<open>internal/scanner/id3.go\<close>: the scanner's text-frame reader, which parses
  the first 4106 bytes of a file, and the lyrics reader, which parses up to 512 KB of tag body.
  The functions work on the bytes of the file. A slice expression whose bounds could be out of
  range is a \<^const>\<open>slice\<close>, so the result \<^const>\<open>None\<close> is a run-time panic; the theorems show
  that no input causes one.
\<close>

section \<open>Data\<close>

record id3Tags =
  id3_title :: string
  id3_artist :: string
  id3_album :: string
  id3_genre :: string
  id3_year :: int
  id3_track :: int
  id3_disc :: int
  id3_tagSize :: int

definition noTags :: id3Tags where
  "noTags = \<lparr>id3_title = [], id3_artist = [], id3_album = [], id3_genre = [],
     id3_year = 0, id3_track = 0, id3_disc = 0, id3_tagSize = 0\<rparr>"

definition id3ReadCap :: nat where
  "id3ReadCap = 10 + 4096"

definition lyricsReadCap :: int where
  "lyricsReadCap = 512 * 1024"

record LyricLine =
  ll_Start :: int
  ll_Value :: string

record LyricFrame =
  lf_Lang :: string
  lf_Synced :: bool
  lf_Lines :: "LyricLine list"

section \<open>Text decoding\<close>

definition trimNull :: "string \<Rightarrow> string" where
  "trimNull s = trimRight s (chars [0])"

fun units16BE :: "bytes \<Rightarrow> nat list" where
  "units16BE (a # b # r) = (unat a * 256 + unat b) # units16BE r"
| "units16BE _ = []"

fun units16LE :: "bytes \<Rightarrow> nat list" where
  "units16LE (a # b # r) = (unat b * 256 + unat a) # units16LE r"
| "units16LE _ = []"

definition decodeUTF16BE :: "bytes \<Rightarrow> string" where
  "decodeUTF16BE data = runesToString (utf16Decode (units16BE data))"

definition decodeUTF16LE :: "bytes \<Rightarrow> string" where
  "decodeUTF16LE data = runesToString (utf16Decode (units16LE data))"

definition decodeUTF16 :: "bytes \<Rightarrow> string" where
  "decodeUTF16 data =
     (if length data < 2 then []
      else if data ! 0 = 0xFF \<and> data ! 1 = 0xFE then decodeUTF16LE (drop 2 data)
      else if data ! 0 = 0xFE \<and> data ! 1 = 0xFF then decodeUTF16BE (drop 2 data)
      else decodeUTF16BE data)"

definition decodeByEncoding :: "bytes \<Rightarrow> byte \<Rightarrow> string" where
  "decodeByEncoding data encoding =
     (if encoding = 0 then strOf data
      else if encoding = 3 then strOf data
      else if encoding = 1 then decodeUTF16 data
      else if encoding = 2 then decodeUTF16BE data
      else strOf data)"

definition decodeTextFrame :: "bytes \<Rightarrow> string" where
  "decodeTextFrame data =
     (if length data < 2 then []
      else let encoding = data ! 0; payload = drop 1 data in
        if encoding = 0 then trimNull (strOf payload)
        else if encoding = 3 then trimNull (strOf payload)
        else if encoding = 1 then trimNull (decodeUTF16 payload)
        else if encoding = 2 then trimNull (decodeUTF16BE payload)
        else trimNull (strOf payload))"

definition parseTrackDisc :: "string \<Rightarrow> int" where
  "parseTrackDisc s =
     (let s' = (case indexByte s CHR ''/'' of Some idx \<Rightarrow> take idx s | None \<Rightarrow> s)
      in fst (atoi (trimSpace s')))"

definition cleanGenre :: "string \<Rightarrow> string" where
  "cleanGenre s =
     (if s = [] \<or> hd s \<noteq> CHR ''('' then s
      else case indexByte s CHR '')'' of
             None \<Rightarrow> s
           | Some idx \<Rightarrow>
               (let after = drop (idx + 1) s in
                if after \<noteq> [] then after else take (idx - 1) (drop 1 s)))"

section \<open>Frames\<close>

definition wantTextFrame :: "string \<Rightarrow> byte \<Rightarrow> bool" where
  "wantTextFrame fid major =
     (if fid \<in> {''TIT2'', ''TPE1'', ''TALB'', ''TCON'', ''TRCK'', ''TPOS'', ''TDRC'', ''TYER''} then True
      else if fid \<in> {''TT2'', ''TP1'', ''TAL'', ''TCO'', ''TRK'', ''TPA'', ''TYE''} then major = 2
      else False)"

definition applyTag :: "id3Tags \<Rightarrow> string \<Rightarrow> string \<Rightarrow> id3Tags" where
  "applyTag tags fid val =
     (if val = [] then tags
      else if fid \<in> {''TIT2'', ''TT2''} then tags\<lparr>id3_title := val\<rparr>
      else if fid \<in> {''TPE1'', ''TP1''} then tags\<lparr>id3_artist := val\<rparr>
      else if fid \<in> {''TALB'', ''TAL''} then tags\<lparr>id3_album := val\<rparr>
      else if fid \<in> {''TCON'', ''TCO''} then tags\<lparr>id3_genre := cleanGenre val\<rparr>
      else if fid \<in> {''TRCK'', ''TRK''} then tags\<lparr>id3_track := parseTrackDisc val\<rparr>
      else if fid \<in> {''TPOS'', ''TPA''} then tags\<lparr>id3_disc := parseTrackDisc val\<rparr>
      else if fid \<in> {''TDRC'', ''TYER'', ''TYE''} then
        (if length val \<ge> 4 then tags\<lparr>id3_year := fst (atoi (take 4 val))\<rparr> else tags)
      else tags)"

text \<open>
  The 28-bit size \<open>a<<21 | b<<14 | c<<7 | d\<close>. The bytes are not masked to seven bits, as in the
  code, so the parts may overlap.
\<close>

definition syncsafe :: "byte \<Rightarrow> byte \<Rightarrow> byte \<Rightarrow> byte \<Rightarrow> int" where
  "syncsafe a b c d =
     push_bit 21 (uint a) OR push_bit 14 (uint b) OR push_bit 7 (uint c) OR uint d"

definition extHeaderEnd :: "bytes \<Rightarrow> byte \<Rightarrow> byte \<Rightarrow> int" where
  "extHeaderEnd buf major flags =
     (if flags AND 0x40 \<noteq> 0 \<and> major \<ge> 3 \<and> length buf \<ge> 4
      then 4 + (if major = 4 then syncsafe (buf ! 0) (buf ! 1) (buf ! 2) (buf ! 3) - 4
                else int (beNat (take 4 buf)))
      else 0)"

definition frameIDLen :: "byte \<Rightarrow> nat" where
  "frameIDLen major = (if major = 2 then 3 else 4)"

definition frameHdrLen :: "byte \<Rightarrow> int" where
  "frameHdrLen major = int (frameIDLen major) + (if major = 2 then 3 + 0 else 4 + 2)"

definition frameSize :: "byte \<Rightarrow> bytes \<Rightarrow> int" where
  "frameSize major hdrBuf =
     (if major = 2
      then push_bit 16 (uint (hdrBuf ! 3)) OR push_bit 8 (uint (hdrBuf ! 4)) OR uint (hdrBuf ! 5)
      else if major = 4
      then syncsafe (hdrBuf ! 4) (hdrBuf ! 5) (hdrBuf ! 6) (hdrBuf ! 7)
      else int (beNat (take 4 (drop (frameIDLen major) hdrBuf))))"

text \<open>The loop of \<open>parseID3v2Frames\<close> from position \<open>pos\<close> with the tags read so far.\<close>

function parseFrames :: "byte \<Rightarrow> int \<Rightarrow> bytes \<Rightarrow> int \<Rightarrow> id3Tags \<Rightarrow> id3Tags option" where
  "parseFrames major rawTagSize buf pos tags =
     (if pos \<ge> rawTagSize then Some tags
      else if pos + frameHdrLen major > int (length buf) then Some tags
      else case slice buf pos (pos + frameHdrLen major) of
             None \<Rightarrow> None
           | Some hdrBuf \<Rightarrow>
               (let pos' = pos + frameHdrLen major;
                    frameID = strOf (take (frameIDLen major) hdrBuf);
                    fsize = frameSize major hdrBuf;
                    fend = pos' + fsize in
                if hdrBuf ! 0 = 0 then Some tags
                else if fsize \<le> 0 then Some tags
                else if wantTextFrame frameID major \<and> fsize < 4096 then
                  (if fend > int (length buf) then Some tags
                   else case slice buf pos' fend of
                          None \<Rightarrow> None
                        | Some data \<Rightarrow>
                            parseFrames major rawTagSize buf fend
                              (applyTag tags frameID (decodeTextFrame data)))
                else if fend > int (length buf) then Some tags
                else parseFrames major rawTagSize buf fend tags))"
  by pat_completeness auto
termination
  by (relation "measure (\<lambda>(major, raw, buf, pos, tags). nat (int (length buf) - pos))")
     (auto simp: frameHdrLen_def split: if_splits)

declare parseFrames.simps [simp del]

definition parseID3v2Frames :: "bytes \<Rightarrow> byte \<Rightarrow> int \<Rightarrow> byte \<Rightarrow> id3Tags option" where
  "parseID3v2Frames buf major rawTagSize flags =
     parseFrames major rawTagSize buf (extHeaderEnd buf major flags) noTags"

text \<open>
  \<open>readID3v2\<close> on the contents of a file: a panic is \<^const>\<open>None\<close>, otherwise the tags and the
  flag that a header was found.
\<close>

definition readID3v2 :: "bytes \<Rightarrow> (id3Tags \<times> bool) option" where
  "readID3v2 r =
     (let buf = take id3ReadCap r; n = length buf in
      if n < 10 then Some (noTags, False)
      else if buf ! 0 \<noteq> 73 \<or> buf ! 1 \<noteq> 68 \<or> buf ! 2 \<noteq> 51 then Some (noTags, False)
      else let major = buf ! 3 in
        if major < 2 \<or> major > 4 then Some (noTags, False)
        else let rawTagSize = syncsafe (buf ! 6) (buf ! 7) (buf ! 8) (buf ! 9);
                 body = drop 10 buf;
                 body' = (if int (length body) > rawTagSize
                          then take (nat rawTagSize) body else body) in
          map_option (\<lambda>tags. (tags\<lparr>id3_tagSize := 10 + rawTagSize\<rparr>, True))
            (parseID3v2Frames body' major rawTagSize (buf ! 5)))"

section \<open>Lyrics\<close>

fun skip16 :: "bytes \<Rightarrow> bytes" where
  "skip16 (a # b # r) = (if a = 0 \<and> b = 0 then r else skip16 r)"
| "skip16 _ = []"

fun skip8 :: "bytes \<Rightarrow> bytes" where
  "skip8 (b # r) = (if b = 0 then r else skip8 r)"
| "skip8 [] = []"

definition skipNullTerminated :: "bytes \<Rightarrow> byte \<Rightarrow> bytes" where
  "skipNullTerminated data encoding =
     (if encoding = 1 \<or> encoding = 2 then skip16 data else skip8 data)"

fun upto16 :: "bytes \<Rightarrow> (bytes \<times> bytes) option" where
  "upto16 (a # b # r) =
     (if a = 0 \<and> b = 0 then Some ([], r)
      else map_option (\<lambda>(x, y). (a # b # x, y)) (upto16 r))"
| "upto16 _ = None"

fun upto8 :: "bytes \<Rightarrow> (bytes \<times> bytes) option" where
  "upto8 (b # r) =
     (if b = 0 then Some ([], r) else map_option (\<lambda>(x, y). (b # x, y)) (upto8 r))"
| "upto8 [] = None"

text \<open>The text before the terminator and the data after it; \<^const>\<open>None\<close> if there is none.\<close>

definition readNullTerminated :: "bytes \<Rightarrow> byte \<Rightarrow> (string \<times> bytes) option" where
  "readNullTerminated data encoding =
     (if encoding = 1 \<or> encoding = 2
      then map_option (\<lambda>(x, y). (decodeByEncoding x encoding, y)) (upto16 data)
      else map_option (\<lambda>(x, y). (strOf x, y)) (upto8 data))"

definition splitLyricLines :: "string \<Rightarrow> LyricLine list" where
  "splitLyricLines text =
     map (\<lambda>l. \<lparr>ll_Start = - 1, ll_Value = trimRight l (chars [13])\<rparr>) (splitOn (char_of (10 :: nat)) text)"

definition parseUSLT :: "bytes \<Rightarrow> LyricFrame option" where
  "parseUSLT data =
     (if length data < 5 then None
      else let encoding = data ! 0;
               lang = strOf (take 3 (drop 1 data));
               rest = skipNullTerminated (drop 4 data) encoding;
               text = trimNull (decodeByEncoding rest encoding) in
        if text = [] then None
        else Some \<lparr>lf_Lang = lang, lf_Synced = False, lf_Lines = splitLyricLines text\<rparr>)"

lemma upto16_shorter: "upto16 d = Some (x, y) \<Longrightarrow> length y < length d"
  by (induction d arbitrary: x y rule: upto16.induct) (fastforce split: if_splits)+

lemma upto8_shorter: "upto8 d = Some (x, y) \<Longrightarrow> length y < length d"
  by (induction d arbitrary: x y rule: upto8.induct) (fastforce split: if_splits)+

lemma readNullTerminated_shorter:
  "readNullTerminated d e = Some (t, y) \<Longrightarrow> length y < length d"
  by (auto simp: readNullTerminated_def split: if_splits dest: upto16_shorter upto8_shorter)

function syltLines :: "byte \<Rightarrow> byte \<Rightarrow> bytes \<Rightarrow> LyricLine list" where
  "syltLines tsFormat encoding rest =
     (if rest = [] then []
      else case readNullTerminated rest encoding of
             None \<Rightarrow> []
           | Some (text, remainder) \<Rightarrow>
               (if length remainder < 4 then []
                else let ts = int (beNat (take 4 remainder));
                         ms = (if tsFormat = 1 then ts * 26 else ts) in
                  \<lparr>ll_Start = ms, ll_Value = trimNull text\<rparr>
                    # syltLines tsFormat encoding (drop 4 remainder)))"
  by pat_completeness auto
termination
  by (relation "measure (\<lambda>(ts, e, rest). length rest)")
     (auto dest!: readNullTerminated_shorter)

declare syltLines.simps [simp del]

definition parseSYLT :: "bytes \<Rightarrow> LyricFrame option" where
  "parseSYLT data =
     (if length data < 7 then None
      else let encoding = data ! 0;
               lang = strOf (take 3 (drop 1 data));
               tsFormat = data ! 4;
               rest = skipNullTerminated (drop 6 data) encoding;
               lines = syltLines tsFormat encoding rest in
        if lines = [] then None
        else Some \<lparr>lf_Lang = lang, lf_Synced = True, lf_Lines = lines\<rparr>)"

definition lyricsOf :: "LyricFrame list \<Rightarrow> string \<Rightarrow> bytes \<Rightarrow> LyricFrame list" where
  "lyricsOf frames frameID data =
     (if frameID \<in> {''USLT'', ''ULT''} then
        (case parseUSLT data of Some f \<Rightarrow> frames @ [f] | None \<Rightarrow> frames)
      else if frameID \<in> {''SYLT'', ''SLT''} then
        (case parseSYLT data of Some f \<Rightarrow> frames @ [f] | None \<Rightarrow> frames)
      else frames)"

function lyricsLoop :: "byte \<Rightarrow> int \<Rightarrow> bytes \<Rightarrow> int \<Rightarrow> LyricFrame list \<Rightarrow> LyricFrame list option" where
  "lyricsLoop major rawTagSize buf pos frames =
     (if pos \<ge> rawTagSize then Some frames
      else if pos + frameHdrLen major > int (length buf) then Some frames
      else case slice buf pos (pos + frameHdrLen major) of
             None \<Rightarrow> None
           | Some hdrBuf \<Rightarrow>
               (let pos' = pos + frameHdrLen major;
                    frameID = strOf (take (frameIDLen major) hdrBuf);
                    fsize = frameSize major hdrBuf;
                    fend = pos' + fsize in
                if hdrBuf ! 0 = 0 then Some frames
                else if fsize \<le> 0 then Some frames
                else if fend > int (length buf) then Some frames
                else case slice buf pos' fend of
                       None \<Rightarrow> None
                     | Some data \<Rightarrow>
                         lyricsLoop major rawTagSize buf fend (lyricsOf frames frameID data)))"
  by pat_completeness auto
termination
  by (relation "measure (\<lambda>(major, raw, buf, pos, frames). nat (int (length buf) - pos))")
     (auto simp: frameHdrLen_def split: if_splits)

declare lyricsLoop.simps [simp del]

definition parseLyricsFrames :: "bytes \<Rightarrow> byte \<Rightarrow> int \<Rightarrow> byte \<Rightarrow> LyricFrame list option" where
  "parseLyricsFrames buf major rawTagSize flags =
     lyricsLoop major rawTagSize buf (extHeaderEnd buf major flags) []"

definition ReadID3v2Lyrics :: "bytes \<Rightarrow> (io_error + LyricFrame list) option" where
  "ReadID3v2Lyrics r =
     (case readFull 10 r of
        Inl e \<Rightarrow> Some (Inl e)
      | Inr hdr \<Rightarrow>
          (if hdr ! 0 \<noteq> 73 \<or> hdr ! 1 \<noteq> 68 \<or> hdr ! 2 \<noteq> 51 then Some (Inr [])
           else let major = hdr ! 3 in
             if major < 2 \<or> major > 4 then Some (Inr [])
             else let rawTagSize = syncsafe (hdr ! 6) (hdr ! 7) (hdr ! 8) (hdr ! 9);
                      readSize = (if rawTagSize > lyricsReadCap then lyricsReadCap
                                  else rawTagSize);
                      body = take (nat readSize) (drop 10 r) in
               map_option Inr (parseLyricsFrames body major rawTagSize (hdr ! 5))))"

end
