(* ===== verification/ID3_Facts.thy ===== *)
theory ID3_Facts
  imports ID3
begin

unbundle bit_operations_syntax

text \<open>
  What the two ID3v2 loops have in common, as the contract of a frame walker: where it stops and
  what one step does. Totality (no panic, for any bytes) and the reading back of an encoded frame
  list are proved once in the locale; both loops of the source are interpretations of it.
\<close>

section \<open>Sizes\<close>

lemma syncsafe_bound: "0 \<le> syncsafe a b c d \<and> syncsafe a b c d < 2 ^ 29"
proof -
  have d: "0 \<le> uint d \<and> uint d < 2 ^ 29"
    using uint_byte_less [of d] by (simp del: uint_byte_less)
  have a: "0 \<le> push_bit 21 (uint a) \<and> push_bit 21 (uint a) < 2 ^ 29"
    and b: "0 \<le> push_bit 14 (uint b) \<and> push_bit 14 (uint b) < 2 ^ 29"
    and c: "0 \<le> push_bit 7 (uint c) \<and> push_bit 7 (uint c) < 2 ^ 29"
    by (rule push_byte_bound; simp)+
  from c d have cd: "0 \<le> push_bit 7 (uint c) OR uint d
      \<and> push_bit 7 (uint c) OR uint d < 2 ^ 29"
    by (intro or_int_bound) blast+
  with b have "0 \<le> push_bit 14 (uint b) OR (push_bit 7 (uint c) OR uint d)
      \<and> push_bit 14 (uint b) OR (push_bit 7 (uint c) OR uint d) < 2 ^ 29"
    by (intro or_int_bound) blast+
  with a show ?thesis
    unfolding syncsafe_def by (intro or_int_bound) blast+
qed

lemma syncsafe_small:
  assumes "uint b < 128" "uint c < 128" "uint d < 128"
  shows "syncsafe a b c d = uint a * 2 ^ 21 + uint b * 2 ^ 14 + uint c * 2 ^ 7 + uint d"
proof -
  have "push_bit 7 (uint c) OR uint d = uint c * 2 ^ 7 + uint d"
    using assms by (simp add: or_disjoint) (simp add: push_bit_eq_mult)
  moreover have "push_bit 14 (uint b) OR (uint c * 2 ^ 7 + uint d)
      = uint b * 2 ^ 14 + (uint c * 2 ^ 7 + uint d)"
    using assms by (subst or_disjoint) (simp_all add: push_bit_eq_mult)
  moreover have "push_bit 21 (uint a) OR (uint b * 2 ^ 14 + (uint c * 2 ^ 7 + uint d))
      = uint a * 2 ^ 21 + (uint b * 2 ^ 14 + (uint c * 2 ^ 7 + uint d))"
    using assms by (subst or_disjoint) (simp_all add: push_bit_eq_mult)
  ultimately show ?thesis
    by (simp add: syncsafe_def or.assoc)
qed

lemma extHeaderEnd_nonneg: "0 \<le> extHeaderEnd buf major flags"
  using syncsafe_bound by (simp add: extHeaderEnd_def)

lemma frameHdrLen_pos [simp]: "0 < frameHdrLen major"
  by (simp add: frameHdrLen_def frameIDLen_def)

section \<open>The frame walker\<close>

locale frame_walk =
  fixes loop :: "byte \<Rightarrow> int \<Rightarrow> bytes \<Rightarrow> int \<Rightarrow> 'acc \<Rightarrow> 'acc option"
    and handle :: "byte \<Rightarrow> 'acc \<Rightarrow> string \<Rightarrow> bytes \<Rightarrow> 'acc"
  assumes stop_tag: "raw \<le> pos \<Longrightarrow> loop major raw buf pos acc = Some acc"
    and stop_buf: "int (length buf) < pos + frameHdrLen major \<Longrightarrow>
      loop major raw buf pos acc = Some acc"
    and stop_frame: "slice buf pos (pos + frameHdrLen major) = Some h \<Longrightarrow>
      h ! 0 = 0 \<or> frameSize major h \<le> 0
        \<or> int (length buf) < pos + frameHdrLen major + frameSize major h \<Longrightarrow>
      loop major raw buf pos acc = Some acc"
    and walk: "pos < raw \<Longrightarrow> slice buf pos (pos + frameHdrLen major) = Some h \<Longrightarrow>
      h ! 0 \<noteq> 0 \<Longrightarrow> 0 < frameSize major h \<Longrightarrow>
      slice buf (pos + frameHdrLen major) (pos + frameHdrLen major + frameSize major h) = Some data
      \<Longrightarrow> loop major raw buf pos acc
        = loop major raw buf (pos + frameHdrLen major + frameSize major h)
            (handle major acc (strOf (take (frameIDLen major) h)) data)"
begin

lemma total: "0 \<le> pos \<Longrightarrow> \<exists>acc'. loop major raw buf pos acc = Some acc'"
proof (induction "nat (int (length buf) - pos)" arbitrary: pos acc rule: less_induct)
  case less
  let ?p = "pos + frameHdrLen major"
  show ?case
  proof (cases "raw \<le> pos \<or> int (length buf) < ?p")
    case True
    then show ?thesis using stop_tag stop_buf by blast
  next
    case False
    have hl: "0 < frameHdrLen major" by simp
    with less.prems False obtain h where h: "slice buf pos ?p = Some h"
      by (fastforce simp: slice_Some)
    show ?thesis
    proof (cases "h ! 0 = 0 \<or> frameSize major h \<le> 0
        \<or> int (length buf) < ?p + frameSize major h")
      case True
      then show ?thesis using stop_frame [OF h] by blast
    next
      case go: False
      with hl less.prems obtain d where d: "slice buf ?p (?p + frameSize major h) = Some d"
        by (fastforce simp: slice_Some)
      have "\<exists>acc'. loop major raw buf (?p + frameSize major h)
          (handle major acc (strOf (take (frameIDLen major) h)) d) = Some acc'"
      proof (rule less.hyps)
        from go hl have "pos < ?p + frameSize major h" by linarith
        with go show "nat (int (length buf) - (?p + frameSize major h)) < nat (int (length buf) - pos)"
          by linarith
        from go hl less.prems show "0 \<le> ?p + frameSize major h" by linarith
      qed
      with walk [OF _ h _ _ d] False go show ?thesis by simp
    qed
  qed
qed

end

section \<open>Encoding a frame\<close>

text \<open>
  The frames a tagger writes: identifier, size, two flag bytes (none in ID3v2.2) and a non-empty
  body; sizes are big endian, and in ID3v2.4 seven bits to the byte.
\<close>

definition encSize :: "byte \<Rightarrow> nat \<Rightarrow> bytes" where
  "encSize major n =
     (if major = 2 then beBytes 3 n
      else if major = 4 then
        map of_nat [n div 2 ^ 21 mod 128, n div 2 ^ 14 mod 128, n div 2 ^ 7 mod 128, n mod 128]
      else beBytes 4 n)"

definition encHdr :: "byte \<Rightarrow> string \<Rightarrow> nat \<Rightarrow> bytes" where
  "encHdr major fid n =
     bytesOf fid @ encSize major n @ (if major = 2 then [] else [0, 0])"

fun encFrame :: "byte \<Rightarrow> string \<times> bytes \<Rightarrow> bytes" where
  "encFrame major (fid, data) = encHdr major fid (length data) @ data"

fun frameOK :: "byte \<Rightarrow> string \<times> bytes \<Rightarrow> bool" where
  "frameOK major (fid, data) \<longleftrightarrow>
     length fid = frameIDLen major \<and> of_char (hd fid) \<noteq> (0 :: nat) \<and>
     data \<noteq> [] \<and> length data < 2 ^ 24"

lemma length_encHdr:
  "length fid = frameIDLen major \<Longrightarrow> int (length (encHdr major fid n)) = frameHdrLen major"
  by (simp add: encHdr_def encSize_def frameHdrLen_def)

lemma encHdr_id:
  "length fid = frameIDLen major \<Longrightarrow> strOf (take (frameIDLen major) (encHdr major fid n)) = fid"
  by (simp add: encHdr_def)

lemma encHdr_nonzero:
  assumes "length fid = frameIDLen major" "of_char (hd fid) \<noteq> (0 :: nat)"
  shows "encHdr major fid n ! 0 \<noteq> 0"
proof -
  from assms(1) obtain c cs where fid: "fid = c # cs"
    by (cases fid) (auto simp: frameIDLen_def split: if_splits)
  have "(of_nat (of_char c) :: byte) \<noteq> 0"
  proof
    assume "(of_nat (of_char c) :: byte) = 0"
    then have "unat (of_nat (of_char c) :: byte) = 0" by simp
    then show False using assms(2) fid by (simp add: unat_of_nat take_bit_eq_mod)
  qed
  then show ?thesis by (simp add: fid encHdr_def bytesOf_def)
qed

lemma digits3:
  fixes n :: nat
  assumes "n < b * b * b"
  shows "n div b div b mod b * (b * b) + n div b mod b * b + n mod b = n"
proof -
  have "n div b div b < b"
    using assms by (simp add: less_mult_imp_div_less mult.commute mult.left_commute)
  then have "n div b div b mod b * (b * b) + n div b mod b * b
      = (n div b div b * b + n div b mod b) * b"
    by (simp only: mod_less distrib_right mult.assoc)
  also have "\<dots> = n div b * b"
    by (simp only: div_mult_mod_eq)
  finally show ?thesis
    by simp
qed

lemma digits4:
  fixes n :: nat
  assumes "n < b * b * b * b"
  shows "n div b div b div b mod b * (b * b * b) + n div b div b mod b * (b * b)
    + n div b mod b * b + n mod b = n"
proof -
  have "n div b < b * b * b"
    using assms by (simp add: less_mult_imp_div_less mult.commute mult.left_commute)
  then have "n div b div b div b mod b * (b * b) + n div b div b mod b * b + n div b mod b = n div b"
    by (rule digits3)
  then have "(n div b div b div b mod b * (b * b) + n div b div b mod b * b + n div b mod b) * b
      + n mod b = n"
    by (simp only: div_mult_mod_eq)
  then show ?thesis
    by (simp only: distrib_right mult.assoc)
qed

lemma frameSize_encHdr_v2:
  assumes "length fid = 3" "n < 2 ^ 24"
  shows "frameSize 2 (encHdr 2 fid n) = int n"
proof -
  let ?e = "beBytes 3 n"
  have nth: "encHdr 2 fid n ! 3 = ?e ! 0" "encHdr 2 fid n ! 4 = ?e ! 1" "encHdr 2 fid n ! 5 = ?e ! 2"
    using assms(1) by (simp_all add: encHdr_def encSize_def nth_append)
  have e: "?e = [of_nat (n div 256 div 256), of_nat (n div 256), of_nat n]"
    by (simp add: beBytes_def numeral_3_eq_3)
  have lo: "push_bit 8 (uint x) OR uint y = uint x * 256 + uint y" for x y :: byte
    by (subst or_disjoint) (simp_all add: push_bit_eq_mult)
  have hi: "push_bit 16 (uint w) OR (uint x * 256 + uint y)
      = uint w * 65536 + (uint x * 256 + uint y)" for w x y :: byte
    using uint_byte_less [of x] uint_byte_less [of y]
    by (subst or_disjoint) (simp_all add: push_bit_eq_mult del: uint_byte_less)
  have "frameSize 2 (encHdr 2 fid n)
      = uint (?e ! 0) * 65536 + (uint (?e ! 1) * 256 + uint (?e ! 2))"
    unfolding frameSize_def nth by (simp add: or.assoc lo hi)
  also have "\<dots> = int (n div 256 div 256 mod 256 * (256 * 256) + n div 256 mod 256 * 256 + n mod 256)"
    unfolding e by (simp add: uint_of_nat_byte)
  also have "\<dots> = int n"
    using digits3 [of n 256] assms(2) by simp
  finally show ?thesis .
qed

lemma syncsafe_encSize:
  assumes "n < 2 ^ 28"
  shows "syncsafe (encSize 4 n ! 0) (encSize 4 n ! 1) (encSize 4 n ! 2) (encSize 4 n ! 3) = int n"
proof -
  have e: "encSize 4 n = [of_nat (n div 128 div 128 div 128 mod 128),
      of_nat (n div 128 div 128 mod 128), of_nat (n div 128 mod 128), of_nat (n mod 128)]"
    by (simp add: encSize_def div_mult2_eq [symmetric])
  have u: "uint (of_nat (k mod 128) :: byte) = int (k mod 128)" for k :: nat
  proof -
    have "k mod 128 mod 256 = k mod 128" by (rule mod_less) (simp add: less_trans [of _ 128])
    then show ?thesis by (simp only: uint_of_nat_byte)
  qed
  have l: "int (k mod 128) < 128" for k :: nat
    by (simp add: nat_less_iff)
  have "syncsafe (encSize 4 n ! 0) (encSize 4 n ! 1) (encSize 4 n ! 2) (encSize 4 n ! 3)
      = syncsafe (of_nat (n div 128 div 128 div 128 mod 128)) (of_nat (n div 128 div 128 mod 128))
          (of_nat (n div 128 mod 128)) (of_nat (n mod 128))"
    by (simp add: e)
  also have "\<dots> = int (n div 128 div 128 div 128 mod 128) * 2 ^ 21
      + int (n div 128 div 128 mod 128) * 2 ^ 14 + int (n div 128 mod 128) * 2 ^ 7 + int (n mod 128)"
    by (subst syncsafe_small) (simp_all only: u l)
  also have "\<dots> = int (n div 128 div 128 div 128 mod 128 * (128 * 128 * 128)
      + n div 128 div 128 mod 128 * (128 * 128) + n div 128 mod 128 * 128 + n mod 128)"
    by simp
  also have "\<dots> = int n"
    using digits4 [of n 128] assms by simp
  finally show ?thesis .
qed

lemma length_encSize_4 [simp]: "length (encSize 4 n) = 4"
  by (simp add: encSize_def)

lemma frameSize_encHdr_v4:
  assumes "length fid = 4" "n < 2 ^ 28"
  shows "frameSize 4 (encHdr 4 fid n) = int n"
proof -
  have nth: "encHdr 4 fid n ! (4 + i) = encSize 4 n ! i" if "i < 4" for i
    using assms(1) that by (simp add: encHdr_def nth_append)
  show ?thesis
    using syncsafe_encSize [OF assms(2)] nth [of 0] nth [of 1] nth [of 2] nth [of 3]
    by (simp add: frameSize_def)
qed

lemma frameSize_encHdr_v3:
  assumes "length fid = 4" "n < 2 ^ 32" "major \<noteq> 2" "major \<noteq> 4"
  shows "frameSize major (encHdr major fid n) = int n"
  using assms by (simp add: frameSize_def encHdr_def encSize_def frameIDLen_def beNat_beBytes)

lemma frameSize_encHdr:
  assumes "frameOK major (fid, data)"
  shows "frameSize major (encHdr major fid (length data)) = int (length data)"
  using assms frameSize_encHdr_v2 [of fid "length data"] frameSize_encHdr_v4 [of fid "length data"]
    frameSize_encHdr_v3 [of fid "length data" major]
  by (auto simp: frameIDLen_def split: if_splits)

section \<open>Reading encoded frames back\<close>

context frame_walk
begin

lemma walk_padding:
  assumes "p = int (length pre)"
  shows "loop major raw (pre @ replicate k 0) p acc = Some acc"
proof (cases "int (length pre) + frameHdrLen major \<le> int (length pre + k)")
  case True
  let ?h = "take (nat (frameHdrLen major)) (replicate k (0 :: byte))"
  have "slice (pre @ replicate k 0) (int (length pre)) (int (length pre) + frameHdrLen major) = Some ?h"
    using True by (simp add: slice_Some less_imp_le)
  moreover have "?h ! 0 = 0"
    using True frameHdrLen_pos [of major] by (simp del: frameHdrLen_pos)
  ultimately show ?thesis
    using assms stop_frame by blast
next
  case False
  then show ?thesis
    using assms by (intro stop_buf) simp
qed

lemma walk_one:
  assumes "frameOK major (fid, data)" "p = int (length pre)" "p < raw"
  shows "loop major raw (pre @ encFrame major (fid, data) @ post) p acc
    = loop major raw (pre @ encFrame major (fid, data) @ post)
        (int (length (pre @ encFrame major (fid, data)))) (handle major acc fid data)"
proof -
  let ?h = "encHdr major fid (length data)"
  let ?buf = "pre @ ?h @ data @ post"
  from assms(1) have id: "length fid = frameIDLen major" and nz: "of_char (hd fid) \<noteq> (0 :: nat)"
    and ne: "data \<noteq> []"
    by simp_all
  have hl: "frameHdrLen major = int (length ?h)"
    using length_encHdr [OF id] by simp
  have fs: "frameSize major ?h = int (length data)"
    using assms(1) by (rule frameSize_encHdr)
  have h: "slice ?buf p (p + frameHdrLen major) = Some ?h"
    by (simp add: slice_Some assms(2) hl)
  have d: "slice ?buf (p + frameHdrLen major) (p + frameHdrLen major + frameSize major ?h)
      = Some data"
    by (simp add: slice_Some assms(2) hl fs flip: of_nat_add)
  have "loop major raw ?buf p acc
      = loop major raw ?buf (p + frameHdrLen major + frameSize major ?h) (handle major acc fid data)"
    using walk [OF assms(3) h encHdr_nonzero [OF id nz] _ d] ne by (simp add: fs encHdr_id [OF id])
  then show ?thesis
    by (simp add: assms(2) hl fs add.assoc)
qed

text \<open>A frame that the end of the buffer cuts off ends the walk.\<close>

lemma walk_cut:
  assumes "frameOK major g" "m < length (encFrame major g)"
  shows "loop major raw (pre @ take m (encFrame major g)) (int (length pre)) acc = Some acc"
proof -
  obtain fid data where g: "g = (fid, data)" by fastforce
  let ?h = "encHdr major fid (length data)"
  let ?buf = "pre @ take m (encFrame major g)"
  have id: "length fid = frameIDLen major" and fs: "frameSize major ?h = int (length data)"
    using assms(1) frameSize_encHdr [of major fid data] by (simp_all add: g)
  have hl: "frameHdrLen major = int (length ?h)"
    using length_encHdr [OF id] by simp
  show ?thesis
  proof (cases "m < length ?h")
    case True
    then show ?thesis by (intro stop_buf) (simp add: hl g)
  next
    case False
    then have "slice ?buf (int (length pre)) (int (length pre) + frameHdrLen major) = Some ?h"
      by (simp add: slice_Some hl g)
    moreover have "int (length ?buf) < int (length pre) + frameHdrLen major + frameSize major ?h"
      using assms(2) by (simp add: hl fs g)
    ultimately show ?thesis
      using stop_frame by blast
  qed
qed

lemma walk_until:
  assumes "\<forall>f \<in> set fs. frameOK major f"
    and "int (length (concat (map (encFrame major) fs))) \<le> raw"
    and stop: "\<And>acc. loop major raw (concat (map (encFrame major) fs) @ post)
      (int (length (concat (map (encFrame major) fs)))) acc = Some acc"
  shows "loop major raw (concat (map (encFrame major) fs) @ post) 0 acc
    = Some (foldl (\<lambda>a (fid, data). handle major a fid data) acc fs)"
proof -
  let ?all = "concat (map (encFrame major) fs) @ post"
  have "loop major raw ?all (int (length pre)) acc
      = Some (foldl (\<lambda>a (fid, data). handle major a fid data) acc todo)"
    if "?all = pre @ concat (map (encFrame major) todo) @ post"
      and "\<forall>f \<in> set todo. frameOK major f"
      and "int (length (pre @ concat (map (encFrame major) todo))) \<le> raw"
    for pre todo acc
    using that
  proof (induction todo arbitrary: pre acc)
    case Nil
    then have "pre = concat (map (encFrame major) fs)" by simp
    then show ?case using stop by simp
  next
    case (Cons f todo)
    obtain fid data where f: "f = (fid, data)" by fastforce
    have ok: "frameOK major (fid, data)" using Cons.prems(2) f by simp
    then have "0 < int (length data)" by simp
    moreover have "int (length pre) + int (length data) \<le> raw"
      using Cons.prems(3) by (simp add: f)
    ultimately have lt: "int (length pre) < raw" by linarith
    have "loop major raw ?all (int (length pre)) acc
        = loop major raw ?all (int (length (pre @ encFrame major f))) (handle major acc fid data)"
      using walk_one [OF ok refl lt, of "concat (map (encFrame major) todo) @ post" acc] Cons.prems(1)
      by (simp add: f)
    also have "\<dots> = Some (foldl (\<lambda>a (fid, data). handle major a fid data) (handle major acc fid data) todo)"
      using Cons.prems by (intro Cons.IH) simp_all
    finally show ?case by (simp add: f)
  qed
  from this [of "[]" fs] show ?thesis
    using assms by simp
qed

end

section \<open>The two loops of the source\<close>

definition textFrame :: "byte \<Rightarrow> id3Tags \<Rightarrow> string \<Rightarrow> bytes \<Rightarrow> id3Tags" where
  "textFrame major tags fid data =
     (if wantTextFrame fid major \<and> length data < 4096
      then applyTag tags fid (decodeTextFrame data) else tags)"

interpretation tags: frame_walk parseFrames textFrame
proof (unfold_locales, goal_cases)
  case (1 raw pos major buf acc)
  then show ?case by (subst parseFrames.simps) simp
next
  case (2 buf pos major raw acc)
  then show ?case by (subst parseFrames.simps) simp
next
  case (3 buf pos major h raw acc)
  then show ?case by (subst parseFrames.simps) (auto simp: Let_def)
next
  case (4 pos raw buf major h data acc)
  have "int (length data) = frameSize major h"
    using length_slice [OF 4(5)] by simp
  moreover have "pos + frameHdrLen major + frameSize major h \<le> int (length buf)"
    using 4(5) by (simp add: slice_Some)
  moreover have "pos + frameHdrLen major \<le> int (length buf)"
    using 4(2) by (simp add: slice_Some)
  ultimately show ?case
    using 4 by (subst parseFrames.simps) (auto simp: Let_def textFrame_def)
qed

interpretation lyrics: frame_walk lyricsLoop "\<lambda>_. lyricsOf"
proof (unfold_locales, goal_cases)
  case (1 raw pos major buf acc)
  then show ?case by (subst lyricsLoop.simps) simp
next
  case (2 buf pos major raw acc)
  then show ?case by (subst lyricsLoop.simps) simp
next
  case (3 buf pos major h raw acc)
  then show ?case by (subst lyricsLoop.simps) (auto simp: Let_def)
next
  case (4 pos raw buf major h data acc)
  have "pos + frameHdrLen major + frameSize major h \<le> int (length buf)"
    using 4(5) by (simp add: slice_Some)
  moreover have "pos + frameHdrLen major \<le> int (length buf)"
    using 4(2) by (simp add: slice_Some)
  ultimately show ?case
    using 4 by (subst lyricsLoop.simps) (auto simp: Let_def)
qed

section \<open>Whole tags\<close>

definition encTagHeader :: "byte \<Rightarrow> nat \<Rightarrow> bytes" where
  "encTagHeader major sz = [73, 68, 51, major, 0, 0] @ encSize 4 sz"

lemma encTagHeader_simps:
  "length (encTagHeader major sz) = 10"
  "encTagHeader major sz ! 0 = 73" "encTagHeader major sz ! 1 = 68"
  "encTagHeader major sz ! 2 = 51" "encTagHeader major sz ! 3 = major"
  "encTagHeader major sz ! 5 = 0"
  by (simp_all add: encTagHeader_def)

lemma encTagHeader_size:
  "sz < 2 ^ 28 \<Longrightarrow> syncsafe (encTagHeader major sz ! 6) (encTagHeader major sz ! 7)
     (encTagHeader major sz ! 8) (encTagHeader major sz ! 9) = int sz"
  using syncsafe_encSize [of sz] by (simp add: encTagHeader_def nth_append)

lemma readID3v2_header:
  assumes "sz < 2 ^ 28" "2 \<le> major" "major \<le> 4"
  shows "readID3v2 (encTagHeader major sz @ rest)
    = map_option (\<lambda>t. (t\<lparr>id3_tagSize := 10 + int sz\<rparr>, True))
        (parseID3v2Frames (take (min sz 4096) rest) major (int sz) 0)"
proof -
  let ?h = "encTagHeader major sz"
  let ?buf = "?h @ take 4096 rest"
  have cap: "take id3ReadCap (?h @ rest) = ?buf"
    by (simp add: id3ReadCap_def encTagHeader_simps)
  have nth: "?buf ! i = ?h ! i" if "i < 10" for i
    using that by (simp add: nth_append encTagHeader_simps)
  have fields: "?buf ! 0 = 73" "?buf ! 1 = 68" "?buf ! 2 = 51" "?buf ! 3 = major" "?buf ! 5 = 0"
    by (simp_all add: nth encTagHeader_simps del: One_nat_def)
  have sz: "syncsafe (?buf ! 6) (?buf ! 7) (?buf ! 8) (?buf ! 9) = int sz"
    by (simp add: nth encTagHeader_size [OF assms(1)])
  have body: "(if int sz < int (length (take 4096 rest)) then take (nat (int sz)) (take 4096 rest)
      else take 4096 rest) = take (min sz 4096) rest"
    by (auto simp: min_def)
  have d: "drop 10 ?buf = take 4096 rest" and l: "\<not> length ?buf < 10"
    by (simp_all add: encTagHeader_simps)
  have v: "\<not> (major < 2 \<or> 4 < major)"
    using assms by auto
  show ?thesis
    unfolding readID3v2_def Let_def cap d fields sz body using l v
    by (simp del: One_nat_def)
qed

lemma no_extHeader [simp]: "extHeaderEnd buf major 0 = 0"
  by (simp add: extHeaderEnd_def)

lemma frames_total: "\<exists>t. parseID3v2Frames buf major raw flags = Some t"
  unfolding parseID3v2Frames_def by (rule tags.total) (rule extHeaderEnd_nonneg)

lemma parseFrames_padded:
  assumes "\<forall>f \<in> set fs. frameOK major f"
    and "int (length (concat (map (encFrame major) fs))) \<le> raw"
  shows "parseID3v2Frames (concat (map (encFrame major) fs) @ replicate k 0) major raw 0
    = Some (foldl (\<lambda>t (fid, data). textFrame major t fid data) noTags fs)"
  unfolding parseID3v2Frames_def no_extHeader
  using assms by (rule tags.walk_until) (rule tags.walk_padding, simp)

lemma parseFrames_cut:
  assumes "\<forall>f \<in> set fs. frameOK major f"
    and "int (length (concat (map (encFrame major) fs))) \<le> raw"
    and "frameOK major g" "m < length (encFrame major g)"
  shows "parseID3v2Frames (concat (map (encFrame major) fs) @ take m (encFrame major g)) major raw 0
    = Some (foldl (\<lambda>t (fid, data). textFrame major t fid data) noTags fs)"
  unfolding parseID3v2Frames_def no_extHeader
  using assms(1,2) by (rule tags.walk_until) (rule tags.walk_cut [OF assms(3,4)])

lemma lyrics_padded:
  assumes "\<forall>f \<in> set fs. frameOK major f"
    and "int (length (concat (map (encFrame major) fs))) \<le> raw"
  shows "parseLyricsFrames (concat (map (encFrame major) fs) @ replicate k 0) major raw 0
    = Some (foldl (\<lambda>l (fid, data). lyricsOf l fid data) [] fs)"
  unfolding parseLyricsFrames_def no_extHeader
  using assms by (rule lyrics.walk_until) (rule lyrics.walk_padding, simp)

section \<open>Properties of the tag reader\<close>

text \<open>
  For every file contents the tag reader returns (no slice or index is out of range),
  the size it reports is below \<open>2^29 + 10\<close>, and a header was found exactly when that size
  includes the ten header bytes, so the audio offset handed to the duration parser is either 0
  or past the header.
\<close>

theorem readID3v2_total:
  "\<exists>t ok. readID3v2 r = Some (t, ok) \<and> 0 \<le> id3_tagSize t \<and> id3_tagSize t < 2 ^ 29 + 10
     \<and> (ok \<longleftrightarrow> 10 \<le> id3_tagSize t)"
proof -
  let ?b = "take id3ReadCap r"
  let ?raw = "syncsafe (?b ! 6) (?b ! 7) (?b ! 8) (?b ! 9)"
  let ?body = "if int (length (drop 10 ?b)) > ?raw then take (nat ?raw) (drop 10 ?b) else drop 10 ?b"
  obtain t where "parseID3v2Frames ?body (?b ! 3) ?raw (?b ! 5) = Some t"
    using frames_total by blast
  then show ?thesis
    using syncsafe_bound [of "?b ! 6" "?b ! 7" "?b ! 8" "?b ! 9"]
    by (auto simp: readID3v2_def Let_def noTags_def)
qed



text \<open>
  The read cap loses nothing that precedes it: when frames that fit in the first 4096
  bytes of the tag body are followed by a frame that runs past them (album art, up to 16 MB), the
  reader still returns all the texts before it and the full size of the tag.
\<close>

theorem readID3v2_before_picture:
  assumes "2 \<le> major" "major \<le> 4"
    and ok: "\<forall>f \<in> set fs. frameOK major f" and g: "frameOK major g"
    and before: "length (concat (map (encFrame major) fs)) \<le> 4096"
    and cut: "4096 < length (concat (map (encFrame major) fs)) + length (encFrame major g)"
    and sz: "length (concat (map (encFrame major) fs)) + length (encFrame major g) \<le> sz" "sz < 2 ^ 28"
  shows "readID3v2 (encTagHeader major sz @ concat (map (encFrame major) fs) @ encFrame major g @ rest)
    = Some ((foldl (\<lambda>t (fid, data). textFrame major t fid data) noTags fs)
              \<lparr>id3_tagSize := 10 + int sz\<rparr>, True)"
proof -
  let ?fs = "concat (map (encFrame major) fs)"
  have "take (min sz 4096) (?fs @ encFrame major g @ rest)
      = ?fs @ take (4096 - length ?fs) (encFrame major g)"
    using before cut sz by simp
  then show ?thesis
    using assms parseFrames_cut [OF ok _ g, of "int sz" "4096 - length ?fs"]
    by (simp add: readID3v2_header)
qed

theorem readID3v2_before_picture_witness:
  "readID3v2 (encTagHeader 4 6000 @ concat (map (encFrame 4) [(''TALB'', [3, 65])])
      @ encFrame 4 (''APIC'', replicate 5000 7) @ replicate 900 0)
    = Some (noTags\<lparr>id3_album := ''A'', id3_tagSize := 6010\<rparr>, True)"
proof -
  have "readID3v2 (encTagHeader 4 6000 @ concat (map (encFrame 4) [(''TALB'', [3, 65])])
      @ encFrame 4 (''APIC'', replicate 5000 7) @ replicate 900 0)
    = Some ((foldl (\<lambda>t (fid, data). textFrame 4 t fid data) noTags [(''TALB'', [3, 65])])
              \<lparr>id3_tagSize := 10 + int 6000\<rparr>, True)"
    by (rule readID3v2_before_picture) (simp_all add: frameIDLen_def encHdr_def encSize_def)
  then show ?thesis
    by (simp add: textFrame_def wantTextFrame_def applyTag_def decodeTextFrame_def trimNull_def
        trimRight_def strOf_def chars_def noTags_def char_of_eval)
qed

text \<open>
  A track or disc number written as \<open>N/M\<close> is read as \<open>N\<close>.
\<close>

theorem parseTrackDisc_slash:
  "n < 2 ^ 63 \<Longrightarrow> parseTrackDisc (showNat n @ ''/'' @ m) = int n"
proof -
  assume n: "n < 2 ^ 63"
  have "\<not> isDigit CHR ''/''" by (simp add: isDigit_def)
  then have "CHR ''/'' \<notin> set (showNat n)"
    using showNat_digits [of n] by blast
  then show ?thesis
    using n by (simp add: parseTrackDisc_def Let_def go_simps)
qed

theorem parseTrackDisc_slash_witness: "parseTrackDisc (showNat 7 @ ''/'' @ ''12'') = 7"
  using parseTrackDisc_slash [of 7 "''12''"] by simp

section \<open>Properties of the lyrics reader\<close>

text \<open>
  The lyrics reader returns for every file contents, with an error only when the file
  is shorter than the ten header bytes.
\<close>

theorem ReadID3v2Lyrics_total:
  "\<exists>res. ReadID3v2Lyrics r = Some res \<and> (isl res \<longleftrightarrow> length r < 10)"
proof (cases "readFull 10 r")
  case (Inl e)
  then have "length r < 10"
    by (auto simp: readFull_def readAtLeast_def split: if_splits)
  with Inl show ?thesis by (simp add: ReadID3v2Lyrics_def)
next
  case (Inr hdr)
  have "\<exists>l. parseLyricsFrames buf major raw fl = Some l" for buf major raw fl
    unfolding parseLyricsFrames_def by (rule lyrics.total) (rule extHeaderEnd_nonneg)
  then have "\<exists>l. ReadID3v2Lyrics r = Some (Inr l)"
    using Inr unfolding ReadID3v2Lyrics_def Let_def sum.case Inr
    by (smt (verit) option.map(2))
  then show ?thesis using Inr by auto
qed

fun encLine :: "string \<times> nat \<Rightarrow> bytes" where
  "encLine (t, ms) = bytesOf t @ 0 # beBytes 4 ms"

definition encSYLT :: "byte \<Rightarrow> string \<Rightarrow> byte \<Rightarrow> string \<Rightarrow> (string \<times> nat) list \<Rightarrow> bytes" where
  "encSYLT e lang ct desc lines =
     e # bytesOf lang @ [2, ct] @ bytesOf desc @ 0 # concat (map encLine lines)"

definition noNul :: "string \<Rightarrow> bool" where
  "noNul s \<longleftrightarrow> char_of (0 :: nat) \<notin> set s"

lemma bytesOf_Cons: "bytesOf (c # s) = of_nat (of_char c) # bytesOf s"
  by (simp add: bytesOf_def)

lemma noNul_Cons: "noNul (c # s) \<longleftrightarrow> (of_nat (of_char c) :: byte) \<noteq> 0 \<and> noNul s"
proof -
  have "(of_nat (of_char c) :: byte) = 0 \<longleftrightarrow> c = char_of (0 :: nat)"
    using bytesOf_inject [of "[c]" "[char_of (0 :: nat)]"] by (simp add: bytesOf_def)
  then show ?thesis by (auto simp: noNul_def)
qed

lemma upto8_text: "noNul t \<Longrightarrow> upto8 (bytesOf t @ 0 # r) = Some (bytesOf t, r)"
  by (induction t) (simp_all add: bytesOf_Cons noNul_Cons bytesOf_def [of "[]"])

lemma skip8_text: "noNul t \<Longrightarrow> skip8 (bytesOf t @ 0 # r) = r"
  by (induction t) (simp_all add: bytesOf_Cons noNul_Cons bytesOf_def [of "[]"])

lemma trimNull_noNul: "noNul t \<Longrightarrow> trimNull t = t"
proof -
  assume "noNul t"
  then have "dropWhile (\<lambda>c. c \<in> set (chars [0])) (rev t) = rev t"
    by (intro dropWhile_fix) (auto simp: noNul_def chars_def)
  then show ?thesis
    by (simp add: trimNull_def trimRight_def)
qed

lemma syltLines_encoded:
  assumes "e = 0 \<or> e = 3" "\<forall>(t, ms) \<in> set lines. noNul t \<and> ms < 2 ^ 32"
  shows "syltLines 2 e (concat (map encLine lines))
    = map (\<lambda>(t, ms). \<lparr>ll_Start = int ms, ll_Value = t\<rparr>) lines"
  using assms(2)
proof (induction lines)
  case Nil
  then show ?case by (subst syltLines.simps) simp
next
  case (Cons l ls)
  obtain t ms where l: "l = (t, ms)" by fastforce
  have "noNul t" "ms < 2 ^ 32" using Cons.prems l by auto
  with Cons l assms(1) show ?case
    by (subst syltLines.simps)
       (auto simp: readNullTerminated_def upto8_text beNat_beBytes trimNull_noNul)
qed

lemma parseSYLT_encoded:
  assumes "e = 0 \<or> e = 3" "length lang = 3" "noNul desc" "lines \<noteq> []"
    "\<forall>(t, ms) \<in> set lines. noNul t \<and> ms < 2 ^ 32"
  shows "parseSYLT (encSYLT e lang ct desc lines)
    = Some \<lparr>lf_Lang = lang, lf_Synced = True,
        lf_Lines = map (\<lambda>(t, ms). \<lparr>ll_Start = int ms, ll_Value = t\<rparr>) lines\<rparr>"
proof -
  obtain a b c where lang: "lang = [a, b, c]"
    using assms(2) by (auto simp: numeral_3_eq_3 length_Suc_conv)
  let ?d = "encSYLT e lang ct desc lines"
  have "?d ! 0 = e" "take 3 (drop 1 ?d) = bytesOf lang" "?d ! 4 = 2"
    "drop 6 ?d = bytesOf desc @ 0 # concat (map encLine lines)" "7 \<le> length ?d"
    by (simp_all add: encSYLT_def lang bytesOf_def numeral_3_eq_3)
  then show ?thesis
    using assms syltLines_encoded [OF assms(1,5)]
    by (auto simp: parseSYLT_def Let_def skipNullTerminated_def skip8_text)
qed

text \<open>
  Claim C35. Synced lyrics are read back: a tag whose frame \<open>SYLT\<close> (\<open>SLT\<close> in version 2.2) holds
  lines with millisecond time stamps, in Latin-1 or UTF-8, yields one synced lyrics frame with the
  same language, texts and times, in order.
\<close>

theorem ReadID3v2Lyrics_synced:
  assumes "2 \<le> major" "major \<le> 4" "e = 0 \<or> e = 3" "length lang = 3" "noNul desc" "lines \<noteq> []"
    and texts: "\<forall>(t, ms) \<in> set lines. noNul t \<and> ms < 2 ^ 32"
    and frame: "fid = (if major = 2 then ''SLT'' else ''SYLT'')"
    and body: "body = encFrame major (fid, encSYLT e lang ct desc lines) @ replicate k 0"
    and fits: "length body \<le> 512 * 1024"
  shows "ReadID3v2Lyrics (encTagHeader major (length body) @ body @ audio)
    = Some (Inr [\<lparr>lf_Lang = lang, lf_Synced = True,
        lf_Lines = map (\<lambda>(t, ms). \<lparr>ll_Start = int ms, ll_Value = t\<rparr>) lines\<rparr>])"
proof -
  let ?h = "encTagHeader major (length body)"
  let ?d = "encSYLT e lang ct desc lines"
  have "length ?d \<le> length body" by (simp add: body)
  moreover have "?d \<noteq> []" by (simp add: encSYLT_def)
  ultimately have ok: "\<forall>f \<in> set [(fid, ?d)]. frameOK major f"
    using fits frame by (auto simp: frameIDLen_def)
  have small: "length body < 2 ^ 28" using fits by simp
  have rd: "readFull 10 (?h @ body @ audio) = Inr ?h"
    by (simp add: encTagHeader_simps)
  have p: "parseLyricsFrames body major (int (length body)) 0 = Some (lyricsOf [] fid ?d)"
    using lyrics_padded [OF ok, of "int (length body)" k] by (simp add: body)
  have t: "take (nat (if lyricsReadCap < int (length body) then lyricsReadCap
      else int (length body))) (drop 10 (?h @ body @ audio)) = body"
    using fits by (simp add: encTagHeader_simps lyricsReadCap_def)
  have v: "\<not> (major < 2 \<or> 4 < major)" using assms(1,2) by auto
  have "ReadID3v2Lyrics (?h @ body @ audio) = map_option Inr (Some (lyricsOf [] fid ?d))"
    unfolding ReadID3v2Lyrics_def rd sum.case Let_def encTagHeader_simps
      encTagHeader_size [OF small] t p using v by (simp del: One_nat_def)
  then show ?thesis
    using parseSYLT_encoded [OF assms(3-6) texts, of ct] frame by (simp add: lyricsOf_def)
qed

theorem ReadID3v2Lyrics_synced_witness:
  "ReadID3v2Lyrics (encTagHeader 3 31 @
      (encFrame 3 (''SYLT'', encSYLT 3 ''eng'' 1 [] [(''La'', 1500)]) @ replicate 7 0) @ [])
    = Some (Inr [\<lparr>lf_Lang = ''eng'', lf_Synced = True,
        lf_Lines = [\<lparr>ll_Start = 1500, ll_Value = ''La''\<rparr>]\<rparr>])"
proof -
  let ?body = "encFrame 3 (''SYLT'', encSYLT 3 ''eng'' 1 [] [(''La'', 1500)]) @ replicate 7 0"
  have l: "length ?body = 31"
    by (simp add: encHdr_def encSize_def encSYLT_def)
  have "ReadID3v2Lyrics (encTagHeader 3 (length ?body) @ ?body @ [])
    = Some (Inr [\<lparr>lf_Lang = ''eng'', lf_Synced = True,
        lf_Lines = map (\<lambda>(t, ms). \<lparr>ll_Start = int ms, ll_Value = t\<rparr>) [(''La'', 1500)]\<rparr>])"
    by (rule ReadID3v2Lyrics_synced [where e = 3 and desc = "[]" and ct = 1 and k = 7])
       (use l in \<open>simp_all add: noNul_def char_of_eval\<close>)
  then show ?thesis
    by (simp only: l) simp
qed

end
