(* ===== verification/Sample.thy ===== *)
theory Sample
  imports Http
begin

text \<open>
  Concrete instances for the witnesses: an environment in which no statement fails, a small
  library with one playlist, and requests.
\<close>

definition quietEnv :: env where
  "quietEnv = \<lparr>ev_fault = \<lambda>_. NoFault, ev_rnd = of_nat, ev_now = \<lambda>k. 1700000000 + int k, ev_tz = \<lambda>_. 0,
     ev_pool = True\<rparr>"

definition sampleSong :: "int \<Rightarrow> string \<Rightarrow> song_row" where
  "sampleSong n i = \<lparr>so_rowid = n, so_id = i, so_album_id = ''al1'', so_artist_id = ''ar1'',
     so_title = ''Song '' @ i, so_track = Some n, so_disc = None, so_year = Some 1999,
     so_genre = Some ''Rock'', so_duration = 180 + n, so_size = 5000, so_suffix = ''mp3'',
     so_bitrate = 128, so_content_type = ''audio/mpeg'', so_path = ''/m/'' @ i, so_mtime = 7,
     so_created = 1600000000\<rparr>"

definition sampleDb :: db where
  "sampleDb = emptyDb\<lparr>
     db_artist := [\<lparr>ar_id = ''ar1'', ar_name = ''Artist''\<rparr>],
     db_album := [\<lparr>al_id = ''al1'', al_artist_id = ''ar1'', al_name = ''Album'', al_year = Some 1999,
                   al_genre = Some ''Rock'', al_cover_art = None, al_song_count = 3,
                   al_duration = 546, al_created = 1600000000\<rparr>],
     db_song := [sampleSong 1 ''a'', sampleSong 2 ''b'', sampleSong 3 ''c''],
     db_playlist := [\<lparr>pl_id = ''p1'', pl_user = ''ann'', pl_name = ''Mix'', pl_comment = '''',
                      pl_public = 0, pl_created = 1600000000, pl_updated = 1600000000\<rparr>],
     db_plsong := [\<lparr>ps_playlist = ''p1'', ps_song = ''a'', ps_position = 0\<rparr>,
                    \<lparr>ps_playlist = ''p1'', ps_song = ''b'', ps_position = 1\<rparr>,
                    \<lparr>ps_playlist = ''p1'', ps_song = ''c'', ps_position = 2\<rparr>]\<rparr>"

definition sampleRequest :: "string \<Rightarrow> (string \<times> string) list \<Rightarrow> request" where
  "sampleRequest user form = \<lparr>rq_method = ''GET'', rq_path = ''/rest/x'', rq_query = '''',
     rq_form = form, rq_formOK = True, rq_user = Some user, rq_remote = ''10.0.0.1:5000'',
     rq_headers = [], rq_cookies = []\<rparr>"

lemma schemaOK_sampleDb [simp]: "schemaOK sampleDb"
  by code_simp

lemma sampleEnv_simps [simp]:
  "ev_fault quietEnv k = NoFault" "ev_pool quietEnv" "ev_now quietEnv k = 1700000000 + int k"
  "ev_tz quietEnv s = 0"
  by (simp_all add: quietEnv_def)

lemma connOf_simps [simp]:
  "cn_db (connOf d) = d" "cn_saved (connOf d) = None" "committed (connOf d) = d" "cn_rnd (connOf d) = 0"
  "cn_tick (connOf d) = 0"
  by (simp_all add: connOf_def committed_def)

lemma sampleDb_tables [simp]:
  "db_star sampleDb = []" "db_play sampleDb = []" "db_rating sampleDb = []" "db_credential sampleDb = []"
  by (simp_all add: sampleDb_def emptyDb_def)

lemma sampleDb_songs: "map so_id (db_song sampleDb) = [''a'', ''b'', ''c'']"
  by (simp add: sampleDb_def sampleSong_def)

lemma sampleDb_playlists:
  "map pl_id (db_playlist sampleDb) = [''p1'']"
  "db_plsong sampleDb = [\<lparr>ps_playlist = ''p1'', ps_song = ''a'', ps_position = 0\<rparr>,
     \<lparr>ps_playlist = ''p1'', ps_song = ''b'', ps_position = 1\<rparr>,
     \<lparr>ps_playlist = ''p1'', ps_song = ''c'', ps_position = 2\<rparr>]"
  by (simp_all add: sampleDb_def)

lemma sampleRequest_form:
  "formValues (sampleRequest user form) k = map snd (filter (\<lambda>p. fst p = k) form)"
  "rq_formOK (sampleRequest user form)"
  by (simp_all add: formValues_def sampleRequest_def)

lemma sampleRequest_user [simp]: "user \<noteq> '''' \<Longrightarrow> usernameFromRequest (sampleRequest user form) = user"
  by (simp add: usernameFromRequest_def sampleRequest_def)

lemma sampleRequest_requireUsername [simp]:
  "user \<noteq> '''' \<Longrightarrow> requireUsername (sampleRequest user form) = Inr user"
  by (simp add: requireUsername_def Let_def)

end
