(* ===== verification/Annotation.thy ===== *)
theory Annotation
  imports Sample
begin

text \<open>
  Stars, ratings and scrobbles: \<open>internal/api/annotation.go\<close>, \<open>rating.go\<close> and \<open>scrobble.go\<close>.
  Each SQL statement is a definition on the tables; each handler maps the environment, the
  request and the write connection to its response and the connection it leaves.
\<close>

section \<open>Stars\<close>

definition itemTypeSong :: string where "itemTypeSong = ''song''"
definition itemTypeAlbum :: string where "itemTypeAlbum = ''album''"
definition itemTypeArtist :: string where "itemTypeArtist = ''artist''"

definition starParams :: "(string \<times> string) list" where
  "starParams = [(''id'', itemTypeSong), (''albumId'', itemTypeAlbum), (''artistId'', itemTypeArtist)]"

definition insertStar :: "string \<Rightarrow> string \<Rightarrow> string \<Rightarrow> string \<Rightarrow> unit stmt" where
  "insertStar i user item ty = checked (\<lambda>now d.
     if list_ex (\<lambda>s. st_id s = i \<or> (st_user s = user \<and> st_item s = item \<and> st_type s = ty)) (db_star d)
     then d
     else d\<lparr>db_star := db_star d @ [\<lparr>st_id = i, st_user = user, st_item = item, st_type = ty,
                                     st_created = now\<rparr>]\<rparr>)"

definition deleteStar :: "string \<Rightarrow> string \<Rightarrow> string \<Rightarrow> unit stmt" where
  "deleteStar user item ty = checked (\<lambda>now d.
     d\<lparr>db_star := filter (\<lambda>s. \<not> (st_user s = user \<and> st_item s = item \<and> st_type s = ty)) (db_star d)\<rparr>)"

definition starInsertBody :: "env \<Rightarrow> string \<Rightarrow> request \<Rightarrow> (string \<times> string) list \<Rightarrow> unit tx" where
  "starInsertBody env user r params =
     tx_each (\<lambda>sp. tx_each (\<lambda>item. tx_bind (NewID env)
                 (\<lambda>i. exec env (insertStar i user item (snd sp)))) (formValues r (fst sp))) params"

definition starInsert :: "env \<Rightarrow> string \<Rightarrow> request \<Rightarrow> (string \<times> string) list \<Rightarrow> unit tx" where
  "starInsert env user r params = transaction env (starInsertBody env user r params)"

definition starDeleteBody :: "env \<Rightarrow> string \<Rightarrow> request \<Rightarrow> (string \<times> string) list \<Rightarrow> unit tx" where
  "starDeleteBody env user r params =
     tx_each (\<lambda>sp. tx_each (\<lambda>item. exec env (deleteStar user item (snd sp)))
                 (formValues r (fst sp))) params"

definition starDelete :: "env \<Rightarrow> string \<Rightarrow> request \<Rightarrow> (string \<times> string) list \<Rightarrow> unit tx" where
  "starDelete env user r params = transaction env (starDeleteBody env user r params)"

definition hasStarIDs :: "request \<Rightarrow> bool" where
  "hasStarIDs r = list_ex (\<lambda>sp. formValues r (fst sp) \<noteq> []) starParams"

text \<open>The answer to a transaction: the two outcomes every writing handler writes.\<close>

definition answer :: "(sqlerr + 'a) \<times> conn \<Rightarrow> SubsonicResponse \<times> conn" where
  "answer res = (case res of (Inl e, c) \<Rightarrow> (errResponse 0 ''database error'', c)
                           | (Inr x, c) \<Rightarrow> (okResp, c))"

definition handleStar :: "env \<Rightarrow> request \<Rightarrow> conn \<Rightarrow> SubsonicResponse \<times> conn" where
  "handleStar env r c =
     (case requireUsername r of
        Inl e \<Rightarrow> (e, c)
      | Inr user \<Rightarrow>
          if \<not> rq_formOK r then (errResponse 0 ''invalid request'', c)
          else if \<not> hasStarIDs r then
            (errResponse 10 ''missing parameter: id, albumId, or artistId'', c)
          else if \<not> ev_pool env then (errResponse 0 ''database error'', c)
          else answer (starInsert env user r starParams c))"

definition handleUnstar :: "env \<Rightarrow> request \<Rightarrow> conn \<Rightarrow> SubsonicResponse \<times> conn" where
  "handleUnstar env r c =
     (case requireUsername r of
        Inl e \<Rightarrow> (e, c)
      | Inr user \<Rightarrow>
          if \<not> rq_formOK r then (errResponse 0 ''invalid request'', c)
          else if \<not> hasStarIDs r then
            (errResponse 10 ''missing parameter: id, albumId, or artistId'', c)
          else if \<not> ev_pool env then (errResponse 0 ''database error'', c)
          else answer (starDelete env user r starParams c))"

section \<open>Ratings\<close>

definition upsertRating :: "string \<Rightarrow> string \<Rightarrow> int \<Rightarrow> unit stmt" where
  "upsertRating user item n = checked (\<lambda>now d.
     if list_ex (\<lambda>r. rt_user r = user \<and> rt_item r = item) (db_rating d)
     then d\<lparr>db_rating := map (\<lambda>r. if rt_user r = user \<and> rt_item r = item
                                   then r\<lparr>rt_rating := n\<rparr> else r) (db_rating d)\<rparr>
     else d\<lparr>db_rating := db_rating d @ [\<lparr>rt_user = user, rt_item = item, rt_rating = n\<rparr>]\<rparr>)"

definition deleteRating :: "string \<Rightarrow> string \<Rightarrow> unit stmt" where
  "deleteRating user item = checked (\<lambda>now d.
     d\<lparr>db_rating := filter (\<lambda>r. \<not> (rt_user r = user \<and> rt_item r = item)) (db_rating d)\<rparr>)"

definition handleSetRating :: "env \<Rightarrow> request \<Rightarrow> conn \<Rightarrow> SubsonicResponse \<times> conn" where
  "handleSetRating env r c =
     (case requireUsername r of
        Inl e \<Rightarrow> (e, c)
      | Inr user \<Rightarrow>
          let item = FormValue r ''id'' in
          if item = '''' then (errResponse 10 ''missing parameter: id'', c)
          else let rating = intParam r ''rating'' (- 1) in
            if rating < 0 \<or> rating > 5 then
              (errResponse 10 ''rating must be between 0 and 5'', c)
            else if \<not> ev_pool env then (errResponse 0 ''database error'', c)
            else answer ((if rating = 0 then exec env (deleteRating user item)
                          else exec env (upsertRating user item rating)) c))"

definition ratingsQuery :: "string \<Rightarrow> string list \<Rightarrow> stamp \<Rightarrow> db \<Rightarrow> (string \<times> int) list" where
  "ratingsQuery user ids now d =
     map (\<lambda>r. (rt_item r, rt_rating r))
       (filter (\<lambda>r. rt_user r = user \<and> rt_item r \<in> set ids) (db_rating d))"

definition stampRatings :: "(string \<times> int) list \<Rightarrow> SongID3 list \<Rightarrow> SongID3 list" where
  "stampRatings rows songs =
     map (\<lambda>s. case map_of (rev rows) (rs_id s) of
                Some n \<Rightarrow> s\<lparr>rs_userRating := n\<rparr> | None \<Rightarrow> s) songs"

text \<open>
  \<open>run\<close> is the query on whichever connection the caller has; it is only run when there is
  something to ask, and its failure leaves the songs as they are.
\<close>

definition decorateRatings ::
  "((stamp \<Rightarrow> db \<Rightarrow> (string \<times> int) list) \<Rightarrow> sqlerr + (string \<times> int) list) \<Rightarrow> string
     \<Rightarrow> SongID3 list \<Rightarrow> SongID3 list" where
  "decorateRatings run user songs =
     (if user = '''' \<or> songs = [] then songs
      else case run (ratingsQuery user (map rs_id songs)) of
             Inl e \<Rightarrow> songs
           | Inr rows \<Rightarrow> stampRatings rows songs)"

section \<open>Scrobbling\<close>

definition insertPlay :: "string \<Rightarrow> string \<Rightarrow> string \<Rightarrow> stamp \<Rightarrow> unit stmt" where
  "insertPlay i song user played = checked (\<lambda>now d.
     d\<lparr>db_play := db_play d @ [\<lparr>ph_rowid = nextRowid (map ph_rowid (db_play d)), ph_id = i,
                                 ph_song = song, ph_user = user, ph_played = played\<rparr>]\<rparr>)"

definition playedAt :: "string list \<Rightarrow> nat \<Rightarrow> stamp \<Rightarrow> stamp" where
  "playedAt tms i now =
     (if i < length tms
      then let (ms, ok) = parseInt (tms ! i) in if ok then ms div 1000 else now
      else now)"

definition scrobbleBody :: "env \<Rightarrow> string \<Rightarrow> string list \<Rightarrow> string list \<Rightarrow> unit tx" where
  "scrobbleBody env user ids tms =
     tx_each (\<lambda>p. tx_bind (clock env) (\<lambda>now. tx_bind (NewID env)
                (\<lambda>i. exec env (insertPlay i (snd p) user (playedAt tms (fst p) now)))))
       (enumerate 0 ids)"

definition handleScrobble :: "env \<Rightarrow> request \<Rightarrow> conn \<Rightarrow> SubsonicResponse \<times> conn" where
  "handleScrobble env r c =
     (case requireUsername r of
        Inl e \<Rightarrow> (e, c)
      | Inr user \<Rightarrow>
          if \<not> rq_formOK r then (errResponse 0 ''invalid request'', c)
          else let ids = formValues r ''id'' in
            if ids = [] then (errResponse 10 ''missing parameter: id'', c)
            else if \<not> ev_pool env then (errResponse 0 ''database error'', c)
            else answer (transaction env (scrobbleBody env user ids (formValues r ''time'')) c))"

section \<open>Interfaces\<close>

interpretation starring: tx_program "starInsertBody env user r params" for env user r params
  unfolding starInsertBody_def insertStar_def by (intro tx_intro)

interpretation unstarring: tx_program "starDeleteBody env user r params" for env user r params
  unfolding starDeleteBody_def deleteStar_def by (intro tx_intro)

interpretation scrobbling: tx_program "scrobbleBody env user ids tms" for env user ids tms
  unfolding scrobbleBody_def insertPlay_def by (intro tx_intro)

section \<open>Facts\<close>

lemma answer_simps [simp]:
  "answer (Inl e, c) = (errResponse 0 ''database error'', c)" "answer (Inr x, c) = (okResp, c)"
  by (simp_all add: answer_def)

lemma answer_err:
  "answer res = (resp, c') \<Longrightarrow> \<not> succeeded resp \<Longrightarrow> \<exists>e. res = (Inl e, c')"
  by (auto simp: answer_def split: prod.splits sum.splits)

lemma answer_ok: "answer res = (okResp, c') \<Longrightarrow> \<exists>x. res = (Inr x, c')"
  by (auto simp: answer_def split: prod.splits sum.splits)

definition starSet :: "db \<Rightarrow> (string \<times> string \<times> string) set" where
  "starSet d = (\<lambda>s. (st_user s, st_type s, st_item s)) ` set (db_star d)"

text \<open>The stars a request names.\<close>

definition requestedStars :: "request \<Rightarrow> string \<Rightarrow> (string \<times> string \<times> string) set" where
  "requestedStars r user =
     (\<Union>sp \<in> set starParams. (\<lambda>item. (user, snd sp, item)) ` set (formValues r (fst sp)))"

lemma deleteStar_effect:
  "exec env (deleteStar user item ty) c = (Inr u, c')
    \<Longrightarrow> starSet (cn_db c') = starSet (cn_db c) - {(user, ty, item)}"
  by (auto simp: deleteStar_def starSet_def)

lemma fold_diff: "fold (\<lambda>x S. S - f x) xs S = S - (\<Union>x \<in> set xs. f x)"
  by (induction xs arbitrary: S) auto

lemma fold_union: "fold (\<lambda>x S. S \<union> f x) xs S = S \<union> (\<Union>x \<in> set xs. f x)"
  by (induction xs arbitrary: S) auto

lemma starDeleteBody_effect:
  assumes "starDeleteBody env user r params c = (Inr (), c')"
  shows "starSet (cn_db c') = starSet (cn_db c)
    - (\<Union>sp \<in> set params. (\<lambda>item. (user, snd sp, item)) ` set (formValues r (fst sp)))"
proof -
  have inner: "starSet (cn_db c2) = starSet (cn_db c1)
      - (\<lambda>item. (user, snd sp, item)) ` set (formValues r (fst sp))"
    if "tx_each (\<lambda>item. exec env (deleteStar user item (snd sp))) (formValues r (fst sp)) c1
      = (Inr (), c2)" for sp c1 c2
    using tx_each_fold [OF that, of starSet "\<lambda>item S. S - {(user, snd sp, item)}"]
    by (simp add: fold_diff deleteStar_effect UNION_singleton_eq_range del: exec_Inr)
  from tx_each_fold [OF assms [unfolded starDeleteBody_def], of starSet
      "\<lambda>sp S. S - (\<lambda>item. (user, snd sp, item)) ` set (formValues r (fst sp))", OF inner]
  show ?thesis by (simp add: fold_diff)
qed

text \<open>
  The identifiers \<open>NewID\<close> gives from the s-th random word on, and that none of the next n
  repeats a used one. \<open>INSERT OR IGNORE\<close> drops a star whose new identifier is already taken.
\<close>

definition genID :: "env \<Rightarrow> nat \<Rightarrow> string" where
  "genID env k = newIDOf (ev_rnd env k) (ev_rnd env (Suc k))"

fun freshIDs :: "env \<Rightarrow> nat \<Rightarrow> nat \<Rightarrow> string list \<Rightarrow> bool" where
  "freshIDs env s 0 used = True"
| "freshIDs env s (Suc n) used =
     (genID env s \<notin> set used \<and> freshIDs env (s + 2) n (genID env s # used))"

lemma freshIDs_mono:
  "freshIDs env s n used \<Longrightarrow> set used' \<subseteq> set used \<Longrightarrow> freshIDs env s n used'"
proof (induction n arbitrary: s used used')
  case (Suc n)
  have "set (genID env s # used') \<subseteq> set (genID env s # used)"
    using Suc.prems(2) by (simp only: list.set insert_mono)
  moreover have "genID env s \<notin> set used" "freshIDs env (s + 2) n (genID env s # used)"
    using Suc.prems(1) by simp_all
  ultimately show ?case
    using Suc.IH Suc.prems(2) by (simp only: freshIDs.simps) blast
qed simp

lemma tx_each_append:
  "tx_each f (xs @ ys) c = (Inr (), c') \<longleftrightarrow>
     (\<exists>c1. tx_each f xs c = (Inr (), c1) \<and> tx_each f ys c1 = (Inr (), c'))"
  by (induction xs arbitrary: c) auto

lemma tx_each_map: "tx_each f (map g xs) = tx_each (\<lambda>x. f (g x)) xs"
  by (induction xs) auto

lemma tx_each_nested:
  "tx_each (\<lambda>x. tx_each (g x) (h x)) xs c = (Inr (), c') \<longleftrightarrow>
     tx_each (\<lambda>p. g (fst p) (snd p)) (concat (map (\<lambda>x. map (Pair x) (h x)) xs)) c = (Inr (), c')"
  by (induction xs arbitrary: c) (auto simp: tx_each_append tx_each_map)

lemma starLoop_effect:
  assumes "tx_each (\<lambda>p. tx_bind (NewID env) (\<lambda>i. exec env (insertStar i user (snd p) (ty (fst p)))))
      ps c = (Inr (), c')"
    and "freshIDs env (cn_rnd c) (length ps) (map st_id (db_star (cn_db c)))"
  shows "starSet (cn_db c') = starSet (cn_db c) \<union> (\<lambda>p. (user, ty (fst p), snd p)) ` set ps"
  using assms
proof (induction ps arbitrary: c)
  case (Cons p ps)
  let ?i = "genID env (cn_rnd c)"
  from Cons.prems(1) obtain c1 where
    c1: "exec env (insertStar ?i user (snd p) (ty (fst p))) (c\<lparr>cn_rnd := cn_rnd c + 2\<rparr>) = (Inr (), c1)"
    and rest: "tx_each (\<lambda>p. tx_bind (NewID env) (\<lambda>i. exec env (insertStar i user (snd p) (ty (fst p)))))
      ps c1 = (Inr (), c')"
    by (auto simp: genID_def simp del: exec_Inr)
  have new: "?i \<notin> st_id ` set (db_star (cn_db c))"
    and fr: "freshIDs env (cn_rnd c + 2) (length ps) (?i # map st_id (db_star (cn_db c)))"
    using Cons.prems(2) by simp_all
  have "starSet (cn_db c1) = starSet (cn_db c) \<union> {(user, ty (fst p), snd p)}"
    "cn_rnd c1 = cn_rnd c + 2" "set (map st_id (db_star (cn_db c1))) \<subseteq> set (?i # map st_id (db_star (cn_db c)))"
    using c1 new by (auto simp: insertStar_def starSet_def list_ex_iff image_iff split: if_splits)
  moreover from this(2,3) fr
  have "freshIDs env (cn_rnd c1) (length ps) (map st_id (db_star (cn_db c1)))"
    by (metis freshIDs_mono)
  ultimately show ?case
    using Cons.IH [OF rest] by auto
qed simp

lemma starInsertBody_effect:
  assumes "starInsertBody env user r params c = (Inr (), c')"
    and "freshIDs env (cn_rnd c) (length (concat (map (\<lambda>sp. formValues r (fst sp)) params)))
      (map st_id (db_star (cn_db c)))"
  shows "starSet (cn_db c') = starSet (cn_db c)
    \<union> (\<Union>sp \<in> set params. (\<lambda>item. (user, snd sp, item)) ` set (formValues r (fst sp)))"
proof -
  let ?ps = "concat (map (\<lambda>sp. map (Pair sp) (formValues r (fst sp))) params)"
  have "length ?ps = length (concat (map (\<lambda>sp. formValues r (fst sp)) params))"
    by (simp add: length_concat comp_def)
  moreover have "tx_each (\<lambda>p. tx_bind (NewID env) (\<lambda>i. exec env (insertStar i user (snd p) (snd (fst p)))))
      ?ps c = (Inr (), c')"
    using assms(1) unfolding starInsertBody_def tx_each_nested .
  ultimately have "starSet (cn_db c') = starSet (cn_db c) \<union> (\<lambda>p. (user, snd (fst p), snd p)) ` set ?ps"
    using assms(2) by (intro starLoop_effect) simp_all
  moreover have "(\<lambda>p. (user, snd (fst p), snd p)) ` set ?ps
      = (\<Union>sp \<in> set params. (\<lambda>item. (user, snd sp, item)) ` set (formValues r (fst sp)))"
    by (simp add: image_Union image_image)
  ultimately show ?thesis by simp
qed

text \<open>The frame of each loop: the other tables.\<close>

lemma starBodies_frame:
  "starInsertBody env user r params c = (Inr (), c') \<Longrightarrow> (cn_db c')\<lparr>db_star := []\<rparr> = (cn_db c)\<lparr>db_star := []\<rparr>"
  "starDeleteBody env user r params c = (Inr (), c') \<Longrightarrow> (cn_db c')\<lparr>db_star := []\<rparr> = (cn_db c)\<lparr>db_star := []\<rparr>"
  unfolding starInsertBody_def starDeleteBody_def
  by (erule tx_each_inv [where P = "\<lambda>c'. (cn_db c')\<lparr>db_star := []\<rparr> = (cn_db c)\<lparr>db_star := []\<rparr>"],
      simp, erule tx_each_inv, simp, auto simp: insertStar_def deleteStar_def split: if_splits)+

subsection \<open>Ratings\<close>

definition ratingOf :: "db \<Rightarrow> string \<Rightarrow> string \<Rightarrow> int option" where
  "ratingOf d user item =
     map_of (map (\<lambda>r. ((rt_user r, rt_item r), rt_rating r)) (db_rating d)) (user, item)"

lemma map_of_update_rating:
  "map_of (map (\<lambda>r. ((rt_user r, rt_item r), rt_rating r))
      (map (\<lambda>r. if rt_user r = u \<and> rt_item r = i then r\<lparr>rt_rating := n\<rparr> else r) rs)) k
    = (if k = (u, i) \<and> (\<exists>r \<in> set rs. rt_user r = u \<and> rt_item r = i) then Some n
       else map_of (map (\<lambda>r. ((rt_user r, rt_item r), rt_rating r)) rs) k)"
  by (induction rs) auto

lemma map_of_delete_rating:
  "map_of (map (\<lambda>r. ((rt_user r, rt_item r), rt_rating r))
      (filter (\<lambda>r. \<not> (rt_user r = u \<and> rt_item r = i)) rs)) k
    = (if k = (u, i) then None else map_of (map (\<lambda>r. ((rt_user r, rt_item r), rt_rating r)) rs) k)"
  by (induction rs) auto

lemma map_of_rating_None:
  "\<forall>r \<in> set rs. \<not> (rt_user r = u \<and> rt_item r = i) \<Longrightarrow>
     map_of (map (\<lambda>r. ((rt_user r, rt_item r), rt_rating r)) rs) (u, i) = None"
  by (induction rs) auto

lemma upsertRating_effect:
  assumes "exec env (upsertRating user item n) c = (Inr x, c')"
  shows "ratingOf (cn_db c') u i = (if u = user \<and> i = item then Some n else ratingOf (cn_db c) u i)"
proof (cases "\<exists>r \<in> set (db_rating (cn_db c)). rt_user r = user \<and> rt_item r = item")
  case True
  with assms show ?thesis
    by (auto simp: upsertRating_def ratingOf_def map_of_update_rating list_ex_iff simp del: map_map)
next
  case False
  with assms show ?thesis
    by (auto simp: upsertRating_def ratingOf_def list_ex_iff map_add_def map_of_rating_None
        split: option.splits)
qed

lemma deleteRating_effect:
  "exec env (deleteRating user item) c = (Inr x, c') \<Longrightarrow>
     ratingOf (cn_db c') u i = (if u = user \<and> i = item then None else ratingOf (cn_db c) u i)"
  by (auto simp: deleteRating_def ratingOf_def map_of_delete_rating simp del: de_Morgan_conj)

lemma stmtOK_rating [tx_intro]: "stmtOK (upsertRating u i n)" "stmtOK (deleteRating u i)"
  unfolding upsertRating_def deleteRating_def by (intro tx_intro)+

lemma map_of_rev_distinct: "distinct (map fst xs) \<Longrightarrow> map_of (rev xs) = map_of xs"
  by (rule map_of_eqI) (auto simp: rev_map [symmetric])

lemma ratingsQuery_lookup:
  assumes "ratingOK (db_rating d)"
  shows "map_of (rev (ratingsQuery user ids now d)) i = (if i \<in> set ids then ratingOf d user i else None)"
proof -
  have "distinct (map fst (map (\<lambda>r. (rt_item r, rt_rating r))
          (filter (\<lambda>r. rt_user r = user \<and> rt_item r \<in> set ids) rs)))
      \<and> map_of (map (\<lambda>r. (rt_item r, rt_rating r))
          (filter (\<lambda>r. rt_user r = user \<and> rt_item r \<in> set ids) rs)) i
        = (if i \<in> set ids then map_of (map (\<lambda>r. ((rt_user r, rt_item r), rt_rating r)) rs) (user, i) else None)"
    if "distinct (map (\<lambda>r. (rt_user r, rt_item r)) rs)" for rs :: "rating_row list"
    using that by (induction rs) (auto simp: image_iff)
  with assms show ?thesis
    by (simp add: map_of_rev_distinct ratingsQuery_def ratingOf_def ratingOK_def)
qed

lemma decorateRatings_lookup:
  assumes "schemaOK d" "user \<noteq> ''''"
  shows "decorateRatings (\<lambda>q. Inr (q now d)) user songs =
    map (\<lambda>s. case ratingOf d user (rs_id s) of Some n \<Rightarrow> s\<lparr>rs_userRating := n\<rparr> | None \<Rightarrow> s) songs"
  using assms by (auto simp: decorateRatings_def stampRatings_def schemaOK_def ratingsQuery_lookup)

subsection \<open>Scrobbles\<close>

lemma scrobbleLoop_effect:
  assumes "tx_each (\<lambda>p. tx_bind (clock env) (\<lambda>now. tx_bind (NewID env)
      (\<lambda>i. exec env (insertPlay i (snd p) user (playedAt tms (fst p) now))))) ps c = (Inr (), c')"
  shows "\<exists>rows. db_play (cn_db c') = db_play (cn_db c) @ rows \<and> map ph_song rows = map snd ps
    \<and> (\<forall>r \<in> set rows. ph_user r = user)
    \<and> list_all2 (\<lambda>p r. \<exists>now. ph_played r = playedAt tms (fst p) now) ps rows
    \<and> sorted_wrt (<) (map ph_rowid rows)
    \<and> (\<forall>r \<in> set rows. \<forall>o' \<in> set (db_play (cn_db c)). ph_rowid o' < ph_rowid r)
    \<and> (cn_db c')\<lparr>db_play := []\<rparr> = (cn_db c)\<lparr>db_play := []\<rparr>"
  using assms
proof (induction ps arbitrary: c)
  case (Cons p ps)
  from Cons.prems obtain i c1 where
    c1: "exec env (insertPlay i (snd p) user (playedAt tms (fst p) (ev_now env (cn_tick c))))
           (c\<lparr>cn_rnd := cn_rnd c + 2\<rparr>) = (Inr (), c1)"
    and rest: "tx_each (\<lambda>p. tx_bind (clock env) (\<lambda>now. tx_bind (NewID env)
      (\<lambda>i. exec env (insertPlay i (snd p) user (playedAt tms (fst p) now))))) ps c1 = (Inr (), c')"
    by (auto simp del: exec_Inr)
  define row where "row = \<lparr>ph_rowid = nextRowid (map ph_rowid (db_play (cn_db c))), ph_id = i,
    ph_song = snd p, ph_user = user, ph_played = playedAt tms (fst p) (ev_now env (cn_tick c))\<rparr>"
  have d1: "cn_db c1 = (cn_db c)\<lparr>db_play := db_play (cn_db c) @ [row]\<rparr>"
    using c1 by (auto simp: insertPlay_def row_def)
  from Cons.IH [OF rest] obtain rows where rows:
    "db_play (cn_db c') = (db_play (cn_db c) @ [row]) @ rows" "map ph_song rows = map snd ps"
    "\<forall>r \<in> set rows. ph_user r = user"
    "list_all2 (\<lambda>p r. \<exists>now. ph_played r = playedAt tms (fst p) now) ps rows"
    "sorted_wrt (<) (map ph_rowid rows)"
    "\<forall>r \<in> set rows. \<forall>o' \<in> set (db_play (cn_db c) @ [row]). ph_rowid o' < ph_rowid r"
    "(cn_db c')\<lparr>db_play := []\<rparr> = (cn_db c)\<lparr>db_play := []\<rparr>"
    unfolding d1 by auto
  have old: "\<forall>o' \<in> set (db_play (cn_db c)). ph_rowid o' < ph_rowid row"
    by (simp add: row_def nextRowid_fresh)
  have played: "\<exists>now. ph_played row = playedAt tms (fst p) now" "ph_song row = snd p" "ph_user row = user"
    by (auto simp: row_def)
  show ?case
    using rows old played by (intro exI [of _ "row # rows"]) simp
qed simp

section \<open>Properties\<close>

lemma handleStar_run:
  "handleStar env r c = (resp, c') \<Longrightarrow> resp = okResp \<and> usernameFromRequest r \<noteq> ''''
      \<and> starInsert env (usernameFromRequest r) r starParams c = (Inr (), c')
    \<or> \<not> succeeded resp \<and> (c' = c \<or> (\<exists>e. starInsert env (usernameFromRequest r) r starParams c = (Inl e, c')))"
  by (auto simp: handleStar_def answer_def requireUsername_Inl split: sum.splits if_splits prod.splits)

lemma handleUnstar_run:
  "handleUnstar env r c = (resp, c') \<Longrightarrow> resp = okResp \<and> usernameFromRequest r \<noteq> ''''
      \<and> starDelete env (usernameFromRequest r) r starParams c = (Inr (), c')
    \<or> \<not> succeeded resp \<and> (c' = c \<or> (\<exists>e. starDelete env (usernameFromRequest r) r starParams c = (Inl e, c')))"
  by (auto simp: handleUnstar_def answer_def requireUsername_Inl split: sum.splits if_splits prod.splits)

lemma handleScrobble_run:
  "handleScrobble env r c = (resp, c') \<Longrightarrow> resp = okResp \<and> usernameFromRequest r \<noteq> ''''
      \<and> transaction env (scrobbleBody env (usernameFromRequest r) (formValues r ''id'') (formValues r ''time'')) c = (Inr (), c')
    \<or> \<not> succeeded resp \<and> (c' = c \<or>
        (\<exists>e. transaction env (scrobbleBody env (usernameFromRequest r) (formValues r ''id'') (formValues r ''time'')) c = (Inl e, c')))"
  by (auto simp: handleScrobble_def answer_def requireUsername_Inl Let_def split: sum.splits if_splits prod.splits)

text \<open>
  Claim C31. A star request is all or nothing. When it reports success, the starred items are those
  of before and every item the request names, under the type of its parameter and for the
  requesting user only, nothing else in the database changed, and no transaction is left open;
  when it reports an error, the committed database is as it was. The hypothesis on identifiers is
  needed for the success case: \<open>INSERT OR IGNORE\<close> drops a star whose random identifier is taken.
\<close>

theorem handleStar_correct:
  assumes "handleStar env r c = (resp, c')" "connOK c"
    and "freshIDs env (cn_rnd c) (length (concat (map (\<lambda>sp. formValues r (fst sp)) starParams)))
      (map st_id (db_star (committed c)))"
  shows "connOK c' \<and>
    (if succeeded resp
     then cn_saved c' = None
       \<and> starSet (committed c') = starSet (committed c) \<union> requestedStars r (usernameFromRequest r)
       \<and> (committed c')\<lparr>db_star := []\<rparr> = (committed c)\<lparr>db_star := []\<rparr>
     else committed c' = committed c)"
proof -
  let ?u = "usernameFromRequest r"
  have run: "starInsert env ?u r starParams c = (res, c') \<Longrightarrow> connOK c'" for res
    unfolding starInsert_def by (rule starring.transaction_ok [OF _ assms(2)])
  from handleStar_run [OF assms(1)] show ?thesis
  proof (elim disjE conjE exE)
    assume *: "resp = okResp" "starInsert env ?u r starParams c = (Inr (), c')"
    from *(2) [unfolded starInsert_def] assms(2) show ?thesis
    proof (cases rule: starring.transaction_cases)
      case (success x c1 c2)
      then have b: "starInsertBody env ?u r starParams c1 = (Inr (), c2)" "cn_db c1 = cn_db c"
        "cn_rnd c1 = cn_rnd c" by simp_all
      have cm: "committed c' = cn_db c2" "committed c = cn_db c1"
        using success b(2) by (simp_all add: committed_closed)
      have "starSet (committed c') = starSet (committed c) \<union> requestedStars r ?u"
        unfolding cm requestedStars_def
        by (rule starInsertBody_effect [OF b(1)]) (use assms(3) cm(2) b(3) in simp_all)
      moreover have "(committed c')\<lparr>db_star := []\<rparr> = (committed c)\<lparr>db_star := []\<rparr>"
        unfolding cm by (rule starBodies_frame(1) [OF b(1)])
      ultimately show ?thesis
        using success(5) run [OF *(2)] unfolding *(1) by (simp only: succeeded_simps if_True simp_thms)
    qed simp
  next
    fix e assume *: "\<not> succeeded resp" "starInsert env ?u r starParams c = (Inl e, c')"
    from *(2) have "committed c' = committed c"
      unfolding starInsert_def by (rule starring.atomic [OF _ assms(2)])
    with * run [OF *(2)] show ?thesis by simp
  qed (use assms(2) in simp)
qed

theorem handleStar_correct_witness:
  "starSet (committed (snd (handleStar quietEnv (sampleRequest ''ann'' [(''albumId'', ''al1'')]) (connOf sampleDb))))
     = {(''ann'', ''album'', ''al1'')}"
proof -
  let ?r = "sampleRequest ''ann'' [(''albumId'', ''al1'')]" and ?c = "connOf sampleDb"
  obtain resp c' where run: "handleStar quietEnv ?r ?c = (resp, c')" by fastforce
  have "succeeded (fst (handleStar quietEnv ?r ?c))"
    by (simp add: handleStar_def starInsert_def starInsertBody_def starParams_def hasStarIDs_def
        insertStar_def run_defs sampleRequest_form starOK_def)
  moreover have "freshIDs quietEnv (cn_rnd ?c) (length (concat (map (\<lambda>sp. formValues ?r (fst sp)) starParams)))
      (map st_id (db_star (committed ?c)))"
    by (simp add: starParams_def sampleRequest_form)
  moreover have "starSet (committed ?c) = {}" "requestedStars ?r ''ann'' = {(''ann'', ''album'', ''al1'')}"
    by (simp_all add: starSet_def requestedStars_def starParams_def sampleRequest_form itemTypeAlbum_def)
  ultimately show ?thesis
    using handleStar_correct [OF run] run by simp
qed

text \<open>
  Unstarring is the inverse: on success the named items, of each parameter's type, are
  gone from the user's stars and every other star and table is as before; on an error nothing is.
\<close>

theorem handleUnstar_correct:
  assumes "handleUnstar env r c = (resp, c')" "connOK c"
  shows "connOK c' \<and>
    (if succeeded resp
     then cn_saved c' = None
       \<and> starSet (committed c') = starSet (committed c) - requestedStars r (usernameFromRequest r)
       \<and> (committed c')\<lparr>db_star := []\<rparr> = (committed c)\<lparr>db_star := []\<rparr>
     else committed c' = committed c)"
proof -
  let ?u = "usernameFromRequest r"
  have run: "starDelete env ?u r starParams c = (res, c') \<Longrightarrow> connOK c'" for res
    unfolding starDelete_def by (rule unstarring.transaction_ok [OF _ assms(2)])
  from handleUnstar_run [OF assms(1)] show ?thesis
  proof (elim disjE conjE exE)
    assume *: "resp = okResp" "starDelete env ?u r starParams c = (Inr (), c')"
    from *(2) [unfolded starDelete_def] assms(2) show ?thesis
    proof (cases rule: unstarring.transaction_cases)
      case (success x c1 c2)
      then have b: "starDeleteBody env ?u r starParams c1 = (Inr (), c2)" "cn_db c1 = cn_db c" by simp_all
      have cm: "committed c' = cn_db c2" "committed c = cn_db c1"
        using success b(2) by (simp_all add: committed_closed)
      have "starSet (committed c') = starSet (committed c) - requestedStars r ?u"
        unfolding cm requestedStars_def by (rule starDeleteBody_effect [OF b(1)])
      moreover have "(committed c')\<lparr>db_star := []\<rparr> = (committed c)\<lparr>db_star := []\<rparr>"
        unfolding cm by (rule starBodies_frame(2) [OF b(1)])
      ultimately show ?thesis
        using success(5) run [OF *(2)] unfolding *(1) by (simp only: succeeded_simps if_True simp_thms)
    qed simp
  next
    fix e assume *: "\<not> succeeded resp" "starDelete env ?u r starParams c = (Inl e, c')"
    from *(2) have "committed c' = committed c"
      unfolding starDelete_def by (rule unstarring.atomic [OF _ assms(2)])
    with * run [OF *(2)] show ?thesis by simp
  qed (use assms(2) in simp)
qed

theorem handleUnstar_correct_witness:
  "starSet (committed (snd (handleUnstar quietEnv (sampleRequest ''ann'' [(''id'', ''a'')])
      (connOf (sampleDb\<lparr>db_star := [\<lparr>st_id = ''s1'', st_user = ''ann'', st_item = ''a'',
                 st_type = ''song'', st_created = 0\<rparr>]\<rparr>))))) = {}"
proof -
  let ?r = "sampleRequest ''ann'' [(''id'', ''a'')]"
  let ?c = "connOf (sampleDb\<lparr>db_star := [\<lparr>st_id = ''s1'', st_user = ''ann'', st_item = ''a'',
                 st_type = ''song'', st_created = 0\<rparr>]\<rparr>)"
  obtain resp c' where run: "handleUnstar quietEnv ?r ?c = (resp, c')" by fastforce
  have "succeeded (fst (handleUnstar quietEnv ?r ?c))" "connOK ?c"
    by (simp_all add: handleUnstar_def starDelete_def starDeleteBody_def starParams_def hasStarIDs_def
        deleteStar_def run_defs sampleRequest_form starOK_def)
  moreover have "starSet (committed ?c) - requestedStars ?r ''ann'' = {}"
    by (simp add: requestedStars_def starParams_def sampleRequest_form starSet_def itemTypeSong_def)
  ultimately show ?thesis
    using handleUnstar_correct [OF run] run by simp
qed

text \<open>
  Claim C33. A rating set is the rating shown. After a successful \<open>setRating\<close> with no transaction
  open, the committed ratings are those of before except the user's rating of the item, which is
  the requested number between 1 and 5, or none for 0; and the songs decorated for that user
  from the committed tables carry exactly these ratings. A refused or failed request leaves the
  ratings as they were.
\<close>

theorem handleSetRating_roundtrip:
  assumes "handleSetRating env r c = (resp, c')" "connOK c" "cn_saved c = None"
  shows "connOK c' \<and> cn_saved c' = None \<and>
    (if succeeded resp
     then intParam r ''rating'' (- 1) \<in> {0..5} \<and>
       (\<forall>user songs now. user \<noteq> '''' \<longrightarrow>
          decorateRatings (\<lambda>q. Inr (q now (committed c'))) user songs =
          map (\<lambda>s. case (if user = usernameFromRequest r \<and> rs_id s = FormValue r ''id''
                          then (if intParam r ''rating'' (- 1) = 0 then None
                                else Some (intParam r ''rating'' (- 1)))
                          else ratingOf (committed c) user (rs_id s)) of
                     Some n \<Rightarrow> s\<lparr>rs_userRating := n\<rparr> | None \<Rightarrow> s) songs)
     else committed c' = committed c)"
proof -
  let ?u = "usernameFromRequest r" and ?i = "FormValue r ''id''" and ?n = "intParam r ''rating'' (- 1)"
  let ?s = "if ?n = 0 then exec env (deleteRating ?u ?i) else exec env (upsertRating ?u ?i ?n)"
  have run: "(resp = okResp \<and> ?s c = (Inr (), c') \<and> 0 \<le> ?n \<and> ?n \<le> 5)
      \<or> \<not> succeeded resp \<and> (c' = c \<or> (\<exists>e. ?s c = (Inl e, c')))"
    using assms(1)
    by (auto simp: handleSetRating_def answer_def requireUsername_Inl Let_def
        split: sum.splits if_splits prod.splits simp del: exec_Inr)
  have ok: "connOK c'" if "?s c = (x, c')" for x
    using that exec_ok [OF stmtOK_rating(1) assms(2)] exec_ok [OF stmtOK_rating(2) assms(2)]
    by (cases "?n = 0") simp_all
  from run show ?thesis
  proof (elim disjE conjE exE)
    assume s: "resp = okResp" "?s c = (Inr (), c')" "0 \<le> ?n" "?n \<le> 5"
    then have "cn_saved c' = None"
      using assms(3) by (auto split: if_splits)
    moreover have "ratingOf (cn_db c') u i = (if u = ?u \<and> i = ?i
        then (if ?n = 0 then None else Some ?n) else ratingOf (cn_db c) u i)" for u i
      using s(2) upsertRating_effect [of env ?u ?i ?n c "()" c' u i]
        deleteRating_effect [of env ?u ?i c "()" c' u i]
      by (cases "?n = 0") (simp_all del: exec_Inr)
    moreover have "schemaOK (committed c')"
      using ok [OF s(2)] by (simp add: connOK_def)
    ultimately show ?thesis
      using s ok [OF s(2)] assms(3) by (simp add: committed_closed decorateRatings_lookup)
  next
    fix e assume s: "\<not> succeeded resp" "?s c = (Inl e, c')"
    then have "committed c' = committed c"
      using exec_Inl by (cases "?n = 0") force+
    moreover have "cn_saved c' = None"
      using s(2) assms(3) by (auto simp: exec_def faulted_def split: if_splits fault.splits option.splits)
    ultimately show ?thesis using s(1) ok [OF s(2)] by simp
  qed (use assms in simp)
qed

theorem handleSetRating_roundtrip_witness:
  "ratingOf (committed (snd (handleSetRating quietEnv
      (sampleRequest ''ann'' [(''id'', ''a''), (''rating'', ''4'')]) (connOf sampleDb)))) ''ann'' ''a'' = Some 4"
proof -
  let ?r = "sampleRequest ''ann'' [(''id'', ''a''), (''rating'', ''4'')]" and ?c = "connOf sampleDb"
  define s where "s = \<lparr>rs_id = ''a'', rs_title = '''', rs_album = '''', rs_artist = '''',
    rs_albumID = '''', rs_artistID = '''', rs_track = 0, rs_disc = 0, rs_year = 0, rs_genre = '''',
    rs_duration = 0, rs_size = 0, rs_suffix = '''', rs_bitRate = 0, rs_contentType = '''',
    rs_path = '''', rs_coverArt = '''', rs_type = '''', rs_userRating = 0\<rparr>"
  have s: "rs_id s = ''a''" by (simp add: s_def)
  obtain resp c' where run: "handleSetRating quietEnv ?r ?c = (resp, c')" by fastforce
  have n: "intParam ?r ''rating'' (- 1) = 4" "FormValue ?r ''id'' = ''a''"
    by (simp_all add: intParam_def FormValue_def sampleRequest_form parseInt_def isDigit_def digitVal_def)
  have ok: "succeeded (fst (handleSetRating quietEnv ?r ?c))"
    by (simp add: handleSetRating_def n run_defs upsertRating_def ratingOK_def)
  have c: "connOK ?c" "cn_saved ?c = None" by simp_all
  have "decorateRatings (\<lambda>q. Inr (q now (committed c'))) ''ann'' [s] = [s\<lparr>rs_userRating := 4\<rparr>]" for now
    using handleSetRating_roundtrip [OF run c] ok run n by (simp add: s)
  moreover have "schemaOK (committed c')"
    using handleSetRating_roundtrip [OF run c] by (simp add: connOK_def)
  ultimately have "(case ratingOf (committed c') ''ann'' ''a'' of Some n \<Rightarrow> s\<lparr>rs_userRating := n\<rparr> | None \<Rightarrow> s)
      = s\<lparr>rs_userRating := 4\<rparr>"
    by (simp add: decorateRatings_lookup s)
  from arg_cong [OF this, of rs_userRating]
  have "(case ratingOf (committed c') ''ann'' ''a'' of Some n \<Rightarrow> n | None \<Rightarrow> 0) = 4"
    by (simp add: s_def split: option.splits)
  then have "ratingOf (committed c') ''ann'' ''a'' = Some 4"
    by (simp split: option.splits)
  then show ?thesis using run by simp
qed



end
