(* ===== verification/Browse.thy ===== *)
theory Browse
  imports Annotation "HOL-Library.List_Lexorder" "HOL-Library.Char_ord"
begin

text \<open>
  The reading handlers of \<open>internal/api\<close>: \<open>system.go\<close>, \<open>browse.go\<close>, \<open>info.go\<close>, \<open>lists.go\<close>,
  \<open>search.go\<close> and \<open>scan.go\<close>'s status. Each maps a reader (the outcome of its k-th query) and the
  request to the response. A query is the function of the tables its SQL text denotes: joins
  over the rows in table order, \<open>ORDER BY\<close> a stable sort (SQLite leaves the order of ties open),
  \<open>LIMIT\<close> and \<open>OFFSET\<close> a slice. \<open>ORDER BY RANDOM()\<close>, the ranked matches of the FTS5 index and the
  Unicode tables are arguments.
\<close>

section \<open>SQL\<close>

definition colInt :: "int option \<Rightarrow> int" where
  "colInt v = (case v of None \<Rightarrow> 0 | Some n \<Rightarrow> n)"

definition colText :: "string option \<Rightarrow> string" where
  "colText v = (case v of None \<Rightarrow> '''' | Some s \<Rightarrow> s)"

definition sqlLimit :: "int \<Rightarrow> int \<Rightarrow> 'a list \<Rightarrow> 'a list" where
  "sqlLimit n m xs = (let ys = drop (nat m) xs in if n < 0 then ys else take (nat n) ys)"

text \<open>\<open>NULL\<close> sorts first.\<close>

definition orderNull :: "('a \<Rightarrow> int option) \<Rightarrow> 'a list \<Rightarrow> 'a list" where
  "orderNull f xs =
     sort_key (\<lambda>x. case f x of None \<Rightarrow> 0 | Some n \<Rightarrow> (1 :: int)) (sort_key (\<lambda>x. colInt (f x)) xs)"

definition contByte :: "char \<Rightarrow> bool" where
  "contByte c \<longleftrightarrow> 128 \<le> (of_char c :: nat) \<and> (of_char c :: nat) < 192"

text \<open>\<open>LIKE\<close>: \<open>%\<close> is any string, \<open>_\<close> any character, letters match in either ASCII case.\<close>

function sqlLike :: "string \<Rightarrow> string \<Rightarrow> bool" where
  "sqlLike [] s = (s = [])"
| "sqlLike (p # ps) s =
     (if p = CHR ''%'' then sqlLike ps s \<or> (case s of [] \<Rightarrow> False | c # cs \<Rightarrow> sqlLike (p # ps) cs)
      else case s of
        [] \<Rightarrow> False
      | c # cs \<Rightarrow> (if p = CHR ''_'' then sqlLike ps (dropWhile contByte cs)
                   else lowerChar p = lowerChar c \<and> sqlLike ps cs))"
  by pat_completeness auto
termination
  by (relation "measure (\<lambda>(p, s). length p + length s)")
    (auto simp: less_Suc_eq_le intro: le_SucI length_dropWhile_le)

declare sqlLike.simps [simp del]

definition artistOf :: "db \<Rightarrow> string \<Rightarrow> artist_row option" where
  "artistOf d i = find (\<lambda>a. ar_id a = i) (db_artist d)"

definition albumOf :: "db \<Rightarrow> string \<Rightarrow> album_row option" where
  "albumOf d i = find (\<lambda>a. al_id a = i) (db_album d)"

definition songOf :: "db \<Rightarrow> string \<Rightarrow> song_row option" where
  "songOf d i = find (\<lambda>s. so_id s = i) (db_song d)"

section \<open>Rows\<close>

definition albumFromRow :: "album_row \<Rightarrow> string \<Rightarrow> string \<Rightarrow> AlbumID3" where
  "albumFromRow al artistName artistID =
     \<lparr>rl_id = al_id al, rl_name = al_name al, rl_artist = artistName, rl_artistID = artistID,
      rl_coverArt = (if colText (al_cover_art al) \<noteq> '''' then ''al-'' @ al_id al else ''''),
      rl_songCount = al_song_count al, rl_duration = al_duration al,
      rl_year = colInt (al_year al), rl_genre = colText (al_genre al), rl_created = al_created al\<rparr>"

definition songFromRow :: "song_row \<Rightarrow> artist_row \<Rightarrow> album_row \<Rightarrow> SongID3" where
  "songFromRow s a al =
     \<lparr>rs_id = so_id s, rs_title = so_title s, rs_album = al_name al, rs_artist = ar_name a,
      rs_albumID = al_id al, rs_artistID = ar_id a, rs_track = colInt (so_track s),
      rs_disc = colInt (so_disc s), rs_year = colInt (so_year s), rs_genre = colText (so_genre s),
      rs_duration = so_duration s, rs_size = so_size s, rs_suffix = so_suffix s,
      rs_bitRate = so_bitrate s, rs_contentType = so_content_type s, rs_path = so_path s,
      rs_coverArt = (if colText (al_cover_art al) \<noteq> '''' then ''al-'' @ al_id al else ''''),
      rs_type = ''music'', rs_userRating = 0\<rparr>"

text \<open>The joins of the song and album queries; a row without its partner is dropped.\<close>

definition joinSong :: "db \<Rightarrow> song_row \<Rightarrow> SongID3 list" where
  "joinSong d s =
     (case artistOf d (so_artist_id s) of
        None \<Rightarrow> []
      | Some a \<Rightarrow> (case albumOf d (so_album_id s) of None \<Rightarrow> [] | Some al \<Rightarrow> [songFromRow s a al]))"

definition joinAlbum :: "db \<Rightarrow> album_row \<Rightarrow> AlbumID3 list" where
  "joinAlbum d al =
     (case artistOf d (al_artist_id al) of
        None \<Rightarrow> []
      | Some a \<Rightarrow> [albumFromRow al (ar_name a) (ar_id a)])"

definition artistRow :: "db \<Rightarrow> artist_row \<Rightarrow> ArtistID3" where
  "artistRow d a = \<lparr>ra_id = ar_id a, ra_name = ar_name a,
     ra_albumCount = int (length (filter (\<lambda>al. al_artist_id al = ar_id a) (db_album d))),
     ra_coverArt = ''''\<rparr>"

definition artistsByName :: "artist_row list \<Rightarrow> artist_row list" where
  "artistsByName = sort_key (\<lambda>a. toLower (ar_name a))"

section \<open>\<open>system.go\<close>\<close>

definition handlePing :: SubsonicResponse where "handlePing = okResp"

definition handleGetLicense :: SubsonicResponse where "handleGetLicense = okWith (License True)"

definition handleGetOpenSubsonicExtensions :: SubsonicResponse where
  "handleGetOpenSubsonicExtensions =
     okWith (OpenSubsonicExt [(''apiKeyAuthentication'', [1]), (''songLyrics'', [1])])"

definition handleGetUser :: "request \<Rightarrow> SubsonicResponse" where
  "handleGetUser r =
     (let username = FormValue r ''username'' in
      if username = '''' then errResponse 10 ''missing required param: username''
      else okWith (UserBody \<lparr>us_username = username, us_scrobbling = True, us_admin = True,
        us_settings = True, us_download = True, us_upload = False, us_playlist = True,
        us_coverArt = True, us_comment = False, us_podcast = False, us_stream = True,
        us_jukebox = False, us_share = True, us_folder = [1]\<rparr>))"

definition handleGetMusicFolders :: SubsonicResponse where
  "handleGetMusicFolders = okWith (MusicFolders [(1, ''Music'')])"

section \<open>\<open>browse.go\<close>\<close>

text \<open>\<open>unicode.ToUpper\<close> and \<open>unicode.IsLetter\<close>.\<close>

record unicode =
  uni_upper :: "nat \<Rightarrow> nat"
  uni_letter :: "nat \<Rightarrow> bool"

text \<open>\<open>firstRune\<close> is \<open>[]rune(name)[0]\<close>, the decoder's first code point.\<close>

definition indexLetter :: "unicode \<Rightarrow> (string \<Rightarrow> nat) \<Rightarrow> string \<Rightarrow> string" where
  "indexLetter u firstRune name =
     (if name = '''' then ''#''
      else let r = uni_upper u (firstRune name) in
        if uni_letter u r then utf8 r else ''#'')"

definition sortIndices :: "IndexID3 list \<Rightarrow> IndexID3 list" where
  "sortIndices = sort_key ri_name"

definition buildIndices :: "unicode \<Rightarrow> (string \<Rightarrow> nat) \<Rightarrow> ArtistID3 list \<Rightarrow> IndexID3 list" where
  "buildIndices u fr artists =
     (let letter = (\<lambda>a. indexLetter u fr (ra_name a));
          indices = sortIndices (map (\<lambda>l. \<lparr>ri_name = l, ri_artists = filter (\<lambda>a. letter a = l) artists\<rparr>)
                                   (remdups (map letter artists)))
      in case indices of
           [] \<Rightarrow> []
         | i # is \<Rightarrow> if ri_name i = ''#'' then is @ [i] else indices)"

definition handleGetArtists :: "unicode \<Rightarrow> (string \<Rightarrow> nat) \<Rightarrow> reader \<Rightarrow> SubsonicResponse" where
  "handleGetArtists u fr rd =
     (if \<not> rd_pool rd then errResponse 0 ''database error''
      else case select rd 0 (\<lambda>now d. map (artistRow d) (artistsByName (db_artist d))) of
             Inl e \<Rightarrow> errResponse 0 ''query error''
           | Inr artists \<Rightarrow> okWith (Artists (buildIndices u fr artists)))"

definition handleGetArtist :: "reader \<Rightarrow> request \<Rightarrow> SubsonicResponse" where
  "handleGetArtist rd r =
     (let i = FormValue r ''id'' in
      if i = '''' then errResponse 10 ''missing parameter: id''
      else if \<not> rd_pool rd then errResponse 0 ''database error''
      else case select rd 0 (\<lambda>now d. artistOf d i) of
             Inl e \<Rightarrow> errResponse 70 ''artist not found''
           | Inr None \<Rightarrow> errResponse 70 ''artist not found''
           | Inr (Some a) \<Rightarrow>
               (case select rd 1 (\<lambda>now d. map (\<lambda>al. albumFromRow al (ar_name a) (ar_id a))
                        (orderNull al_year (sort_key al_name
                           (filter (\<lambda>al. al_artist_id al = i) (db_album d))))) of
                  Inl e \<Rightarrow> errResponse 0 ''query error''
                | Inr albums \<Rightarrow>
                    okWith (Artist \<lparr>aw_id = ar_id a, aw_name = ar_name a,
                      aw_albumCount = int (length albums), aw_albums = albums\<rparr>)))"

definition albumSongs :: "string \<Rightarrow> stamp \<Rightarrow> db \<Rightarrow> SongID3 list" where
  "albumSongs i now d =
     concat (map (joinSong d) (orderNull so_disc (orderNull so_track
       (filter (\<lambda>s. so_album_id s = i) (db_song d)))))"

text \<open>A handler's \<open>decorateRatings\<close> is its k-th query.\<close>

definition decorated :: "reader \<Rightarrow> nat \<Rightarrow> string \<Rightarrow> SongID3 list \<Rightarrow> SongID3 list" where
  "decorated rd k user songs = decorateRatings (select rd k) user songs"

definition handleGetAlbum :: "reader \<Rightarrow> request \<Rightarrow> SubsonicResponse" where
  "handleGetAlbum rd r =
     (let i = FormValue r ''id'' in
      if i = '''' then errResponse 10 ''missing parameter: id''
      else if \<not> rd_pool rd then errResponse 0 ''database error''
      else case select rd 0 (\<lambda>now d. concat (map (joinAlbum d)
                    (filter (\<lambda>al. al_id al = i) (db_album d)))) of
             Inl e \<Rightarrow> errResponse 70 ''album not found''
           | Inr [] \<Rightarrow> errResponse 70 ''album not found''
           | Inr (x # xs) \<Rightarrow>
               (case select rd 1 (albumSongs i) of
                  Inl e \<Rightarrow> errResponse 0 ''query error''
                | Inr songs \<Rightarrow>
                    okWith (Album \<lparr>lw_album = last (x # xs),
                      lw_songs = decorated rd 2 (usernameFromRequest r) songs\<rparr>)))"

definition handleGetSong :: "reader \<Rightarrow> request \<Rightarrow> SubsonicResponse" where
  "handleGetSong rd r =
     (let i = FormValue r ''id'' in
      if i = '''' then errResponse 10 ''missing parameter: id''
      else if \<not> rd_pool rd then errResponse 0 ''database error''
      else case select rd 0 (\<lambda>now d. concat (map (joinSong d)
                    (filter (\<lambda>s. so_id s = i) (db_song d)))) of
             Inl e \<Rightarrow> errResponse 70 ''song not found''
           | Inr [] \<Rightarrow> errResponse 70 ''song not found''
           | Inr (x # xs) \<Rightarrow>
               okWith (Song (hd (decorated rd 1 (usernameFromRequest r) [last (x # xs)]))))"

definition genreRows :: "db \<Rightarrow> Genre list" where
  "genreRows d =
     (let songs = filter (\<lambda>s. colText (so_genre s) \<noteq> '''') (db_song d) in
      map (\<lambda>g. let gs = filter (\<lambda>s. colText (so_genre s) = g) songs in
             \<lparr>rg_name = g, rg_songCount = int (length gs),
              rg_albumCount = int (length (remdups (map so_album_id gs)))\<rparr>)
        (sort (remdups (map (\<lambda>s. colText (so_genre s)) songs))))"

definition handleGetGenres :: "reader \<Rightarrow> SubsonicResponse" where
  "handleGetGenres rd =
     (if \<not> rd_pool rd then errResponse 0 ''database error''
      else case select rd 0 (\<lambda>now. genreRows) of
             Inl e \<Rightarrow> errResponse 0 ''query error''
           | Inr genres \<Rightarrow> okWith (Genres genres))"

end
