(* ===== verification/Playlist_Facts.thy ===== *)
theory Playlist_Facts
  imports Playlists
begin

text \<open>
  What the playlist operations do, stated on the specification's view of a playlist: \<open>songsOf\<close>,
  the list of its songs, with \<open>contiguous\<close> positions. The statements' effects come first, then
  the loops, then the handlers' bodies, which are interpretations of \<open>tx_program\<close>, then the
  properties.
\<close>

definition songsOf :: "db \<Rightarrow> string \<Rightarrow> string list" where
  "songsOf d i = map ps_song (entriesOf d i)"

definition contiguous :: "db \<Rightarrow> string \<Rightarrow> bool" where
  "contiguous d i \<longleftrightarrow> map ps_position (entriesOf d i) = map int [0..<length (entriesOf d i)]"

definition allContiguous :: "db \<Rightarrow> bool" where
  "allContiguous d \<longleftrightarrow> list_all (\<lambda>e. contiguous d (ps_playlist e)) (db_plsong d)"

section \<open>Sorting\<close>

lemma insort_key_last: "f a \<le> f x \<Longrightarrow> insort_key f a (ys @ [x]) = insort_key f a ys @ [x]"
  by (induction ys) auto

lemma sort_key_last:
  fixes f :: "'a \<Rightarrow> 'k :: linorder"
  shows "(\<And>y. y \<in> set xs \<Longrightarrow> f y \<le> f x) \<Longrightarrow> sort_key f (xs @ [x]) = sort_key f xs @ [x]"
proof (induction xs)
  case (Cons a xs)
  then show ?case by (simp add: insort_key_last)
qed simp

lemma foldr_max_ge:
  fixes a :: int
  shows "a \<le> foldr max xs a" "x \<in> set xs \<Longrightarrow> x \<le> foldr max xs a"
  by (induction xs) auto

lemma foldr_max_upt: "foldr max (map int [0..<n]) (- 1) = int n - 1"
proof (induction n)
  case (Suc n)
  have "foldr max xs (int n) = max (int n) (foldr max xs (- 1))" for xs
    by (induction xs) auto
  then show ?case using Suc by simp
qed simp

lemma entriesOf_allContiguous:
  assumes "allContiguous d"
  shows "contiguous d i"
proof (cases "\<exists>e \<in> set (db_plsong d). ps_playlist e = i")
  case True
  with assms show ?thesis by (auto simp: allContiguous_def list_all_iff)
next
  case False
  then have "filter (\<lambda>e. ps_playlist e = i) (db_plsong d) = []"
    by (simp add: filter_empty_conv)
  then show ?thesis by (simp add: contiguous_def entriesOf_def)
qed

lemma allContiguousI: "(\<And>i. contiguous d i) \<Longrightarrow> allContiguous d"
  by (simp add: allContiguous_def list_all_iff)

lemma set_entriesOf: "set (entriesOf d i) = {e \<in> set (db_plsong d). ps_playlist e = i}"
  by (auto simp: entriesOf_def)

section \<open>Statements\<close>

lemma entriesOf_delete:
  "entriesOf (d\<lparr>db_plsong := filter (\<lambda>e. ps_playlist e \<noteq> i) (db_plsong d)\<rparr>) j
    = (if j = i then [] else entriesOf d j)"
proof (cases "j = i")
  case False
  then have "filter (\<lambda>e. ps_playlist e = j) (filter (\<lambda>e. ps_playlist e \<noteq> i) es)
      = filter (\<lambda>e. ps_playlist e = j) es" for es
    by (induction es) auto
  from False this [of "db_plsong d"] show ?thesis by (simp add: entriesOf_def del: filter_filter)
qed (simp add: entriesOf_def)

lemma entriesOf_deleteAt:
  "entriesOf (d\<lparr>db_plsong := filter (\<lambda>e. \<not> (ps_playlist e = i \<and> ps_position e = k)) (db_plsong d)\<rparr>) j
    = (if j = i then filter (\<lambda>e. ps_position e \<noteq> k) (entriesOf d i) else entriesOf d j)"
proof -
  have "filter (\<lambda>e. ps_playlist e = j) (filter (\<lambda>e. \<not> (ps_playlist e = i \<and> ps_position e = k)) es)
      = (if j = i then filter (\<lambda>e. ps_position e \<noteq> k) (filter (\<lambda>e. ps_playlist e = i) es)
         else filter (\<lambda>e. ps_playlist e = j) es)" for es
    by (induction es) auto
  from this [of "db_plsong d"] show ?thesis
    by (simp add: entriesOf_def filter_sort del: filter_filter de_Morgan_conj)
qed

lemma entriesOf_insert:
  assumes "\<And>e. e \<in> set (entriesOf d i) \<Longrightarrow> ps_position e \<le> k"
  shows "entriesOf (d\<lparr>db_plsong := db_plsong d @ [\<lparr>ps_playlist = i, ps_song = s, ps_position = k\<rparr>]\<rparr>) j
    = (if j = i then entriesOf d i @ [\<lparr>ps_playlist = i, ps_song = s, ps_position = k\<rparr>]
       else entriesOf d j)"
proof -
  have "sort_key ps_position (filter (\<lambda>e. ps_playlist e = i) (db_plsong d)
        @ [\<lparr>ps_playlist = i, ps_song = s, ps_position = k\<rparr>])
      = sort_key ps_position (filter (\<lambda>e. ps_playlist e = i) (db_plsong d))
        @ [\<lparr>ps_playlist = i, ps_song = s, ps_position = k\<rparr>]"
    using assms by (intro sort_key_last) (auto simp: entriesOf_def)
  then show ?thesis by (simp add: entriesOf_def)
qed

section \<open>Loops\<close>

definition numbered :: "string \<Rightarrow> int \<Rightarrow> string list \<Rightarrow> plsong_row list" where
  "numbered i from songs =
     map (\<lambda>p. \<lparr>ps_playlist = i, ps_song = snd p, ps_position = from + int (fst p)\<rparr>) (enumerate 0 songs)"

lemma numbered_Cons:
  "numbered i from (s # songs)
    = \<lparr>ps_playlist = i, ps_song = s, ps_position = from\<rparr> # numbered i (from + 1) songs"
proof -
  have "enumerate (Suc k) songs = map (\<lambda>p. (Suc (fst p), snd p)) (enumerate k songs)" for k
    by (induction songs arbitrary: k) auto
  then show ?thesis by (simp add: numbered_def algebra_simps)
qed

lemma numbered_simps [simp]:
  "numbered i from [] = []" "length (numbered i from songs) = length songs"
  "map ps_song (numbered i from songs) = songs"
  by (simp_all add: numbered_def comp_def)

lemma numbered_positions:
  "map ps_position (numbered i from songs) = map (\<lambda>k. from + int k) [0..<length songs]"
proof (induction songs arbitrary: "from")
  case (Cons s songs)
  then show ?case
    by (simp add: numbered_Cons upt_conv_Cons map_Suc_upt [symmetric] comp_def del: upt_Suc map_Suc_upt)
qed simp

lemma insertAll_Cons:
  "insertAll env i (s # songs) from
    = tx_then (exec env (insertEntry i s from)) (insertAll env i songs (from + 1))"
proof -
  have "enumerate (Suc k) songs = map (\<lambda>p. (Suc (fst p), snd p)) (enumerate k songs)" for k
    by (induction songs arbitrary: k) auto
  then show ?thesis
    by (simp add: insertAll_def tx_each_map algebra_simps)
qed

lemma insertAll_effect:
  assumes "insertAll env i songs from c = (Inr (), c')"
    and "\<And>e. e \<in> set (entriesOf (cn_db c) i) \<Longrightarrow> ps_position e < from"
  shows "entriesOf (cn_db c') j
      = (if j = i then entriesOf (cn_db c) i @ numbered i from songs else entriesOf (cn_db c) j)
    \<and> (cn_db c')\<lparr>db_plsong := []\<rparr> = (cn_db c)\<lparr>db_plsong := []\<rparr>"
  using assms
proof (induction songs arbitrary: c "from")
  case Nil
  then show ?case by (simp add: insertAll_def)
next
  case (Cons s songs)
  from Cons.prems(1) obtain c1 where r: "exec env (insertEntry i s from) c = (Inr (), c1)"
    and rest: "insertAll env i songs (from + 1) c1 = (Inr (), c')"
    by (auto simp: insertAll_Cons simp del: exec_Inr)
  have c1: "cn_db c1 = (cn_db c)\<lparr>db_plsong := db_plsong (cn_db c)
        @ [\<lparr>ps_playlist = i, ps_song = s, ps_position = from\<rparr>]\<rparr>"
    by (rule exec_checked [OF r [unfolded insertEntry_def]])
  have e1: "entriesOf (cn_db c1) j = (if j = i
      then entriesOf (cn_db c) i @ [\<lparr>ps_playlist = i, ps_song = s, ps_position = from\<rparr>]
      else entriesOf (cn_db c) j)" for j
    unfolding c1 using Cons.prems(2) by (intro entriesOf_insert) fastforce
  have "ps_position e < from + 1" if "e \<in> set (entriesOf (cn_db c1) i)" for e
    using that Cons.prems(2) unfolding e1 by fastforce
  from Cons.IH [OF rest this] show ?case
    by (simp add: e1 numbered_Cons) (simp add: c1)
qed

lemma deleteAt_effect:
  assumes "tx_each (\<lambda>k. exec env (deleteEntryAt i k)) ks c = (Inr (), c')"
  shows "entriesOf (cn_db c') j = (if j = i
      then filter (\<lambda>e. ps_position e \<notin> set ks) (entriesOf (cn_db c) i) else entriesOf (cn_db c) j)
    \<and> (cn_db c')\<lparr>db_plsong := []\<rparr> = (cn_db c)\<lparr>db_plsong := []\<rparr>"
  using assms
proof (induction ks arbitrary: c)
  case (Cons k ks)
  from Cons.prems obtain c1 where r: "exec env (deleteEntryAt i k) c = (Inr (), c1)"
    and rest: "tx_each (\<lambda>k. exec env (deleteEntryAt i k)) ks c1 = (Inr (), c')"
    by (auto simp del: exec_Inr)
  have c1: "cn_db c1 = (cn_db c)\<lparr>db_plsong :=
        filter (\<lambda>e. \<not> (ps_playlist e = i \<and> ps_position e = k)) (db_plsong (cn_db c))\<rparr>"
    by (rule exec_checked [OF r [unfolded deleteEntryAt_def]])
  have e1: "entriesOf (cn_db c1) j = (if j = i
      then filter (\<lambda>e. ps_position e \<noteq> k) (entriesOf (cn_db c) i) else entriesOf (cn_db c) j)" for j
    unfolding c1 by (rule entriesOf_deleteAt)
  show ?case
    using Cons.IH [OF rest] by (simp add: e1 conj_commute) (simp add: c1)
qed simp

section \<open>Interfaces\<close>

lemma stmtOK_playlists [tx_intro]:
  "stmtOK (insertPlaylist i u n)" "stmtOK (setName n i u)" "stmtOK (setComment n i u)"
  "stmtOK (setPublic b i u)" "stmtOK (deletePlaylist i u)" "stmtOK (insertEntry i s k)"
  "stmtOK (deleteEntries i)" "stmtOK (deleteEntryAt i k)"
  unfolding insertPlaylist_def setName_def setComment_def setPublic_def updatePlaylist_def
    deletePlaylist_def insertEntry_def deleteEntries_def deleteEntryAt_def
  by (intro tx_intro)+

lemma insertAll_program [tx_intro]: "tx_program (insertAll env i songs from)"
  unfolding insertAll_def by (intro tx_intro)

interpretation creating: tx_program "createBody env user i name songs" for env user i name songs
  unfolding createBody_def by (cases "i = ''''") (auto intro!: tx_intro)

interpretation resequencing: tx_program "resequencePlaylist env i" for env i
  unfolding resequencePlaylist_def by (intro tx_intro)

lemma removeBody_program [tx_intro]: "tx_program (removeBody env i vs)"
  unfolding removeBody_def by (intro tx_intro resequencing.tx_program_axioms)

lemma addBody_program [tx_intro]: "tx_program (addBody env i ids)"
  unfolding addBody_def by (intro tx_intro)

interpretation updating: tx_program "updateBody env user i r" for env user i r
  unfolding updateBody_def Let_def by (intro tx_intro)

interpretation deleting: tx_program "deleteBody env user i" for env user i
  unfolding deleteBody_def by (intro tx_intro)

section \<open>Bodies\<close>

lemma entriesOf_cong: "db_plsong d = db_plsong d' \<Longrightarrow> entriesOf d i = entriesOf d' i"
  by (simp add: entriesOf_def)

lemma setters_entries:
  "exec env (setName n j u) c = (Inr x, c') \<Longrightarrow> entriesOf (cn_db c') i = entriesOf (cn_db c) i"
  "exec env (setComment n j u) c = (Inr x, c') \<Longrightarrow> entriesOf (cn_db c') i = entriesOf (cn_db c) i"
  "exec env (setPublic b j u) c = (Inr x, c') \<Longrightarrow> entriesOf (cn_db c') i = entriesOf (cn_db c) i"
  by (auto simp: setName_def setComment_def setPublic_def updatePlaylist_def intro!: entriesOf_cong)

lemma deleteEntries_effect:
  "exec env (deleteEntries i) c = (Inr x, c') \<Longrightarrow>
     entriesOf (cn_db c') j = (if j = i then [] else entriesOf (cn_db c) j)"
  using exec_checked [of env _ c x c'] by (simp only: deleteEntries_def entriesOf_delete)

text \<open>A playlist just inserted has no entries: the schema allows none without their playlist.\<close>

lemma insertPlaylist_entries:
  assumes "exec env (insertPlaylist i u n) c = (Inr x, c')" "schemaOK (cn_db c)"
  shows "entriesOf (cn_db c') j = (if j = i then [] else entriesOf (cn_db c) j)"
    and "entriesOf (cn_db c) i = []"
proof -
  from assms(1) have new: "i \<notin> pl_id ` set (db_playlist (cn_db c))"
    by (auto simp: insertPlaylist_def schemaOK_def playlistOK_def)
  have "ps_playlist e \<in> pl_id ` set (db_playlist (cn_db c))" if "e \<in> set (db_plsong (cn_db c))" for e
    using assms(2) that by (auto simp: schemaOK_def playlistOK_def intro: refersToD)
  with new have "filter (\<lambda>e. ps_playlist e = i) (db_plsong (cn_db c)) = []"
    by (auto simp: filter_empty_conv)
  then show none: "entriesOf (cn_db c) i = []"
    by (simp add: entriesOf_def)
  have "entriesOf (cn_db c') j = entriesOf (cn_db c) j"
    using assms(1) by (auto simp: insertPlaylist_def intro!: entriesOf_cong)
  with none show "entriesOf (cn_db c') j = (if j = i then [] else entriesOf (cn_db c) j)" by simp
qed

lemma createBody_effect:
  assumes "createBody env user p name songs c = (Inr i, c')" "schemaOK (cn_db c)"
  shows "entriesOf (cn_db c') j = (if j = i then numbered i 0 songs else entriesOf (cn_db c) j)"
    and "p \<noteq> '''' \<Longrightarrow> i = p"
proof -
  from assms(1) obtain c1 where
    head: "(if p \<noteq> '''' then
          tx_then (tx_when (name \<noteq> '''') (exec env (setName name p user)))
            (tx_then (exec env (deleteEntries p)) (tx_return p))
        else tx_bind (NewID env) (\<lambda>i. tx_then (exec env (insertPlaylist i user name)) (tx_return i))) c
      = (Inr i, c1)"
    and ins: "insertAll env i songs 0 c1 = (Inr (), c')"
    by (auto simp: createBody_def simp del: exec_Inr)
  have h: "entriesOf (cn_db c1) j = (if j = i then [] else entriesOf (cn_db c) j) \<and> (p \<noteq> '''' \<longrightarrow> i = p)" for j
  proof (cases "p = ''''")
    case True
    with head have r: "exec env (insertPlaylist i user name) (c\<lparr>cn_rnd := cn_rnd c + 2\<rparr>) = (Inr (), c1)"
      by (simp del: exec_Inr)
    show ?thesis
      using insertPlaylist_entries(1) [OF r, of j] assms(2) True by simp
  next
    case False
    with head obtain c0 where
      nm: "tx_when (name \<noteq> '''') (exec env (setName name p user)) c = (Inr (), c0)"
      and clr: "exec env (deleteEntries p) c0 = (Inr (), c1)" and i: "i = p"
      by (auto simp del: exec_Inr tx_when_Inr)
    have "entriesOf (cn_db c0) j = entriesOf (cn_db c) j"
      using nm setters_entries(1) by (auto split: if_splits simp del: exec_Inr)
    then show ?thesis
      using deleteEntries_effect [OF clr, of j] i by simp
  qed
  from h show "p \<noteq> '''' \<Longrightarrow> i = p" by blast
  show "entriesOf (cn_db c') j = (if j = i then numbered i 0 songs else entriesOf (cn_db c) j)"
    using insertAll_effect [OF ins, of j] h by auto
qed

lemma removeBody_effect:
  assumes "removeBody env i vs c = (Inr (), c')"
  shows "entriesOf (cn_db c') j = (if j = i \<and> vs \<noteq> []
    then numbered i 0 (map ps_song (filter (\<lambda>e. ps_position e \<notin> set (removeIndices vs)) (entriesOf (cn_db c) i)))
    else entriesOf (cn_db c) j)"
proof (cases "vs = []")
  case False
  let ?es = "filter (\<lambda>e. ps_position e \<notin> set (removeIndices vs)) (entriesOf (cn_db c) i)"
  from False assms obtain c1 where
    del: "tx_each (\<lambda>k. exec env (deleteEntryAt i k)) (removeIndices vs) c = (Inr (), c1)"
    and res: "resequencePlaylist env i c1 = (Inr (), c')"
    by (auto simp: removeBody_def simp del: exec_Inr)
  have e1: "entriesOf (cn_db c1) j = (if j = i then ?es else entriesOf (cn_db c) j)" for j
    using deleteAt_effect [OF del] by simp
  from res obtain songs c2 c3 where
    sel: "exec env (selecting (\<lambda>now d. map ps_song (entriesOf d i))) c1 = (Inr songs, c2)"
    and clr: "exec env (deleteEntries i) c2 = (Inr (), c3)"
    and ins: "insertAll env i songs 0 c3 = (Inr (), c')"
    by (auto simp: resequencePlaylist_def simp del: exec_Inr)
  from sel have s: "songs = map ps_song ?es" and d2: "cn_db c2 = cn_db c1"
    by (auto simp: e1)
  have e3: "entriesOf (cn_db c3) j = (if j = i then [] else entriesOf (cn_db c) j)" for j
    using deleteEntries_effect [OF clr] e1 d2 by simp
  then show ?thesis
    using insertAll_effect [OF ins, of j] False s by auto
qed (use assms in \<open>simp add: removeBody_def\<close>)

lemma maxPosition_ge: "e \<in> set (entriesOf d i) \<Longrightarrow> ps_position e \<le> maxPosition d i"
  unfolding maxPosition_def by (rule foldr_max_ge) simp

lemma addBody_effect:
  assumes "addBody env i ids c = (Inr (), c')"
  shows "entriesOf (cn_db c') j = (if j = i
    then entriesOf (cn_db c) i @ numbered i (maxPosition (cn_db c) i + 1) ids else entriesOf (cn_db c) j)"
proof (cases "ids = []")
  case False
  with assms obtain m c1 where
    sel: "exec env (selecting (\<lambda>now d. maxPosition d i)) c = (Inr m, c1)"
    and ins: "insertAll env i ids (m + 1) c1 = (Inr (), c')"
    by (auto simp: addBody_def simp del: exec_Inr)
  from sel have m: "m = maxPosition (cn_db c) i" "cn_db c1 = cn_db c" by auto
  have "ps_position e < m + 1" if "e \<in> set (entriesOf (cn_db c1) i)" for e
    using maxPosition_ge [of e "cn_db c" i] that m by simp
  from insertAll_effect [OF ins this, of j] m show ?thesis by simp
qed (use assms in \<open>simp add: addBody_def\<close>)

lemma updateBody_effect:
  assumes "updateBody env user i r c = (Inr (), c')"
  obtains c1 :: conn where "\<And>j. entriesOf (cn_db c1) j = (if j = i \<and> formValues r ''songIndexToRemove'' \<noteq> []
      then numbered i 0 (map ps_song (filter (\<lambda>e. ps_position e
        \<notin> set (removeIndices (formValues r ''songIndexToRemove''))) (entriesOf (cn_db c) i)))
      else entriesOf (cn_db c) j)"
    and "\<And>j. entriesOf (cn_db c') j = (if j = i
      then entriesOf (cn_db c1) i @ numbered i (maxPosition (cn_db c1) i + 1) (formValues r ''songIdToAdd'')
      else entriesOf (cn_db c1) j)"
proof -
  from assms obtain u1 u2 u3 u4 c1 c2 c3 c4 where
    s: "tx_when (FormValue r ''name'' \<noteq> '''') (exec env (setName (FormValue r ''name'') i user)) c = (Inr u1, c1)"
      "tx_when (formValues r ''comment'' \<noteq> []) (exec env (setComment (hd (formValues r ''comment'')) i user)) c1 = (Inr u2, c2)"
      "tx_when (formValues r ''public'' \<noteq> [])
          (exec env (setPublic (if hd (formValues r ''public'') = ''true'' then 1 else 0) i user)) c2 = (Inr u3, c3)"
    and rm0: "removeBody env i (formValues r ''songIndexToRemove'') c3 = (Inr u4, c4)"
    and ad: "addBody env i (formValues r ''songIdToAdd'') c4 = (Inr (), c')"
    unfolding updateBody_def Let_def tx_then_Inr by blast
  from rm0 have rm: "removeBody env i (formValues r ''songIndexToRemove'') c3 = (Inr (), c4)" by simp
  have "entriesOf (cn_db c1) j = entriesOf (cn_db c) j" for j
    using s(1) setters_entries(1) by (auto split: if_splits simp del: exec_Inr)
  moreover have "entriesOf (cn_db c2) j = entriesOf (cn_db c1) j" for j
    using s(2) setters_entries(2) by (auto split: if_splits simp del: exec_Inr)
  moreover have "entriesOf (cn_db c3) j = entriesOf (cn_db c2) j" for j
    using s(3) setters_entries(3) by (cases "formValues r ''public'' = []") (simp_all del: exec_Inr)
  ultimately have "entriesOf (cn_db c3) j = entriesOf (cn_db c) j" for j by simp
  then show ?thesis
    using that [of c4] removeBody_effect [OF rm] addBody_effect [OF ad] by simp
qed

section \<open>The specification's view\<close>

lemma filter_nths:
  assumes "map ps_position es = map (\<lambda>k. int (a + k)) [0..<length es]"
  shows "map ps_song (filter (\<lambda>e. ps_position e \<notin> K) es) = nths (map ps_song es) {k. int (a + k) \<notin> K}"
  using assms
proof (induction es arbitrary: a)
  case (Cons e es)
  have "map ps_position es = map (\<lambda>k. int (Suc a + k)) [0..<length es]" "ps_position e = int a"
    using Cons.prems by (simp_all add: upt_conv_Cons map_Suc_upt [symmetric] comp_def del: upt_Suc map_Suc_upt)
  moreover have "{k. int (Suc a + k) \<notin> K} = {j. Suc j \<in> {k. int (a + k) \<notin> K}}"
    by (simp add: ac_simps)
  ultimately have "map ps_song (filter (\<lambda>e. ps_position e \<notin> K) es)
      = nths (map ps_song es) {j. Suc j \<in> {k. int (a + k) \<notin> K}}" "ps_position e = int a"
    using Cons.IH [of "Suc a"] by (simp_all only:)
  then show ?case by (simp add: nths_Cons)
qed simp

lemma numbered_contiguous: "map ps_position (numbered i 0 songs) = map int [0..<length songs]"
  by (simp add: numbered_positions)

lemma contiguous_append:
  assumes "map ps_position es = map int [0..<length es]"
  shows "map ps_position (es @ numbered i (foldr max (map ps_position es) (- 1) + 1) songs)
    = map int [0..<length es + length songs]"
proof -
  have "map (\<lambda>k. int (length es) + int k) [0..<length songs] = map int [length es..<length es + length songs]"
    by (rule nth_equalityI) simp_all
  then have "map ps_position (numbered i (int (length es)) songs) = map int [length es..<length es + length songs]"
    by (simp add: numbered_positions)
  moreover have "[0..<length es + length songs] = [0..<length es] @ [length es..<length es + length songs]"
    using upt_add_eq_append [of 0 "length es" "length songs"] by simp
  ultimately show ?thesis
    using assms by (simp add: foldr_max_upt)
qed

lemma update_songs:
  assumes "contiguous (cn_db c) i"
    and "\<And>j. entriesOf (cn_db c1) j = (if j = i \<and> vs \<noteq> []
      then numbered i 0 (map ps_song (filter (\<lambda>e. ps_position e \<notin> set (removeIndices vs)) (entriesOf (cn_db c) i)))
      else entriesOf (cn_db c) j)"
    and "\<And>j. entriesOf (cn_db c') j = (if j = i
      then entriesOf (cn_db c1) i @ numbered i (maxPosition (cn_db c1) i + 1) ids
      else entriesOf (cn_db c1) j)"
  shows "songsOf (cn_db c') i = nths (songsOf (cn_db c) i) {k. int k \<notin> set (removeIndices vs)} @ ids"
    and "contiguous (cn_db c') i"
    and "j \<noteq> i \<Longrightarrow> entriesOf (cn_db c') j = entriesOf (cn_db c) j"
proof -
  have pos: "map ps_position (entriesOf (cn_db c) i) = map (\<lambda>k. int (0 + k)) [0..<length (entriesOf (cn_db c) i)]"
    using assms(1) by (simp add: contiguous_def)
  have "songsOf (cn_db c1) i = nths (songsOf (cn_db c) i) {k. int k \<notin> set (removeIndices vs)}"
  proof (cases "vs = []")
    case True
    then show ?thesis by (simp add: songsOf_def assms(2) removeIndices_def nths_all)
  next
    case False
    then show ?thesis using filter_nths [OF pos] by (simp add: songsOf_def assms(2))
  qed
  then show "songsOf (cn_db c') i = nths (songsOf (cn_db c) i) {k. int k \<notin> set (removeIndices vs)} @ ids"
    by (simp add: songsOf_def assms(3))
  have "map ps_position (entriesOf (cn_db c1) i) = map int [0..<length (entriesOf (cn_db c1) i)]"
    using pos numbered_contiguous by (cases "vs = []") (simp_all add: assms(2))
  from contiguous_append [OF this, of i ids] show "contiguous (cn_db c') i"
    by (simp add: contiguous_def assms(3) maxPosition_def)
  show "j \<noteq> i \<Longrightarrow> entriesOf (cn_db c') j = entriesOf (cn_db c) j"
    by (simp add: assms)
qed

lemma handleUpdatePlaylist_run:
  "handleUpdatePlaylist env r c = (resp, c') \<Longrightarrow> resp = okResp
      \<and> transaction env (updateBody env (usernameFromRequest r) (FormValue r ''playlistId'') r) c = (Inr (), c')
    \<or> \<not> succeeded resp \<and> (c' = c \<or> (\<exists>e.
        transaction env (updateBody env (usernameFromRequest r) (FormValue r ''playlistId'') r) c = (Inl e, c')))"
  by (auto simp: handleUpdatePlaylist_def answer_def requireUsername_Inl Let_def
      split: sum.splits if_splits prod.splits)

lemma handleDeletePlaylist_run:
  "handleDeletePlaylist env r c = (resp, c') \<Longrightarrow> resp = okResp
      \<and> transaction env (deleteBody env (usernameFromRequest r) (FormValue r ''id'')) c = (Inr (), c')
    \<or> \<not> succeeded resp \<and> (c' = c \<or> (\<exists>e.
        transaction env (deleteBody env (usernameFromRequest r) (FormValue r ''id'')) c = (Inl e, c')))"
  by (auto simp: handleDeletePlaylist_def answer_def requireUsername_Inl Let_def
      split: sum.splits if_splits prod.splits)

lemma updateBody_songs:
  assumes "updateBody env user i r c = (Inr (), c')" "contiguous (cn_db c) i"
  shows "songsOf (cn_db c') i = nths (songsOf (cn_db c) i)
      {k. int k \<notin> set (removeIndices (formValues r ''songIndexToRemove''))} @ formValues r ''songIdToAdd''
    \<and> contiguous (cn_db c') i \<and> (\<forall>j. j \<noteq> i \<longrightarrow> entriesOf (cn_db c') j = entriesOf (cn_db c) j)"
  using updateBody_effect [OF assms(1)]
proof cases
  case (1 c1)
  note u = update_songs [OF assms(2) 1]
  then show ?thesis by blast
qed

lemma update_committed:
  assumes "handleUpdatePlaylist env r c = (resp, c')" "connOK c"
  shows "connOK c' \<and> (if succeeded resp then cn_saved c' = None \<and>
      (\<exists>c1 c2. cn_db c1 = committed c \<and> committed c' = cn_db c2
         \<and> updateBody env (usernameFromRequest r) (FormValue r ''playlistId'') r c1 = (Inr (), c2))
    else committed c' = committed c)"
  using handleUpdatePlaylist_run [OF assms(1)] assms(2)
    updating.transaction_ok [OF _ assms(2)] updating.atomic [OF _ assms(2)] updating.published [OF _ assms(2)]
  by (elim disjE conjE exE) (simp_all, metis)

lemma delete_committed:
  assumes "handleDeletePlaylist env r c = (resp, c')" "connOK c"
  shows "connOK c' \<and> (if succeeded resp then cn_saved c' = None \<and>
      (\<exists>c1 c2. cn_db c1 = committed c \<and> committed c' = cn_db c2
         \<and> deleteBody env (usernameFromRequest r) (FormValue r ''id'') c1 = (Inr (), c2))
    else committed c' = committed c)"
  using handleDeletePlaylist_run [OF assms(1)] assms(2)
    deleting.transaction_ok [OF _ assms(2)] deleting.atomic [OF _ assms(2)] deleting.published [OF _ assms(2)]
  by (elim disjE conjE exE) (simp_all, metis)

lemma deleteBody_effect:
  assumes "deleteBody env user i c = (Inr (), c')"
  shows "db_playlist (cn_db c') = filter (\<lambda>p. \<not> (pl_id p = i \<and> pl_user p = user)) (db_playlist (cn_db c))"
    and "db_plsong (cn_db c') = filter (\<lambda>e. ps_playlist e \<noteq> i) (db_plsong (cn_db c))"
proof -
  from assms obtain c1 where s: "exec env (deleteEntries i) c = (Inr (), c1)"
    "exec env (deletePlaylist i user) c1 = (Inr (), c')"
    by (auto simp: deleteBody_def simp del: exec_Inr)
  have d1: "cn_db c1 = (cn_db c)\<lparr>db_plsong := filter (\<lambda>e. ps_playlist e \<noteq> i) (db_plsong (cn_db c))\<rparr>"
    by (rule exec_checked [OF s(1) [unfolded deleteEntries_def]])
  have d2: "db_playlist (cn_db c') = filter (\<lambda>p. \<not> (pl_id p = i \<and> pl_user p = user)) (db_playlist (cn_db c1))"
    "db_plsong (cn_db c') = filter (\<lambda>e. \<not> list_ex (\<lambda>p. (pl_id p = i \<and> pl_user p = user) \<and> pl_id p = ps_playlist e)
       (db_playlist (cn_db c1))) (db_plsong (cn_db c1))"
    using exec_checked [OF s(2) [unfolded deletePlaylist_def]] by (simp_all add: Let_def)
  show "db_plsong (cn_db c') = filter (\<lambda>e. ps_playlist e \<noteq> i) (db_plsong (cn_db c))"
    unfolding d2(2) d1 by (auto simp: list_ex_iff intro!: filter_cong)
  show "db_playlist (cn_db c') = filter (\<lambda>p. \<not> (pl_id p = i \<and> pl_user p = user)) (db_playlist (cn_db c))"
    unfolding d2(1) d1 by simp
qed

section \<open>Properties\<close>



text \<open>The songs of a playlist as a client reads them.\<close>

lemma find_key:
  "x \<in> set xs \<Longrightarrow> f x = k \<Longrightarrow> distinct (map f xs) \<Longrightarrow> find (\<lambda>y. f y = k) xs = Some x"
  by (induction xs) (auto simp: image_iff)

lemma joinSong_ids:
  assumes "schemaOK d" "s \<in> set (db_song d)"
  shows "map rs_id (joinSong d s) = [so_id s]"
proof -
  have r: "refersTo so_artist_id (db_song d) ar_id (db_artist d)" "refersTo so_album_id (db_song d) al_id (db_album d)"
    and dist: "distinct (map ar_id (db_artist d))" "distinct (map al_id (db_album d))"
    using assms(1) by (simp_all add: schemaOK_def libraryOK_def)
  obtain a al where "a \<in> set (db_artist d)" "ar_id a = so_artist_id s" "al \<in> set (db_album d)" "al_id al = so_album_id s"
    using refersToD [OF r(1) assms(2)] refersToD [OF r(2) assms(2)] by (auto simp: image_iff)
  then have "artistOf d (so_artist_id s) = Some a" "albumOf d (so_album_id s) = Some al"
    using dist by (simp_all add: artistOf_def albumOf_def find_key)
  then show ?thesis by (simp add: joinSong_def songFromRow_def)
qed

lemma playlistSongs_ids:
  assumes "schemaOK d"
  shows "map rs_id (playlistSongs i now d) = songsOf d i"
proof -
  have r: "refersTo ps_song (db_plsong d) so_id (db_song d)" and dist: "distinct (map so_id (db_song d))"
    using assms by (simp_all add: schemaOK_def playlistOK_def libraryOK_def)
  have one: "map rs_id (case songOf d (ps_song e) of None \<Rightarrow> [] | Some s \<Rightarrow> joinSong d s) = [ps_song e]"
    if e: "e \<in> set (entriesOf d i)" for e
  proof -
    from e have "e \<in> set (db_plsong d)" by (simp add: set_entriesOf)
    then obtain s where s: "s \<in> set (db_song d)" "so_id s = ps_song e"
      using refersToD [OF r] by (metis imageE)
    then have "songOf d (ps_song e) = Some s"
      using dist by (simp add: songOf_def find_key)
    then show ?thesis using joinSong_ids [OF assms s(1)] s(2) by simp
  qed
  have "map rs_id (concat (map (\<lambda>e. case songOf d (ps_song e) of None \<Rightarrow> [] | Some s \<Rightarrow> joinSong d s) es))
      = map ps_song es" if "set es \<subseteq> set (entriesOf d i)" for es
    using that one by (induction es) (auto split: option.splits)
  then show ?thesis by (simp add: playlistSongs_def songsOf_def)
qed

lemma decorateRatings_ids [simp]: "map rs_id (decorateRatings run user songs) = map rs_id songs"
  by (auto simp: decorateRatings_def stampRatings_def comp_def split: sum.splits option.splits
      intro!: map_cong)

lemma exec_selecting:
  "exec env (selecting q) c = (res, c') \<Longrightarrow> cn_saved c = None \<Longrightarrow> connOK c \<Longrightarrow>
     cn_db c' = cn_db c \<and> cn_saved c' = None \<and> connOK c' \<and> (\<forall>x. res = Inr x \<longrightarrow> (\<exists>now. x = q now (cn_db c)))"
  by (auto simp: exec_def selecting_def faulted_def committed_def connOK_def split: fault.splits if_splits)

lemma readBack_correct:
  assumes "readBack env user i c = (resp, c')" "cn_saved c = None" "connOK c"
  shows "succeeded resp \<and> cn_db c' = cn_db c \<and> cn_saved c' = None \<and> connOK c'
    \<and> (\<forall>pw. re_body resp = Playlist pw \<longrightarrow> map rs_id (pw_songs pw) = songsOf (cn_db c) i
         \<and> pe_songCount (pw_entry pw) = int (length (songsOf (cn_db c) i)))"
proof -
  obtain p c1 where p: "exec env (selecting (\<lambda>now d. playlistOf d i)) c = (p, c1)" by fastforce
  note p1 = exec_selecting [OF p assms(2,3)]
  obtain s c2 where s: "exec env (selecting (playlistSongs i)) c1 = (s, c2)" by fastforce
  note s1 = exec_selecting [OF s] p1
  obtain q c3 where q: "exec env (selecting (\<lambda>now d. ())) c2 = (q, c3)" by fastforce
  note q1 = exec_selecting [OF q]
  show ?thesis
  proof (cases "\<exists>x y. p = Inr x \<and> s = Inr y")
    case True
    then obtain x y now where xy: "p = Inr x" "s = Inr y" "y = playlistSongs i now (cn_db c)"
      using s1 by auto
    have ids: "map rs_id y = songsOf (cn_db c) i"
      using playlistSongs_ids assms(3) xy(3) by (simp add: connOK_def)
    then have len: "length y = length (songsOf (cn_db c) i)" by (metis length_map)
    define pw where "pw = withSongs (case x of None \<Rightarrow> emptyEntry | Some r \<Rightarrow> entryFromRow r) y"
    define z where "z = decorateRatings (\<lambda>q. fst (exec env (selecting q) c2)) user y"
    have "readBack env user i c = (okWith (Playlist (pw\<lparr>pw_songs := z\<rparr>)),
        if user \<noteq> '''' \<and> y \<noteq> [] then c3 else c2)"
      using p s q xy(1,2) by (simp add: readBack_def Let_def pw_def z_def del: exec_Inr)
    with assms(1) have r: "resp = okWith (Playlist (pw\<lparr>pw_songs := z\<rparr>))"
      "c' = (if user \<noteq> '''' \<and> y \<noteq> [] then c3 else c2)" by simp_all
    have "map rs_id z = songsOf (cn_db c) i" "pe_songCount (pw_entry pw) = int (length (songsOf (cn_db c) i))"
      using ids len by (simp_all add: z_def pw_def withSongs_def)
    moreover have "cn_db c' = cn_db c \<and> cn_saved c' = None \<and> connOK c'"
      using r(2) q1 s1 by simp
    ultimately show ?thesis
      unfolding r(1) by (simp add: okWith_def okResp_def succeeded_def)
  next
    case False
    then have "resp = okResp \<and> (c' = c1 \<or> c' = c2)"
      using assms(1) p s by (cases p; cases s) (simp_all add: readBack_def del: exec_Inr)
    then show ?thesis
      using s1 by (auto simp: okResp_def succeeded_def)
  qed
qed

lemma handleCreatePlaylist_run:
  assumes "handleCreatePlaylist env r c = (resp, c')"
  obtains (created) i c1 where
      "transaction env (createBody env (usernameFromRequest r) (FormValue r ''playlistId'')
         (FormValue r ''name'') (formValues r ''songId'')) c = (Inr i, c1)"
      "readBack env (usernameFromRequest r) i c1 = (resp, c')"
  | (refused) "\<not> succeeded resp" "c' = c"
  | (failed) e where "\<not> succeeded resp"
      "transaction env (createBody env (usernameFromRequest r) (FormValue r ''playlistId'')
         (FormValue r ''name'') (formValues r ''songId'')) c = (Inl e, c')"
  using assms
  by (auto simp: handleCreatePlaylist_def requireUsername_Inl Let_def
      split: sum.splits if_splits prod.splits)

lemma create_committed:
  assumes "handleCreatePlaylist env r c = (resp, c')" "connOK c"
  shows "connOK c' \<and>
    (if succeeded resp
     then cn_saved c' = None \<and> (\<exists>i. (FormValue r ''playlistId'' = '''' \<or> i = FormValue r ''playlistId'')
       \<and> (\<forall>j. entriesOf (committed c') j = (if j = i then numbered i 0 (formValues r ''songId'')
              else entriesOf (committed c) j))
       \<and> (\<forall>pw. re_body resp = Playlist pw \<longrightarrow> map rs_id (pw_songs pw) = songsOf (committed c') i
              \<and> pe_songCount (pw_entry pw) = int (length (songsOf (committed c') i))))
     else committed c' = committed c)"
  using assms(1)
proof (cases rule: handleCreatePlaylist_run)
  let ?u = "usernameFromRequest r" and ?p = "FormValue r ''playlistId''" and ?n = "FormValue r ''name''"
  let ?s = "formValues r ''songId''"
  case (created i c1)
  have ok1: "connOK c1" by (rule creating.transaction_ok [OF created(1) assms(2)])
  from created(1) assms(2) obtain c2 c3 where
    b: "cn_db c2 = committed c" "createBody env ?u ?p ?n ?s c2 = (Inr i, c3)" "committed c1 = cn_db c3"
      "cn_saved c1 = None"
    by (rule creating.published)
  have d1: "cn_db c1 = cn_db c3" using b(3,4) by (simp add: committed_closed)
  have "schemaOK (cn_db c2)" using assms(2) b(1) by (simp add: connOK_def)
  note e = createBody_effect [OF b(2) this]
  from readBack_correct [OF created(2) b(4) ok1]
  have rb: "succeeded resp" "cn_db c' = cn_db c3" "cn_saved c' = None" "connOK c'"
    "\<forall>pw. re_body resp = Playlist pw \<longrightarrow> map rs_id (pw_songs pw) = songsOf (cn_db c1) i
         \<and> pe_songCount (pw_entry pw) = int (length (songsOf (cn_db c1) i))"
    using d1 by simp_all
  have cm: "committed c' = cn_db c3" using rb by (simp add: committed_closed)
  show ?thesis
    unfolding cm b(1) [symmetric] using rb e(2) by (simp add: e(1)) (auto simp: d1)
next
  case refused
  then show ?thesis using assms(2) by simp
next
  case (failed e)
  then show ?thesis
    using creating.atomic [OF failed(2) assms(2)] creating.transaction_ok [OF failed(2) assms(2)] by simp
qed

text \<open>
  Claim C16. What \<open>createPlaylist\<close> writes is what it was given. On success there is a playlist (the
  one named by \<open>playlistId\<close> when there is one) whose songs are exactly the \<open>songId\<close> parameters in
  order, with contiguous positions; no other playlist's entries change; and if the answer carries
  a playlist, it lists those songs and their number. On an error nothing is committed.
\<close>

theorem handleCreatePlaylist_correct:
  assumes "handleCreatePlaylist env r c = (resp, c')" "connOK c"
  shows "connOK c' \<and>
    (if succeeded resp
     then cn_saved c' = None \<and> (\<exists>i. (FormValue r ''playlistId'' = '''' \<or> i = FormValue r ''playlistId'')
       \<and> songsOf (committed c') i = formValues r ''songId'' \<and> contiguous (committed c') i
       \<and> (\<nexists>j. j \<noteq> i \<and> entriesOf (committed c') j \<noteq> entriesOf (committed c) j))
       \<and> (\<nexists>pw. re_body resp = Playlist pw \<and> \<not> (map rs_id (pw_songs pw) = formValues r ''songId''
              \<and> pe_songCount (pw_entry pw) = int (length (formValues r ''songId''))))
     else committed c' = committed c)"
  using create_committed [OF assms]
  by (cases "succeeded resp") (fastforce simp: songsOf_def contiguous_def numbered_contiguous)+


theorem handleCreatePlaylist_correct_witness:
  "songsOf (committed (snd (handleCreatePlaylist quietEnv (sampleRequest ''ann''
      [(''playlistId'', ''p1''), (''songId'', ''c''), (''songId'', ''a'')]) (connOf sampleDb)))) ''p1''
    = [''c'', ''a'']"
proof -
  let ?r = "sampleRequest ''ann'' [(''playlistId'', ''p1''), (''songId'', ''c''), (''songId'', ''a'')]"
  let ?c = "connOf sampleDb"
  obtain resp c' where run: "handleCreatePlaylist quietEnv ?r ?c = (resp, c')" by fastforce
  have f: "FormValue ?r ''playlistId'' = ''p1''" "FormValue ?r ''name'' = ''''"
    "formValues ?r ''songId'' = [''c'', ''a'']"
    by (simp_all add: FormValue_def sampleRequest_form)
  obtain c1 where t: "transaction quietEnv (createBody quietEnv ''ann'' ''p1'' '''' [''c'', ''a'']) ?c = (Inr ''p1'', c1)"
    by (simp add: run_defs createBody_def insertAll_def deleteEntries_def insertEntry_def
        playlistOK_def sampleDb_songs sampleDb_playlists)
  have "handleCreatePlaylist quietEnv ?r ?c = readBack quietEnv ''ann'' ''p1'' c1"
    by (simp add: handleCreatePlaylist_def f t sampleRequest_form maxPlaylistSongs_def)
  with run have "readBack quietEnv ''ann'' ''p1'' c1 = (resp, c')" by simp
  moreover have "cn_saved c1 = None" "connOK c1"
    using creating.published [OF t] creating.transaction_ok [OF t] by (metis connOK_connOf schemaOK_sampleDb)+
  ultimately have "succeeded resp" using readBack_correct by blast
  then show ?thesis
    using handleCreatePlaylist_correct [OF run] run by (auto simp: f)
qed


section \<open>The invariant\<close>

lemma allContiguous_iff: "allContiguous d \<longleftrightarrow> (\<forall>i. contiguous d i)"
  using entriesOf_allContiguous allContiguousI by blast

lemma contiguous_cong: "entriesOf d i = entriesOf d' i \<Longrightarrow> contiguous d i = contiguous d' i"
  by (simp add: contiguous_def)

lemma create_keeps_contiguous [wf_intro]:
  assumes "handleCreatePlaylist env r c = (resp, c')" "connOK c" "allContiguous (committed c)"
  shows "allContiguous (committed c')"
proof (cases "succeeded resp")
  case True
  with create_committed [OF assms(1,2)] obtain i where
    "\<And>j. entriesOf (committed c') j = (if j = i then numbered i 0 (formValues r ''songId'')
      else entriesOf (committed c) j)" by auto
  with assms(3) show ?thesis
    by (simp add: allContiguous_iff contiguous_def numbered_contiguous)
qed (use create_committed [OF assms(1,2)] assms(3) in simp)

lemma update_keeps_contiguous [wf_intro]:
  assumes "handleUpdatePlaylist env r c = (resp, c')" "connOK c" "allContiguous (committed c)"
  shows "allContiguous (committed c')"
proof (cases "succeeded resp")
  case True
  with update_committed [OF assms(1,2)] obtain c1 c2 where
    b: "cn_db c1 = committed c" "committed c' = cn_db c2"
      "updateBody env (usernameFromRequest r) (FormValue r ''playlistId'') r c1 = (Inr (), c2)"
    by auto
  have "contiguous (cn_db c1) (FormValue r ''playlistId'')" using assms(3) b(1) by (simp add: allContiguous_iff)
  from updateBody_songs [OF b(3) this] assms(3) show ?thesis
    unfolding b(2) b(1) [symmetric] allContiguous_iff by (metis contiguous_cong)
qed (use update_committed [OF assms(1,2)] assms(3) in simp)

lemma delete_keeps_contiguous [wf_intro]:
  assumes "handleDeletePlaylist env r c = (resp, c')" "connOK c" "allContiguous (committed c)"
  shows "allContiguous (committed c')"
proof (cases "succeeded resp")
  case True
  with delete_committed [OF assms(1,2)] obtain c1 c2 where
    b: "cn_db c1 = committed c" "committed c' = cn_db c2"
      "deleteBody env (usernameFromRequest r) (FormValue r ''id'') c1 = (Inr (), c2)"
    by auto
  have "entriesOf (cn_db c2) j = entriesOf ((cn_db c1)\<lparr>db_plsong :=
      filter (\<lambda>e. ps_playlist e \<noteq> FormValue r ''id'') (db_plsong (cn_db c1))\<rparr>) j" for j
    using deleteBody_effect(2) [OF b(3)] by (intro entriesOf_cong) simp
  with assms(3) show ?thesis
    unfolding b(2) b(1) [symmetric] by (simp add: allContiguous_iff contiguous_def entriesOf_delete)
qed (use delete_committed [OF assms(1,2)] assms(3) in simp)

end
