(* ===== verification/Queries.thy ===== *)
theory Queries
  imports Browse
begin

text \<open>
  The listing handlers of \<open>internal/api\<close>: \<open>lists.go\<close>, \<open>search.go\<close>, \<open>info.go\<close>, \<open>lyrics.go\<close>'s
  mapping and \<open>scan.go\<close>'s status. \<open>shuffle\<close> is \<open>ORDER BY RANDOM()\<close> and \<open>fts\<close> the ranked matches
  of the FTS5 index; both are arguments, and a listing is stated for any value of them.
\<close>

section \<open>\<open>lists.go\<close>\<close>

definition albumsByName :: "AlbumID3 list \<Rightarrow> AlbumID3 list" where
  "albumsByName = sort_key (\<lambda>a. toLower (rl_name a))"

definition allAlbums :: "db \<Rightarrow> AlbumID3 list" where
  "allAlbums d = concat (map (joinAlbum d) (db_album d))"

definition albumIn :: "db \<Rightarrow> string \<Rightarrow> AlbumID3 list" where
  "albumIn d i = concat (map (joinAlbum d) (filter (\<lambda>al. al_id al = i) (db_album d)))"

text \<open>The user's stars of one type, newest first.\<close>

definition starsOf :: "db \<Rightarrow> string \<Rightarrow> string \<Rightarrow> star_row list" where
  "starsOf d user ty = sort_key (\<lambda>s. - st_created s)
     (filter (\<lambda>s. st_user s = user \<and> st_type s = ty) (db_star d))"

definition starredAlbums :: "db \<Rightarrow> string \<Rightarrow> AlbumID3 list" where
  "starredAlbums d user = concat (map (\<lambda>s. albumIn d (st_item s)) (starsOf d user itemTypeAlbum))"

text \<open>The plays of a user joined with song and album: the album of each.\<close>

definition playedAlbums :: "db \<Rightarrow> string \<Rightarrow> (play_row \<times> AlbumID3) list" where
  "playedAlbums d user = concat (map (\<lambda>p. case songOf d (ph_song p) of
       None \<Rightarrow> [] | Some s \<Rightarrow> map (Pair p) (albumIn d (so_album_id s)))
     (filter (\<lambda>p. ph_user p = user) (db_play d)))"

definition playGroups :: "(play_row \<times> AlbumID3) list \<Rightarrow> (AlbumID3 \<times> play_row list) list" where
  "playGroups ps = map (\<lambda>a. (a, map fst (filter (\<lambda>p. snd p = a) ps))) (remdups (map snd ps))"

definition recentAlbums :: "db \<Rightarrow> string \<Rightarrow> AlbumID3 list" where
  "recentAlbums d user = map fst (sort_key (\<lambda>g. - Max (ph_played ` set (snd g)))
     (playGroups (playedAlbums d user)))"

definition frequentAlbums :: "db \<Rightarrow> string \<Rightarrow> AlbumID3 list" where
  "frequentAlbums d user = map fst (sort_key (\<lambda>g. - int (length (snd g)))
     (playGroups (playedAlbums d user)))"

text \<open>The query of each list type: its rows before \<open>LIMIT\<close> and \<open>OFFSET\<close>, or the error.\<close>

definition albumListQuery ::
  "(AlbumID3 list \<Rightarrow> AlbumID3 list) \<Rightarrow> request \<Rightarrow> string
     \<Rightarrow> SubsonicResponse + (stamp \<Rightarrow> db \<Rightarrow> AlbumID3 list)" where
  "albumListQuery shuffle r listType =
     (if listType = ''random'' then Inr (\<lambda>now d. shuffle (allAlbums d))
      else if listType = ''newest'' then
        Inr (\<lambda>now d. sort_key (\<lambda>a. - rl_created a) (allAlbums d))
      else if listType = ''alphabeticalByName'' then
        Inr (\<lambda>now d. albumsByName (allAlbums d))
      else if listType = ''alphabeticalByArtist'' then
        Inr (\<lambda>now d. sort_key (\<lambda>a. toLower (rl_artist a)) (albumsByName (allAlbums d)))
      else if listType = ''byYear'' then
        (let lo = intParam r ''fromYear'' 0; hi = intParam r ''toYear'' 9999 in
         Inr (\<lambda>now d. sort_key rl_year (concat (map (joinAlbum d)
            (filter (\<lambda>al. case al_year al of None \<Rightarrow> False | Some y \<Rightarrow> lo \<le> y \<and> y \<le> hi)
               (db_album d))))))
      else if listType = ''byGenre'' then
        (let genre = FormValue r ''genre'' in
         if genre = '''' then Inl (errResponse 10 ''missing parameter: genre'')
         else Inr (\<lambda>now d. albumsByName (concat (map (joinAlbum d)
                (filter (\<lambda>al. al_genre al = Some genre) (db_album d))))))
      else if listType = ''starred'' then
        (case requireUsername r of Inl e \<Rightarrow> Inl e | Inr user \<Rightarrow> Inr (\<lambda>now d. starredAlbums d user))
      else if listType = ''recent'' then
        (case requireUsername r of Inl e \<Rightarrow> Inl e | Inr user \<Rightarrow> Inr (\<lambda>now d. recentAlbums d user))
      else if listType = ''frequent'' then
        (case requireUsername r of Inl e \<Rightarrow> Inl e | Inr user \<Rightarrow> Inr (\<lambda>now d. frequentAlbums d user))
      else Inl (errResponse 0 (''unknown list type: '' @ listType)))"

definition handleGetAlbumList2 ::
  "(AlbumID3 list \<Rightarrow> AlbumID3 list) \<Rightarrow> reader \<Rightarrow> request \<Rightarrow> SubsonicResponse" where
  "handleGetAlbumList2 shuffle rd r =
     (let listType = FormValue r ''type'' in
      if listType = '''' then errResponse 10 ''missing parameter: type''
      else let sz = min 500 (intParam r ''size'' 10); off = intParam r ''offset'' 0 in
        if \<not> rd_pool rd then errResponse 0 ''database error''
        else case albumListQuery shuffle r listType of
               Inl e \<Rightarrow> e
             | Inr q \<Rightarrow>
                 (case select rd 0 (\<lambda>now d.
                     sqlLimit sz (if listType = ''random'' then 0 else off) (q now d)) of
                    Inl e \<Rightarrow> errResponse 0 ''query error''
                  | Inr albums \<Rightarrow> okWith (AlbumList2 albums)))"

definition allSongs :: "db \<Rightarrow> SongID3 list" where
  "allSongs d = concat (map (joinSong d) (db_song d))"

definition songsByTitle :: "SongID3 list \<Rightarrow> SongID3 list" where
  "songsByTitle = sort_key (\<lambda>s. toLower (rs_title s))"

definition handleGetRandomSongs ::
  "(SongID3 list \<Rightarrow> SongID3 list) \<Rightarrow> reader \<Rightarrow> request \<Rightarrow> SubsonicResponse" where
  "handleGetRandomSongs shuffle rd r =
     (let sz = min 500 (intParam r ''size'' 10) in
      if \<not> rd_pool rd then errResponse 0 ''database error''
      else case select rd 0 (\<lambda>now d. sqlLimit sz 0 (shuffle (allSongs d))) of
             Inl e \<Rightarrow> errResponse 0 ''query error''
           | Inr songs \<Rightarrow> okWith (RandomSongs (decorated rd 1 (usernameFromRequest r) songs)))"

definition starredArtists :: "db \<Rightarrow> string \<Rightarrow> ArtistID3 list" where
  "starredArtists d user = concat (map (\<lambda>s. case artistOf d (st_item s) of
      None \<Rightarrow> [] | Some a \<Rightarrow> [artistRow d a]) (starsOf d user itemTypeArtist))"

definition starredSongs :: "db \<Rightarrow> string \<Rightarrow> SongID3 list" where
  "starredSongs d user = concat (map (\<lambda>s. case songOf d (st_item s) of
      None \<Rightarrow> [] | Some so \<Rightarrow> joinSong d so) (starsOf d user itemTypeSong))"

definition handleGetStarred2 :: "reader \<Rightarrow> request \<Rightarrow> SubsonicResponse" where
  "handleGetStarred2 rd r =
     (case requireUsername r of
        Inl e \<Rightarrow> e
      | Inr user \<Rightarrow>
          if \<not> rd_pool rd then errResponse 0 ''database error''
          else (case (select rd 0 (\<lambda>now d. starredArtists d user),
                      select rd 1 (\<lambda>now d. starredAlbums d user),
                      select rd 2 (\<lambda>now d. starredSongs d user)) of
                  (Inr artists, Inr albums, Inr songs) \<Rightarrow>
                    okWith (Starred2 \<lparr>sr_artists = artists, sr_albums = albums,
                              sr_songs = decorated rd 3 user songs\<rparr>)
                | _ \<Rightarrow> errResponse 0 ''query error''))"

definition handleGetSongsByGenre :: "reader \<Rightarrow> request \<Rightarrow> SubsonicResponse" where
  "handleGetSongsByGenre rd r =
     (let genre = FormValue r ''genre'' in
      if genre = '''' then errResponse 10 ''missing parameter: genre''
      else let n = min 500 (intParam r ''count'' 10); off = intParam r ''offset'' 0 in
        if \<not> rd_pool rd then errResponse 0 ''database error''
        else case select rd 0 (\<lambda>now d. sqlLimit n off (songsByTitle (concat (map (joinSong d)
                      (filter (\<lambda>s. so_genre s = Some genre) (db_song d)))))) of
               Inl e \<Rightarrow> errResponse 0 ''query error''
             | Inr songs \<Rightarrow> okWith (SongsByGenre (decorated rd 1 (usernameFromRequest r) songs)))"

section \<open>\<open>search.go\<close>\<close>

definition ftsEscape :: "string \<Rightarrow> string" where
  "ftsEscape query = [CHR 0x22] @ replaceByte (CHR 0x22) [CHR 0x22, CHR 0x22] query @ [CHR 0x22]"

definition searchArtists :: "string \<Rightarrow> db \<Rightarrow> ArtistID3 list" where
  "searchArtists query d = map (artistRow d) (artistsByName
     (if query = '''' then db_artist d
      else filter (\<lambda>a. sqlLike (''%'' @ query @ ''%'') (ar_name a)) (db_artist d)))"

definition searchAlbums :: "string \<Rightarrow> db \<Rightarrow> AlbumID3 list" where
  "searchAlbums query d = albumsByName (concat (map (joinAlbum d)
     (if query = '''' then db_album d
      else filter (\<lambda>al. sqlLike (''%'' @ query @ ''%'') (al_name al)) (db_album d))))"

text \<open>\<open>fts m rows\<close> lists the rowids the index gives for the match expression, best first.\<close>

definition searchSongs :: "(string \<Rightarrow> fts_row list \<Rightarrow> int list) \<Rightarrow> string \<Rightarrow> db \<Rightarrow> SongID3 list" where
  "searchSongs fts query d =
     (if query = '''' then songsByTitle (allSongs d)
      else case db_fts d of
             None \<Rightarrow> []
           | Some rows \<Rightarrow> concat (map (\<lambda>i. case find (\<lambda>s. so_rowid s = i) (db_song d) of
                 None \<Rightarrow> [] | Some s \<Rightarrow> joinSong d s) (fts (ftsEscape query @ ''*'') rows)))"

definition handleSearch3 ::
  "(string \<Rightarrow> fts_row list \<Rightarrow> int list) \<Rightarrow> reader \<Rightarrow> request \<Rightarrow> SubsonicResponse" where
  "handleSearch3 fts rd r =
     (let query = trimBoth (FormValue r ''query'') [CHR 0x22] in
      if \<not> rd_pool rd then errResponse 0 ''database error''
      else case (select rd 0 (\<lambda>now d. sqlLimit (intParam r ''artistCount'' 20)
                    (intParam r ''artistOffset'' 0) (searchArtists query d)),
                 select rd 1 (\<lambda>now d. sqlLimit (intParam r ''albumCount'' 20)
                    (intParam r ''albumOffset'' 0) (searchAlbums query d)),
                 select rd 2 (\<lambda>now d. sqlLimit (intParam r ''songCount'' 20)
                    (intParam r ''songOffset'' 0) (searchSongs fts query d))) of
             (Inr artists, Inr albums, Inr songs) \<Rightarrow>
               okWith (SearchResult3 \<lparr>sr_artists = artists, sr_albums = albums,
                 sr_songs = decorated rd 3 (usernameFromRequest r) songs\<rparr>)
           | _ \<Rightarrow> errResponse 0 ''query error'')"

section \<open>\<open>info.go\<close>\<close>

text \<open>The shape of the three handlers that only ask whether the item exists.\<close>

definition handleExists ::
  "(db \<Rightarrow> string \<Rightarrow> bool) \<Rightarrow> string \<Rightarrow> respBody \<Rightarrow> reader \<Rightarrow> request \<Rightarrow> SubsonicResponse" where
  "handleExists ex notFound body rd r =
     (let i = FormValue r ''id'' in
      if i = '''' then errResponse 10 ''missing parameter: id''
      else if \<not> rd_pool rd then errResponse 0 ''database error''
      else case select rd 0 (\<lambda>now d. ex d i) of
             Inl e \<Rightarrow> errResponse 0 ''database error''
           | Inr found \<Rightarrow> if found then okWith body else errResponse 70 notFound)"

definition handleGetArtistInfo2 :: "reader \<Rightarrow> request \<Rightarrow> SubsonicResponse" where
  "handleGetArtistInfo2 =
     handleExists (\<lambda>d i. list_ex (\<lambda>a. ar_id a = i) (db_artist d)) ''artist not found'' ArtistInfo2"

definition handleGetAlbumInfo2 :: "reader \<Rightarrow> request \<Rightarrow> SubsonicResponse" where
  "handleGetAlbumInfo2 =
     handleExists (\<lambda>d i. list_ex (\<lambda>al. al_id al = i) (db_album d)) ''album not found'' AlbumInfo"

definition handleGetSimilarSongs2 :: "reader \<Rightarrow> request \<Rightarrow> SubsonicResponse" where
  "handleGetSimilarSongs2 =
     handleExists (\<lambda>d i. list_ex (\<lambda>s. so_id s = i) (db_song d)) ''song not found'' (SimilarSongs2 [])"

text \<open>The played songs of an artist by number of plays.\<close>

definition topSongs :: "string \<Rightarrow> db \<Rightarrow> SongID3 list" where
  "topSongs artistName d =
     (let plays = concat (map (\<lambda>p. case songOf d (ph_song p) of None \<Rightarrow> [] | Some s \<Rightarrow> joinSong d s)
                    (db_play d));
          mine = filter (\<lambda>s. rs_artist s = artistName) plays
      in sort_key (\<lambda>s. - int (length (filter (\<lambda>x. rs_id x = rs_id s) mine))) (remdups mine))"

definition handleGetTopSongs :: "reader \<Rightarrow> request \<Rightarrow> SubsonicResponse" where
  "handleGetTopSongs rd r =
     (let artistName = FormValue r ''artist'' in
      if artistName = '''' then errResponse 10 ''missing parameter: artist''
      else let n = min 500 (intParam r ''count'' 50) in
        if \<not> rd_pool rd then errResponse 0 ''database error''
        else case select rd 0 (\<lambda>now d. sqlLimit n 0 (topSongs artistName d)) of
               Inl e \<Rightarrow> errResponse 0 ''query error''
             | Inr songs \<Rightarrow> okWith (TopSongs (decorated rd 1 (usernameFromRequest r) songs)))"

end
