(* ===== verification/Sessions.thy ===== *)
theory Sessions
  imports Http
begin

text \<open>
  Who may use the management UI: \<open>internal/manage/session.go\<close>, \<open>auth.go\<close>, \<open>auth_secret.go\<close> and
  \<open>auth_oidc.go\<close>. The session store and the table of pending OIDC logins are maps with a reaper;
  both are interpretations of one interface, \<open>reaped_store\<close>, whose lemmas say where an entry of
  such a table comes from. Times are nanoseconds. The OIDC provider and the oauth2 library are a
  record of functions; the bytes of \<open>crypto/rand\<close> are arguments.
\<close>

section \<open>The session store\<close>

definition sessionCookieName :: string where "sessionCookieName = ''preamp_session''"
definition sessionTTL :: int where "sessionTTL = 24 * 3600 * 1000000000"

record Session =
  ss_ID :: string
  ss_Username :: string
  ss_CreatedAt :: int
  ss_ExpiresAt :: int

type_synonym sessions = "string \<Rightarrow> Session option"

record cookie =
  ck_name :: string
  ck_value :: string
  ck_path :: string
  ck_httpOnly :: bool
  ck_secure :: bool
  ck_sameSiteStrict :: bool
  ck_maxAge :: int

definition randomHex :: "bytes \<Rightarrow> string" where
  "randomHex rnd = hexEncode rnd"

definition createSession :: "bytes \<Rightarrow> int \<Rightarrow> string \<Rightarrow> sessions \<Rightarrow> (string \<times> cookie) \<times> sessions" where
  "createSession rnd now username s =
     (let i = randomHex rnd in
      ((i, \<lparr>ck_name = sessionCookieName, ck_value = i, ck_path = ''/manage/'', ck_httpOnly = True,
            ck_secure = True, ck_sameSiteStrict = True, ck_maxAge = sessionTTL div 1000000000\<rparr>),
       s(i \<mapsto> \<lparr>ss_ID = i, ss_Username = username, ss_CreatedAt = now, ss_ExpiresAt = now + sessionTTL\<rparr>)))"

text \<open>\<open>r.Cookie\<close>: the first cookie of the name.\<close>

definition requestCookie :: "request \<Rightarrow> string \<Rightarrow> string option" where
  "requestCookie r name = map_of (rq_cookies r) name"

definition getSession :: "int \<Rightarrow> request \<Rightarrow> sessions \<Rightarrow> Session option" where
  "getSession now r s =
     (case requestCookie r sessionCookieName of
        None \<Rightarrow> None
      | Some v \<Rightarrow>
          (case s v of
             None \<Rightarrow> None
           | Some sess \<Rightarrow> if now > ss_ExpiresAt sess then None else Some sess))"

definition deleteSession :: "string \<Rightarrow> sessions \<Rightarrow> sessions" where
  "deleteSession i s = s(i := None)"

definition reapSessions :: "int \<Rightarrow> sessions \<Rightarrow> sessions" where
  "reapSessions now s = (\<lambda>i. case s i of
     None \<Rightarrow> None
   | Some sess \<Rightarrow> if now > ss_ExpiresAt sess then None else Some sess)"

section \<open>The file secret\<close>

record SecretAuthenticator =
  sc_username :: string
  sc_password :: string

text \<open>\<open>NewSecretAuthenticator\<close> of what \<open>os.ReadFile\<close> gave; \<^const>\<open>None\<close> is an error.\<close>

definition NewSecretAuthenticator :: "string option \<Rightarrow> SecretAuthenticator option" where
  "NewSecretAuthenticator file =
     (case file of
        None \<Rightarrow> None
      | Some text \<Rightarrow>
          (case cut (trimSpace text) (CHR '':'') of
             None \<Rightarrow> None
           | Some (u, p) \<Rightarrow> if u = '''' \<or> p = '''' then None
                            else Some \<lparr>sc_username = u, sc_password = p\<rparr>))"

definition secretCallback ::
  "request \<Rightarrow> SecretAuthenticator \<Rightarrow> string option \<times> SecretAuthenticator" where
  "secretCallback r a =
     (if FormValue r ''username'' \<noteq> sc_username a \<or> FormValue r ''password'' \<noteq> sc_password a
      then (None, a) else (Some (sc_username a), a))"

section \<open>OIDC\<close>

record pendingAuth =
  pa_codeVerifier :: string
  pa_createdAt :: int

type_synonym pending = "string \<Rightarrow> pendingAuth option"

text \<open>
  The provider: the URL for a state and a challenge, the exchange of a code and a verifier for
  the token's \<open>id_token\<close> (absent or not a string: \<open>Some None\<close>), the check of an ID token and
  its claims \<open>preferred_username\<close> and \<open>sub\<close>.
\<close>

record oidcProvider =
  op_authURL :: "string \<Rightarrow> string \<Rightarrow> string"
  op_exchange :: "string \<Rightarrow> string \<Rightarrow> string option option"
  op_verify :: "string \<Rightarrow> string option"
  op_claims :: "string \<Rightarrow> (string \<times> string) option"
  op_sha256 :: "string \<Rightarrow> bytes"

definition base64urlChars :: string where
  "base64urlChars = ''ABCDEFGHIJKLMNOPQRSTUVWXYZabcdefghijklmnopqrstuvwxyz0123456789-_''"

text \<open>\<open>base64.RawURLEncoding\<close>.\<close>

fun base64url :: "nat list \<Rightarrow> string" where
  "base64url [] = []"
| "base64url [a] = [base64urlChars ! (a div 4), base64urlChars ! (a mod 4 * 16)]"
| "base64url [a, b] = [base64urlChars ! (a div 4), base64urlChars ! (a mod 4 * 16 + b div 16),
     base64urlChars ! (b mod 16 * 4)]"
| "base64url (a # b # c # bs) = [base64urlChars ! (a div 4), base64urlChars ! (a mod 4 * 16 + b div 16),
     base64urlChars ! (b mod 16 * 4 + c div 64), base64urlChars ! (c mod 64)] @ base64url bs"

definition s256Challenge :: "oidcProvider \<Rightarrow> string \<Rightarrow> string" where
  "s256Challenge op v = base64url (map unat (op_sha256 op v))"

text \<open>The redirect's target.\<close>

definition oidcLogin :: "oidcProvider \<Rightarrow> bytes \<Rightarrow> bytes \<Rightarrow> int \<Rightarrow> pending \<Rightarrow> string \<times> pending" where
  "oidcLogin op rndState rndVerifier now p =
     (let state = randomHex rndState; codeVerifier = randomHex rndVerifier in
      (op_authURL op state (s256Challenge op codeVerifier),
       p(state \<mapsto> \<lparr>pa_codeVerifier = codeVerifier, pa_createdAt = now\<rparr>)))"

definition oidcCallback :: "oidcProvider \<Rightarrow> request \<Rightarrow> pending \<Rightarrow> string option \<times> pending" where
  "oidcCallback op r p =
     (let state = FormValue r ''state''; code = FormValue r ''code'' in
      case p state of
        None \<Rightarrow> (None, p)
      | Some pa \<Rightarrow>
          ((case op_exchange op code (pa_codeVerifier pa) of
              None \<Rightarrow> None
            | Some None \<Rightarrow> None
            | Some (Some raw) \<Rightarrow>
                (case op_verify op raw of
                   None \<Rightarrow> None
                 | Some idToken \<Rightarrow>
                     (case op_claims op idToken of
                        None \<Rightarrow> None
                      | Some (preferred, sub) \<Rightarrow> Some (if preferred = '''' then sub else preferred)))),
           p(state := None)))"

definition pendingTTL :: int where "pendingTTL = 10 * 60 * 1000000000"

definition reapPending :: "int \<Rightarrow> pending \<Rightarrow> pending" where
  "reapPending now p = (\<lambda>state. case p state of
     None \<Rightarrow> None
   | Some pa \<Rightarrow> if pa_createdAt pa < now - pendingTTL then None else Some pa)"

section \<open>Tables with a reaper\<close>

text \<open>
  A table is changed by storing an entry under a key, by removing a key, and by the reaper, which
  removes what is stale at its time.
\<close>

datatype 'v tableOp = Put string 'v | Remove string | Reap int

locale reaped_store =
  fixes entry :: "'s \<Rightarrow> string \<Rightarrow> 'v option"
    and stale :: "int \<Rightarrow> 'v \<Rightarrow> bool"
    and apply_op :: "'v tableOp \<Rightarrow> 's \<Rightarrow> 's"
    and start :: 's
  assumes entry_start: "entry start k = None"
    and entry_put: "entry (apply_op (Put k v) s) k' = (if k' = k then Some v else entry s k')"
    and entry_remove: "entry (apply_op (Remove k) s) k' = (if k' = k then None else entry s k')"
    and entry_reap: "entry (apply_op (Reap t) s) k' =
          (case entry s k' of None \<Rightarrow> None | Some v \<Rightarrow> if stale t v then None else Some v)"
begin

text \<open>
  Newest operation first: an entry that is there was stored, and since then its key was neither
  stored again nor removed, and no reaper saw it stale.
\<close>

lemma entry_origin:
  "entry (foldr apply_op ops start) k = Some v \<Longrightarrow>
     \<exists>later earlier. ops = later @ Put k v # earlier
       \<and> list_all (\<lambda>x. (\<forall>v'. x \<noteq> Put k v') \<and> x \<noteq> Remove k \<and> (\<forall>t. x = Reap t \<longrightarrow> \<not> stale t v)) later"
proof (induction ops)
  case Nil
  then show ?case by (simp add: entry_start)
next
  case (Cons x ops)
  let ?s = "foldr apply_op ops start"
  have "(x = Put k v) \<or> (entry ?s k = Some v \<and> (\<forall>v'. x \<noteq> Put k v') \<and> x \<noteq> Remove k
      \<and> (\<forall>t. x = Reap t \<longrightarrow> \<not> stale t v))"
    using Cons.prems by (cases x) (auto simp: entry_put entry_remove entry_reap split: if_splits option.splits)
  then show ?case
  proof
    assume "x = Put k v"
    then show ?thesis by (intro exI [of _ "[]"] exI [of _ ops]) simp
  next
    assume x: "entry ?s k = Some v \<and> (\<forall>v'. x \<noteq> Put k v') \<and> x \<noteq> Remove k
      \<and> (\<forall>t. x = Reap t \<longrightarrow> \<not> stale t v)"
    with Cons.IH obtain later earlier where "ops = later @ Put k v # earlier"
      "list_all (\<lambda>x. (\<forall>v'. x \<noteq> Put k v') \<and> x \<noteq> Remove k \<and> (\<forall>t. x = Reap t \<longrightarrow> \<not> stale t v)) later"
      by blast
    with x show ?thesis by (intro exI [of _ "x # later"] exI [of _ earlier]) simp
  qed
qed

text \<open>Conversely such an entry stays.\<close>

lemma entry_stays:
  "list_all (\<lambda>x. (\<forall>v'. x \<noteq> Put k v') \<and> x \<noteq> Remove k \<and> (\<forall>t. x = Reap t \<longrightarrow> \<not> stale t v)) later
    \<Longrightarrow> entry (foldr apply_op (later @ Put k v # earlier) start) k = Some v"
proof (induction later)
  case Nil
  then show ?case by (simp add: entry_put)
next
  case (Cons x later)
  then show ?case by (cases x) (auto simp: entry_put entry_remove entry_reap)
qed

end

fun sessionOp :: "Session tableOp \<Rightarrow> sessions \<Rightarrow> sessions" where
  "sessionOp (Put k v) s = s(k \<mapsto> v)"
| "sessionOp (Remove k) s = deleteSession k s"
| "sessionOp (Reap t) s = reapSessions t s"

fun pendingOp :: "pendingAuth tableOp \<Rightarrow> pending \<Rightarrow> pending" where
  "pendingOp (Put k v) p = p(k \<mapsto> v)"
| "pendingOp (Remove k) p = p(k := None)"
| "pendingOp (Reap t) p = reapPending t p"

interpretation sessionTable: reaped_store "\<lambda>s k. s k" "\<lambda>t sess. t > ss_ExpiresAt sess" sessionOp Map.empty
  by unfold_locales (auto simp: deleteSession_def reapSessions_def split: option.splits)

interpretation pendingTable: reaped_store "\<lambda>p k. p k" "\<lambda>t pa. pa_createdAt pa < t - pendingTTL" pendingOp Map.empty
  by unfold_locales (auto simp: reapPending_def split: option.splits)

end
