(* ===== verification/Encrypt.thy ===== *)
theory Encrypt
  imports Go_Lib
begin

text \<open>
  \<open>internal/auth/encrypt.go\<close>: passwords at rest under AES-GCM. The cipher is a parameter, a record
  of its two operations; what the code relies on, that opening what was sealed under the same
  key and nonce gives the plaintext back, is the hypothesis \<open>aeadOK\<close>. The random nonce is an
  argument, \<^const>\<open>None\<close> when the random source fails.
\<close>

record cipher =
  ae_seal :: "bytes \<Rightarrow> bytes \<Rightarrow> bytes \<Rightarrow> bytes"
  ae_open :: "bytes \<Rightarrow> bytes \<Rightarrow> bytes \<Rightarrow> bytes option"

text \<open>\<open>gcm.NonceSize()\<close> of \<open>cipher.NewGCM\<close>.\<close>

definition nonceSize :: nat where "nonceSize = 12"

datatype crypt_error = BadHex | BadKeyLength nat | NoRandom | ShortCiphertext | AuthFailed

definition deriveKey :: "string \<Rightarrow> crypt_error + bytes" where
  "deriveKey hexKey =
     (case hexDecode hexKey of
        None \<Rightarrow> Inl BadHex
      | Some key \<Rightarrow>
          if length key \<noteq> 16 \<and> length key \<noteq> 32 then Inl (BadKeyLength (length key)) else Inr key)"

definition EncryptPassword ::
  "cipher \<Rightarrow> bytes option \<Rightarrow> string \<Rightarrow> string \<Rightarrow> crypt_error + bytes" where
  "EncryptPassword ae rnd hexKey plaintext =
     (case deriveKey hexKey of
        Inl e \<Rightarrow> Inl e
      | Inr key \<Rightarrow>
          (case rnd of
             None \<Rightarrow> Inl NoRandom
           | Some nonce \<Rightarrow> Inr (nonce @ ae_seal ae key nonce (bytesOf plaintext))))"

definition DecryptPassword :: "cipher \<Rightarrow> string \<Rightarrow> bytes \<Rightarrow> crypt_error + string" where
  "DecryptPassword ae hexKey ciphertext =
     (case deriveKey hexKey of
        Inl e \<Rightarrow> Inl e
      | Inr key \<Rightarrow>
          if length ciphertext < nonceSize then Inl ShortCiphertext
          else case ae_open ae key (take nonceSize ciphertext) (drop nonceSize ciphertext) of
                 None \<Rightarrow> Inl AuthFailed
               | Some plaintext \<Rightarrow> Inr (strOf plaintext))"

section \<open>The cipher's contract\<close>

definition aeadOK :: "cipher \<Rightarrow> bool" where
  "aeadOK ae \<longleftrightarrow> (\<forall>key nonce p. ae_open ae key nonce (ae_seal ae key nonce p) = Some p)"

lemma decrypt_encrypt:
  assumes "aeadOK ae" "EncryptPassword ae (Some nonce) hexKey plaintext = Inr ct" "length nonce = nonceSize"
  shows "DecryptPassword ae hexKey ct = Inr plaintext"
  using assms by (auto simp: EncryptPassword_def DecryptPassword_def aeadOK_def split: sum.splits)

text \<open>
  A cipher with the contract, for the witnesses: the plaintext with the nonce and a copy of the
  key as its tag.
\<close>

definition tagCipher :: cipher where
  "tagCipher = \<lparr>ae_seal = (\<lambda>key nonce p. key @ nonce @ p),
     ae_open = (\<lambda>key nonce ct. if take (length key + length nonce) ct = key @ nonce
                                then Some (drop (length key + length nonce) ct) else None)\<rparr>"

lemma aeadOK_tagCipher [simp]: "aeadOK tagCipher"
  by (simp add: aeadOK_def tagCipher_def)

section \<open>Properties\<close>

text \<open>
  Claim C38. A password encrypted under a key decrypts to itself under that key, for every nonce of
  the cipher's size; the key is a hex string of 16 or 32 bytes, and any other key fails in both
  directions with the same error.
\<close>

theorem EncryptPassword_roundtrip:
  assumes "aeadOK ae" "length nonce = nonceSize"
  shows "(case deriveKey hexKey of
      Inr key \<Rightarrow> (length key = 16 \<or> length key = 32)
        \<and> (\<exists>ct. EncryptPassword ae (Some nonce) hexKey p = Inr ct \<and> DecryptPassword ae hexKey ct = Inr p)
    | Inl e \<Rightarrow> EncryptPassword ae (Some nonce) hexKey p = Inl e \<and> DecryptPassword ae hexKey ct' = Inl e)"
proof (cases "deriveKey hexKey")
  case (Inl e)
  then show ?thesis by (simp add: EncryptPassword_def DecryptPassword_def)
next
  case (Inr key)
  then have "EncryptPassword ae (Some nonce) hexKey p = Inr (nonce @ ae_seal ae key nonce (bytesOf p))"
    by (simp add: EncryptPassword_def)
  with decrypt_encrypt [OF assms(1) this assms(2)] Inr show ?thesis
    by (auto simp: deriveKey_def split: option.splits if_splits)
qed

theorem EncryptPassword_roundtrip_witness:
  "\<exists>ct. EncryptPassword tagCipher (Some (replicate 12 7)) ''000102030405060708090a0b0c0d0e0f'' ''hunter2'' = Inr ct
     \<and> DecryptPassword tagCipher ''000102030405060708090a0b0c0d0e0f'' ct = Inr ''hunter2''"
proof -
  have "length (replicate 12 7 :: bytes) = nonceSize" by (simp add: nonceSize_def)
  note r = EncryptPassword_roundtrip [OF aeadOK_tagCipher this,
      of "''000102030405060708090a0b0c0d0e0f''" "''hunter2''" "[]"]
  have "\<exists>key. deriveKey ''000102030405060708090a0b0c0d0e0f'' = Inr key"
    by (simp add: deriveKey_def hexVal_def)
  then show ?thesis using r by auto
qed

end
