(* ===== verification/Config.thy ===== *)
theory Config
  imports Encrypt
begin

text \<open>
  \<open>internal/config/config.go\<close>: the configuration and \<open>Load\<close>, which reads it from the environment.
  The operating system's answers (variables, \<open>stat\<close>, \<open>mkdir\<close>) and the library's
  \<open>filepath.Join\<close> and \<open>time.ParseDuration\<close> are a record of functions; durations are nanoseconds.
\<close>

record config =
  cfg_ListenAddr :: string
  cfg_MusicDir :: string
  cfg_DataDir :: string
  cfg_CoverArtDir :: string
  cfg_DBPath :: string
  cfg_EncryptionKey :: string
  cfg_AuthDisabled :: bool
  cfg_DevUsername :: string
  cfg_DevPassword :: string
  cfg_AdminListenAddr :: string
  cfg_CredentialTTL :: int
  cfg_CollectorToken :: string
  cfg_OIDCIssuer :: string
  cfg_OIDCClientID :: string
  cfg_OIDCClientSecret :: string
  cfg_OIDCRedirectURI :: string
  cfg_AdminSecretFile :: string
  cfg_ManageEnabled :: bool

record osys =
  os_getenv :: "string \<Rightarrow> string"
  os_isDir :: "string \<Rightarrow> bool option"
  os_mkdirAll :: "string \<Rightarrow> bool"
  os_join :: "string \<Rightarrow> string \<Rightarrow> string"
  os_parseDuration :: "string \<Rightarrow> int option"

datatype config_error =
    MusicDirRequired
  | MusicDirStat
  | MusicDirNotDir string
  | MkDataDir
  | MkCoverArtDir
  | KeyRequired
  | KeyNotHex
  | KeyLength nat
  | OIDCAndSecret
  | InvalidTTL string

definition envOr :: "osys \<Rightarrow> string \<Rightarrow> string \<Rightarrow> string" where
  "envOr os key fallback = (if os_getenv os key \<noteq> '''' then os_getenv os key else fallback)"

text \<open>The checks on the key, with \<open>noAuth\<close> for \<open>PREAMP_NO_AUTH=1\<close>.\<close>

definition checkKey :: "string \<Rightarrow> bool \<Rightarrow> config_error option" where
  "checkKey key noAuth =
     (if key = '''' \<and> \<not> noAuth then Some KeyRequired
      else if key \<noteq> '''' then
        (case hexDecode key of
           None \<Rightarrow> Some KeyNotHex
         | Some bs \<Rightarrow> if length bs \<noteq> 16 \<and> length bs \<noteq> 32 then Some (KeyLength (length bs)) else None)
      else None)"

definition Load :: "osys \<Rightarrow> config_error + config" where
  "Load os =
     (let musicDir = envOr os ''PREAMP_MUSIC_DIR'' '''';
          dataDir = envOr os ''PREAMP_DATA_DIR'' ''./data'';
          covers = os_join os dataDir ''covers'';
          noAuth = (envOr os ''PREAMP_NO_AUTH'' '''' = ''1'');
          key = envOr os ''PREAMP_ENCRYPTION_KEY'' '''';
          issuer = envOr os ''PREAMP_OIDC_ISSUER'' '''';
          secretFile = envOr os ''PREAMP_ADMIN_SECRET_FILE'' '''';
          ttlStr = envOr os ''PREAMP_CREDENTIAL_TTL'' ''168h'' in
      if musicDir = '''' then Inl MusicDirRequired
      else case os_isDir os musicDir of
        None \<Rightarrow> Inl MusicDirStat
      | Some isDir \<Rightarrow>
          if \<not> isDir then Inl (MusicDirNotDir musicDir)
          else if \<not> os_mkdirAll os dataDir then Inl MkDataDir
          else if \<not> os_mkdirAll os covers then Inl MkCoverArtDir
          else case checkKey key noAuth of
            Some e \<Rightarrow> Inl e
          | None \<Rightarrow>
              if issuer \<noteq> '''' \<and> secretFile \<noteq> '''' then Inl OIDCAndSecret
              else case os_parseDuration os ttlStr of
                None \<Rightarrow> Inl (InvalidTTL ttlStr)
              | Some ttl \<Rightarrow>
                  Inr \<lparr>cfg_ListenAddr = envOr os ''PREAMP_LISTEN'' '':4533'',
                    cfg_MusicDir = musicDir, cfg_DataDir = dataDir, cfg_CoverArtDir = covers,
                    cfg_DBPath = os_join os dataDir ''preamp.db'', cfg_EncryptionKey = key,
                    cfg_AuthDisabled = noAuth,
                    cfg_DevUsername = envOr os ''PREAMP_DEV_USERNAME'' '''',
                    cfg_DevPassword = envOr os ''PREAMP_DEV_PASSWORD'' '''',
                    cfg_AdminListenAddr = envOr os ''PREAMP_ADMIN_LISTEN'' '':4534'',
                    cfg_CredentialTTL = ttl,
                    cfg_CollectorToken = envOr os ''PREAMP_COLLECTOR_TOKEN'' '''',
                    cfg_OIDCIssuer = issuer,
                    cfg_OIDCClientID = envOr os ''PREAMP_OIDC_CLIENT_ID'' '''',
                    cfg_OIDCClientSecret = envOr os ''PREAMP_OIDC_CLIENT_SECRET'' '''',
                    cfg_OIDCRedirectURI = envOr os ''PREAMP_OIDC_REDIRECT_URI'' '''',
                    cfg_AdminSecretFile = secretFile,
                    cfg_ManageEnabled = (issuer \<noteq> '''' \<or> secretFile \<noteq> '''')\<rparr>)"

section \<open>Properties\<close>

lemma checkKey_None:
  "checkKey key noAuth = None \<Longrightarrow> (key = '''' \<and> noAuth) \<or> (\<exists>k. deriveKey key = Inr k)"
  by (auto simp: checkKey_def deriveKey_def split: if_splits option.splits)

lemma Load_facts:
  assumes "Load os = Inr c"
  shows "(cfg_EncryptionKey c = '''' \<and> cfg_AuthDisabled c \<or> (\<exists>k. deriveKey (cfg_EncryptionKey c) = Inr k))
    \<and> (cfg_OIDCIssuer c = '''' \<or> cfg_AdminSecretFile c = '''')
    \<and> cfg_ManageEnabled c = (cfg_OIDCIssuer c \<noteq> '''' \<or> cfg_AdminSecretFile c \<noteq> '''')
    \<and> cfg_MusicDir c \<noteq> '''' \<and> os_isDir os (cfg_MusicDir c) = Some True"
  using assms checkKey_None [of "envOr os ''PREAMP_ENCRYPTION_KEY'' ''''" "envOr os ''PREAMP_NO_AUTH'' '''' = ''1''"]
  by (auto simp: Load_def Let_def split: if_splits option.splits)

text \<open>
  A configuration that loads is one the server can run on: with authentication on there
  is an encryption key, any key given is one \<open>deriveKey\<close> accepts (so encrypting a password cannot
  fail on the key), the two ways to authenticate management users are not both set, and the
  management UI is enabled exactly when one of them is.
\<close>

theorem Load_sound:
  assumes "Load os = Inr c"
  shows "(cfg_EncryptionKey c = '''' \<and> cfg_AuthDisabled c \<or> (\<exists>k. deriveKey (cfg_EncryptionKey c) = Inr k))
    \<and> (cfg_OIDCIssuer c = '''' \<or> cfg_AdminSecretFile c = '''')
    \<and> cfg_ManageEnabled c = (cfg_OIDCIssuer c \<noteq> '''' \<or> cfg_AdminSecretFile c \<noteq> '''')
    \<and> cfg_MusicDir c \<noteq> '''' \<and> os_isDir os (cfg_MusicDir c) = Some True"
  using Load_facts [OF assms] .

definition sampleOs :: osys where
  "sampleOs = \<lparr>os_getenv = (\<lambda>k. if k = ''PREAMP_MUSIC_DIR'' then ''/m'' else if k = ''PREAMP_ENCRYPTION_KEY''
       then ''000102030405060708090a0b0c0d0e0f'' else ''''),
     os_isDir = (\<lambda>p. Some True), os_mkdirAll = (\<lambda>p. True), os_join = (\<lambda>a b. a @ ''/'' @ b),
     os_parseDuration = (\<lambda>s. Some 604800000000000)\<rparr>"

theorem Load_sound_witness:
  "\<exists>c k. Load sampleOs = Inr c \<and> deriveKey (cfg_EncryptionKey c) = Inr k"
proof -
  have "\<exists>c. Load sampleOs = Inr c \<and> \<not> cfg_AuthDisabled c"
    by (simp add: Load_def Let_def sampleOs_def envOr_def checkKey_def hexVal_def)
  then obtain c where c: "Load sampleOs = Inr c" "\<not> cfg_AuthDisabled c" by blast
  from Load_sound [OF c(1)] c show ?thesis by blast
qed

end
