(* ===== verification/Auth.thy ===== *)
theory Auth
  imports Annotation Config
begin

text \<open>
  Authentication of API requests: \<open>internal/api/auth.go\<close> and \<open>admin_auth.go\<close>. The server's two
  concurrent maps are the state: failures per client address and the API-key cache. The hash
  functions and the cipher are parameters; the clock's reading at each \<open>time.Now()\<close> of a request
  is a field of \<open>authTimes\<close>, in nanoseconds. One request is one step; the maps' own atomicity
  makes each of its parts one.
\<close>

section \<open>State\<close>

definition authFailureLimit :: int where "authFailureLimit = 10"
definition authFailureWindow :: int where "authFailureWindow = 5 * 60 * 1000000000"
definition apiKeyCacheTTL :: int where "apiKeyCacheTTL = 5 * 60 * 1000000000"

record apiKeyCacheEntry =
  ce_username :: string
  ce_expiry :: int

record failureEntry =
  fe_count :: int
  fe_resetAt :: int

record authState =
  as_failures :: "string \<Rightarrow> failureEntry option"
  as_cache :: "bytes \<Rightarrow> apiKeyCacheEntry option"

definition authInit :: authState where
  "authInit = \<lparr>as_failures = Map.empty, as_cache = Map.empty\<rparr>"

record crypto =
  cy_sha256 :: "string \<Rightarrow> bytes"
  cy_md5 :: "string \<Rightarrow> bytes"
  cy_bcrypt :: "bytes \<Rightarrow> string \<Rightarrow> bool"
  cy_aes :: cipher

record authTimes =
  tm_check :: int
  tm_checkReset :: int
  tm_cache :: int
  tm_store :: int
  tm_fail :: int
  tm_failReset :: int

section \<open>Rate limiting\<close>

text \<open>\<open>net.SplitHostPort\<close>'s host, empty on any of its errors.\<close>

definition lastIndex :: "char \<Rightarrow> string \<Rightarrow> nat option" where
  "lastIndex c s = (case indexByte (rev s) c of None \<Rightarrow> None | Some k \<Rightarrow> Some (length s - 1 - k))"

definition splitHost :: "string \<Rightarrow> string" where
  "splitHost addr =
     (case lastIndex (CHR '':'') addr of
        None \<Rightarrow> ''''
      | Some i \<Rightarrow>
          if addr ! 0 = CHR ''['' then
            (case indexByte addr (CHR '']'') of
               None \<Rightarrow> ''''
             | Some e \<Rightarrow>
                 if e + 1 \<noteq> i then ''''
                 else if CHR ''['' \<in> set (drop 1 addr) \<or> CHR '']'' \<in> set (drop (e + 1) addr) then ''''
                 else take (e - 1) (drop 1 addr))
          else if CHR '':'' \<in> set (take i addr) then ''''
          else if CHR ''['' \<in> set addr \<or> CHR '']'' \<in> set addr then ''''
          else take i addr)"

definition clientIP :: "request \<Rightarrow> string" where
  "clientIP r = (let ip = splitHost (rq_remote r) in if ip = '''' then rq_remote r else ip)"

definition failureOf :: "authState \<Rightarrow> string \<Rightarrow> failureEntry" where
  "failureOf st ip = (case as_failures st ip of Some e \<Rightarrow> e | None \<Rightarrow> \<lparr>fe_count = 0, fe_resetAt = 0\<rparr>)"

definition setFailure :: "string \<Rightarrow> failureEntry \<Rightarrow> authState \<Rightarrow> authState" where
  "setFailure ip e st = st\<lparr>as_failures := (as_failures st)(ip \<mapsto> e)\<rparr>"

definition checkRateLimit :: "authTimes \<Rightarrow> request \<Rightarrow> authState \<Rightarrow> bool \<times> authState" where
  "checkRateLimit t r st =
     (let ip = clientIP r; e = failureOf st ip;
          e' = (if tm_check t > fe_resetAt e
                then \<lparr>fe_count = 0, fe_resetAt = tm_checkReset t + authFailureWindow\<rparr> else e)
      in (fe_count e' \<ge> authFailureLimit, setFailure ip e' st))"

definition recordAuthFailure :: "authTimes \<Rightarrow> request \<Rightarrow> authState \<Rightarrow> authState" where
  "recordAuthFailure t r st =
     (let ip = clientIP r; e = failureOf st ip in
      setFailure ip
        (if tm_fail t > fe_resetAt e
         then \<lparr>fe_count = 1, fe_resetAt = tm_failReset t + authFailureWindow\<rparr>
         else e\<lparr>fe_count := fe_count e + 1\<rparr>) st)"

definition clearAuthFailure :: "request \<Rightarrow> authState \<Rightarrow> authState" where
  "clearAuthFailure r st = st\<lparr>as_failures := (as_failures st)(clientIP r := None)\<rparr>"

section \<open>Credentials\<close>

definition notExpired :: "stamp \<Rightarrow> credential_row \<Rightarrow> bool" where
  "notExpired now c \<longleftrightarrow> (case cr_expires c of None \<Rightarrow> True | Some e \<Rightarrow> e > now)"

definition validCredentials :: "stamp \<Rightarrow> db \<Rightarrow> credential_row list" where
  "validCredentials now d = filter (notExpired now) (db_credential d)"

definition legacyCredentials :: "string \<Rightarrow> stamp \<Rightarrow> db \<Rightarrow> credential_row list" where
  "legacyCredentials user now d =
     filter (\<lambda>c. cr_username c = user \<and> cr_legacy c = 1 \<and> cr_encrypted c \<noteq> None \<and> notExpired now c)
       (db_credential d)"

definition loadAllCredentials :: "reader \<Rightarrow> credential_row list option" where
  "loadAllCredentials rd =
     (if \<not> rd_pool rd then None
      else case select rd 0 validCredentials of
             Inl e \<Rightarrow> None
           | Inr cs \<Rightarrow> if cs = [] then None else Some cs)"

definition loadLegacyCredentials :: "reader \<Rightarrow> string \<Rightarrow> credential_row list option" where
  "loadLegacyCredentials rd user =
     (if \<not> rd_pool rd then None
      else case select rd 0 (legacyCredentials user) of
             Inl e \<Rightarrow> None
           | Inr cs \<Rightarrow> if cs = [] then None else Some cs)"

text \<open>The cache, then the scan of all credentials; \<^const>\<open>None\<close> is an error.\<close>

definition authenticateAPIKey ::
  "crypto \<Rightarrow> authTimes \<Rightarrow> reader \<Rightarrow> string \<Rightarrow> authState \<Rightarrow> string option \<times> authState" where
  "authenticateAPIKey cy t rd apiKey st =
     (let k = cy_sha256 cy apiKey;
          scan = (\<lambda>st. case loadAllCredentials rd of
              None \<Rightarrow> (None, st)
            | Some cs \<Rightarrow>
                (case find (\<lambda>c. cy_bcrypt cy (cr_hash c) apiKey) cs of
                   None \<Rightarrow> (None, st)
                 | Some c \<Rightarrow>
                     (Some (cr_username c),
                      st\<lparr>as_cache := (as_cache st)(k \<mapsto>
                        \<lparr>ce_username = cr_username c, ce_expiry = tm_store t + apiKeyCacheTTL\<rparr>)\<rparr>)))
      in case as_cache st k of
           None \<Rightarrow> scan st
         | Some e \<Rightarrow>
             if tm_cache t < ce_expiry e then (Some (ce_username e), st)
             else scan (st\<lparr>as_cache := (as_cache st)(k := None)\<rparr>))"

definition flushAPIKeyCache :: "authState \<Rightarrow> authState" where
  "flushAPIKeyCache st = st\<lparr>as_cache := Map.empty\<rparr>"

definition md5Hex :: "crypto \<Rightarrow> string \<Rightarrow> string" where
  "md5Hex cy s = hexEncode (cy_md5 cy s)"

text \<open>The passwords of the credentials that decrypt; the others are skipped.\<close>

definition legacyPasswords :: "crypto \<Rightarrow> string \<Rightarrow> credential_row list \<Rightarrow> string list" where
  "legacyPasswords cy key cs =
     concat (map (\<lambda>c. case cr_encrypted c of
         None \<Rightarrow> []
       | Some ct \<Rightarrow> (case DecryptPassword (cy_aes cy) key ct of Inl e \<Rightarrow> [] | Inr p \<Rightarrow> [p])) cs)"

definition authenticateToken ::
  "crypto \<Rightarrow> config \<Rightarrow> reader \<Rightarrow> string \<Rightarrow> string \<Rightarrow> string \<Rightarrow> bool" where
  "authenticateToken cy cfg rd user token salt =
     (case loadLegacyCredentials rd user of
        None \<Rightarrow> False
      | Some cs \<Rightarrow> list_ex (\<lambda>p. toLower token = toLower (md5Hex cy (p @ salt)))
                    (legacyPasswords cy (cfg_EncryptionKey cfg) cs))"

definition authenticateLegacy :: "crypto \<Rightarrow> config \<Rightarrow> reader \<Rightarrow> string \<Rightarrow> string \<Rightarrow> bool" where
  "authenticateLegacy cy cfg rd user plain =
     (case loadLegacyCredentials rd user of
        None \<Rightarrow> False
      | Some cs \<Rightarrow> list_ex (\<lambda>p. plain = p) (legacyPasswords cy (cfg_EncryptionKey cfg) cs))"

section \<open>The middleware\<close>

datatype authResult = Denied SubsonicResponse | Passed request

definition wrongPassword :: SubsonicResponse where
  "wrongPassword = errResponse 40 ''wrong username or password''"

definition tooMany :: SubsonicResponse where
  "tooMany = errResponse 40 ''too many failed attempts''"

text \<open>The plaintext of the \<open>p\<close> parameter.\<close>

definition plainPassword :: "string \<Rightarrow> string option" where
  "plainPassword p =
     (if hasPrefix p ''enc:''
      then (case hexDecode (drop 4 p) of None \<Rightarrow> None | Some bs \<Rightarrow> Some (strOf bs))
      else Some p)"

definition fail :: "authTimes \<Rightarrow> request \<Rightarrow> authState \<Rightarrow> authResult \<times> authState" where
  "fail t r st = (Denied wrongPassword, recordAuthFailure t r st)"

definition pass :: "string \<Rightarrow> request \<Rightarrow> authState \<Rightarrow> authResult \<times> authState" where
  "pass user r st = (Passed (withUser user r), clearAuthFailure r st)"

definition authMiddleware ::
  "crypto \<Rightarrow> config \<Rightarrow> authTimes \<Rightarrow> reader \<Rightarrow> request \<Rightarrow> authState \<Rightarrow> authResult \<times> authState" where
  "authMiddleware cy cfg t rd r st =
     (if cfg_AuthDisabled cfg then
        (let u = FormValue r ''u'' in (Passed (if u \<noteq> '''' then withUser u r else r), st))
      else let (limited, st) = checkRateLimit t r st in
      if limited then (Denied tooMany, st)
      else let apiKey = FormValue r ''apiKey'' in
      if apiKey \<noteq> '''' then
        (case authenticateAPIKey cy t rd apiKey st of
           (None, st) \<Rightarrow> fail t r st
         | (Some user, st) \<Rightarrow> pass user r st)
      else let user = FormValue r ''u'' in
      if user = '''' then (Denied (errResponse 10 ''missing parameter: u''), st)
      else let token = FormValue r ''t'' in
      if token \<noteq> '''' then
        (if authenticateToken cy cfg rd user token (FormValue r ''s'') then pass user r st
         else fail t r st)
      else let p = FormValue r ''p'' in
      if p \<noteq> '''' then
        (case plainPassword p of
           None \<Rightarrow> fail t r st
         | Some plain \<Rightarrow>
             if authenticateLegacy cy cfg rd user plain then pass user r st else fail t r st)
      else (Denied (errResponse 10 ''missing parameter: authentication''), st))"

text \<open>
  The admin API trusts the header of the gateway; the result is the request, or the status of
  the error.
\<close>

definition adminAuthMiddleware :: "config \<Rightarrow> request \<Rightarrow> request option" where
  "adminAuthMiddleware cfg r =
     (let h = headerGet r ''Remote-User'';
          u = (if h = '''' then headerGet r ''X-Forwarded-User'' else h) in
      if cfg_AuthDisabled cfg then Some (withUser (if u = '''' then ''dev'' else u) r)
      else if u = '''' then None else Some (withUser u r))"

end
