(* ===== verification/Admin.thy ===== *)
theory Admin
  imports Auth Browse
begin

text \<open>
  The JSON API of \<open>internal/api/admin.go\<close>: credentials, library statistics and issues, the play
  history for the collector, and the collector's authentication. What the runtime supplies to the
  creation of a credential (the draws of \<open>crypto/rand\<close>, bcrypt with its salt, the nonce, the clock
  in UTC nanoseconds) is a record; a panic of a handler is \<^const>\<open>None\<close>. A decoded JSON body and
  the URL's path values are arguments of the handlers that read them.
\<close>

section \<open>Types\<close>

record adminCredential =
  ac_id :: string
  ac_username :: string
  ac_clientName :: string
  ac_legacyAuth :: bool
  ac_createdAt :: stamp
  ac_expiresAt :: "stamp option"
  ac_expired :: bool
  ac_secret :: string

record adminStats =
  sa_artists :: nat
  sa_albums :: nat
  sa_songs :: nat
  sa_albumsMissingArt :: nat
  sa_songsUnknownArtist :: nat
  sa_songsNoGenre :: nat
  sa_songsNoYear :: nat
  sa_songsZeroDuration :: nat
  sa_albumsNoYear :: nat
  sa_albumsNoGenre :: nat

record createCredentialRequest =
  cq_clientName :: string
  cq_legacyAuth :: bool
  cq_TTL :: string

record songItem =
  si_title :: string
  si_artist :: string
  si_album :: string
  si_path :: string
  si_genre :: string
  si_year :: int
  si_duration :: int

record albumItem =
  ai_name :: string
  ai_artist :: string
  ai_year :: int
  ai_genre :: string
  ai_songCount :: int

record playHistoryEntry =
  pe_rowid :: int
  pe_playedAt :: stamp
  pe_songID :: string
  pe_title :: string
  pe_duration :: int
  pe_track :: int
  pe_disc :: int
  pe_year :: int
  pe_genre :: string
  pe_bitrate :: int
  pe_albumID :: string
  pe_album :: string
  pe_artistID :: string
  pe_artist :: string

datatype adminBody =
    AError string
  | AUsername string
  | ACredential adminCredential
  | ACredentials "adminCredential list"
  | AStats adminStats
  | ASongIssues "songItem list" nat
  | AAlbumIssues "albumItem list" nat
  | AScan bool int
  | AEntries "playHistoryEntry list"
  | ANoContent

text \<open>A status and a body.\<close>

type_synonym adminResponse = "int \<times> adminBody"

definition writeJSON :: "int \<Rightarrow> adminBody \<Rightarrow> adminResponse" where
  "writeJSON status v = (status, v)"

definition adminUsername :: "request \<Rightarrow> string" where
  "adminUsername r = (case rq_user r of Some u \<Rightarrow> u | None \<Rightarrow> '''')"

definition handleAdminWhoami :: "request \<Rightarrow> adminResponse" where
  "handleAdminWhoami r = writeJSON 200 (AUsername (adminUsername r))"

section \<open>Secrets and times\<close>

definition base62Chars :: string where
  "base62Chars = ''0123456789ABCDEFGHIJKLMNOPQRSTUVWXYZabcdefghijklmnopqrstuvwxyz''"

text \<open>The i-th draw of \<open>rand.Int\<close> below 62, \<^const>\<open>None\<close> when the random source fails.\<close>

fun randomBase62 :: "(nat \<Rightarrow> nat option) \<Rightarrow> nat \<Rightarrow> string option" where
  "randomBase62 draw 0 = Some []"
| "randomBase62 draw (Suc n) =
     (case draw 0 of
        None \<Rightarrow> None
      | Some k \<Rightarrow> map_option (\<lambda>s. base62Chars ! k # s) (randomBase62 (\<lambda>i. draw (Suc i)) n))"

record mintInput =
  mi_draw :: "nat \<Rightarrow> nat option"
  mi_hash :: "string \<Rightarrow> bytes option"
  mi_nonce :: "bytes option"
  mi_now :: int
  mi_created :: int

text \<open>\<open>Format("2006-01-02T15:04:05")\<close> of a time in the server's local zone.\<close>

definition nanos :: int where "nanos = 1000000000"

definition localStamp :: "env \<Rightarrow> int \<Rightarrow> stamp" where
  "localStamp env t = t div nanos + ev_tz env (t div nanos)"

section \<open>Credentials\<close>

definition insertCredential ::
  "string \<Rightarrow> string \<Rightarrow> bytes \<Rightarrow> bytes option \<Rightarrow> string \<Rightarrow> int \<Rightarrow> stamp option \<Rightarrow> unit stmt" where
  "insertCredential i user hash enc client legacy expires = checked (\<lambda>now d.
     d\<lparr>db_credential := db_credential d @
         [\<lparr>cr_id = i, cr_username = user, cr_hash = hash, cr_encrypted = enc, cr_client = client,
           cr_legacy = legacy, cr_expires = expires, cr_created = now\<rparr>]\<rparr>)"

text \<open>The result of these two is \<open>conn.Changes()\<close>.\<close>

definition ownedBy :: "string \<Rightarrow> string \<Rightarrow> credential_row \<Rightarrow> bool" where
  "ownedBy i user c \<longleftrightarrow> cr_id c = i \<and> cr_username c = user"

definition renewCredential :: "stamp \<Rightarrow> string \<Rightarrow> string \<Rightarrow> nat stmt" where
  "renewCredential expires i user = checkedRet (\<lambda>now d.
     (d\<lparr>db_credential := map (\<lambda>c. if ownedBy i user c then c\<lparr>cr_expires := Some expires\<rparr> else c) (db_credential d)\<rparr>,
      length (filter (ownedBy i user) (db_credential d))))"

definition deleteCredential :: "string \<Rightarrow> string \<Rightarrow> nat stmt" where
  "deleteCredential i user = checkedRet (\<lambda>now d.
     (d\<lparr>db_credential := filter (\<lambda>c. \<not> ownedBy i user c) (db_credential d)\<rparr>,
      length (filter (ownedBy i user) (db_credential d))))"

text \<open>The stored expiry is read back as if it were in UTC.\<close>

definition scanAdminCredential :: "int \<Rightarrow> credential_row \<Rightarrow> adminCredential" where
  "scanAdminCredential now c =
     \<lparr>ac_id = cr_id c, ac_username = cr_username c, ac_clientName = cr_client c,
      ac_legacyAuth = (cr_legacy c = 1), ac_createdAt = cr_created c, ac_expiresAt = cr_expires c,
      ac_expired = (case cr_expires c of None \<Rightarrow> False | Some e \<Rightarrow> now > e * nanos), ac_secret = ''''\<rparr>"

definition credentialsOf :: "string \<Rightarrow> db \<Rightarrow> credential_row list" where
  "credentialsOf user d = sort_key (\<lambda>c. - cr_created c) (filter (\<lambda>c. cr_username c = user) (db_credential d))"

definition handleAdminListCredentials :: "int \<Rightarrow> reader \<Rightarrow> request \<Rightarrow> adminResponse" where
  "handleAdminListCredentials now rd r =
     (if \<not> rd_pool rd then writeJSON 500 (AError ''database error'')
      else case select rd 0 (\<lambda>_. credentialsOf (adminUsername r)) of
        Inl e \<Rightarrow> writeJSON 500 (AError ''database error'')
      | Inr cs \<Rightarrow> writeJSON 200 (ACredentials (map (scanAdminCredential now) cs)))"

definition getAdminCredential :: "int \<Rightarrow> reader \<Rightarrow> string \<Rightarrow> string \<Rightarrow> adminCredential option" where
  "getAdminCredential now rd i user =
     (if \<not> rd_pool rd then None
      else case select rd 0 (\<lambda>_ d. filter (ownedBy i user) (db_credential d)) of
        Inl e \<Rightarrow> None
      | Inr cs \<Rightarrow> if cs = [] then None else Some (scanAdminCredential now (last cs)))"

text \<open>The lifetime a request asks for: \<open>"0"\<close> is no expiry, what does not parse is the default.\<close>

definition requestedTTL :: "config \<Rightarrow> (string \<Rightarrow> int option) \<Rightarrow> string \<Rightarrow> int" where
  "requestedTTL cfg parseDuration ttl =
     (if ttl \<noteq> '''' \<and> ttl \<noteq> ''0'' then
        (case parseDuration ttl of Some parsed \<Rightarrow> parsed | None \<Rightarrow> cfg_CredentialTTL cfg)
      else if ttl = ''0'' then 0 else cfg_CredentialTTL cfg)"

definition handleAdminCreateCredential ::
  "crypto \<Rightarrow> config \<Rightarrow> (string \<Rightarrow> int option) \<Rightarrow> mintInput \<Rightarrow> env \<Rightarrow> request
    \<Rightarrow> createCredentialRequest option \<Rightarrow> conn \<Rightarrow> adminResponse option \<times> conn" where
  "handleAdminCreateCredential cy cfg parseDuration mi env r body c =
     (let username = adminUsername r in
      case body of
        None \<Rightarrow> (Some (writeJSON 400 (AError ''invalid JSON body'')), c)
      | Some req \<Rightarrow>
     (case randomBase62 (mi_draw mi) 32 of
        None \<Rightarrow> (None, c)
      | Some secret \<Rightarrow>
     (case mi_hash mi secret of
        None \<Rightarrow> (Some (writeJSON 500 (AError ''internal error'')), c)
      | Some hashed \<Rightarrow>
     (case (if cq_legacyAuth req
            then map_sum id Some (EncryptPassword (cy_aes cy) (mi_nonce mi) (cfg_EncryptionKey cfg) secret)
            else Inr None) of
        Inl e \<Rightarrow> (Some (writeJSON 500 (AError ''internal error'')), c)
      | Inr encrypted \<Rightarrow>
     (case NewID env c of
        (Inl e, c) \<Rightarrow> (None, c)
      | (Inr i, c) \<Rightarrow>
          let ttl = requestedTTL cfg parseDuration (cq_TTL req);
              expiresAt = (if ttl > 0 then Some (localStamp env (mi_now mi + ttl)) else None) in
          if \<not> ev_pool env then (Some (writeJSON 500 (AError ''internal error'')), c)
          else case exec env (insertCredential i username hashed encrypted (cq_clientName req)
                 (if cq_legacyAuth req then 1 else 0) expiresAt) c of
            (Inl e, c) \<Rightarrow> (Some (writeJSON 500 (AError ''internal error'')), c)
          | (Inr _, c) \<Rightarrow>
              (Some (writeJSON 201 (ACredential
                 \<lparr>ac_id = i, ac_username = username, ac_clientName = cq_clientName req,
                  ac_legacyAuth = cq_legacyAuth req, ac_createdAt = localStamp env (mi_created mi),
                  ac_expiresAt = expiresAt, ac_expired = False, ac_secret = secret\<rparr>)), c))))))"

definition handleAdminRenewCredential ::
  "config \<Rightarrow> int \<Rightarrow> int \<Rightarrow> env \<Rightarrow> reader \<Rightarrow> request \<Rightarrow> string \<Rightarrow> conn \<Rightarrow> adminResponse \<times> conn" where
  "handleAdminRenewCredential cfg now readNow env rd r i c =
     (let username = adminUsername r;
          newExpiry = localStamp env (now + cfg_CredentialTTL cfg) in
      if \<not> ev_pool env then (writeJSON 500 (AError ''internal error''), c)
      else case exec env (renewCredential newExpiry i username) c of
        (Inl e, c) \<Rightarrow> (writeJSON 500 (AError ''internal error''), c)
      | (Inr changed, c) \<Rightarrow>
          if changed = 0 then (writeJSON 404 (AError ''credential not found''), c)
          else case getAdminCredential readNow rd i username of
            None \<Rightarrow> (writeJSON 500 (AError ''internal error''), c)
          | Some cred \<Rightarrow> (writeJSON 200 (ACredential cred), c))"

definition handleAdminDeleteCredential ::
  "env \<Rightarrow> request \<Rightarrow> string \<Rightarrow> authState \<Rightarrow> conn \<Rightarrow> adminResponse \<times> authState \<times> conn" where
  "handleAdminDeleteCredential env r i st c =
     (let username = adminUsername r in
      if \<not> ev_pool env then (writeJSON 500 (AError ''internal error''), st, c)
      else case exec env (deleteCredential i username) c of
        (Inl e, c) \<Rightarrow> (writeJSON 500 (AError ''internal error''), st, c)
      | (Inr changed, c) \<Rightarrow>
          if changed = 0 then (writeJSON 404 (AError ''credential not found''), st, c)
          else (writeJSON 204 ANoContent, flushAPIKeyCache st, c))"

end
