(* ===== verification/Manage.thy ===== *)
theory Manage
  imports Sessions Admin
begin

text \<open>
  The management UI: \<open>internal/manage/handlers.go\<close>, and the wiring of \<open>cmd/preamp/main.go\<close> that
  decides which authenticator it runs with. A page is the template and the data it is executed
  with; \<open>html/template\<close> itself is not modelled. The authenticator is the Go interface of
  \<open>auth.go\<close>: a record of its operations over a state of its own. The result \<^const>\<open>None\<close> of a
  handler is a panic.
\<close>

section \<open>Responses\<close>

record credentialView =
  cv_ID :: string
  cv_ClientName :: string
  cv_LegacyAuth :: bool
  cv_CreatedAt :: stamp
  cv_ExpiresAt :: "stamp option"
  cv_Expired :: bool

datatype page =
    NoPage
  | ErrorText string
  | LoginPage string
  | Dashboard "credentialView list"
  | CredentialRow credentialView
  | CredentialCreated string bool string string

record manageResponse =
  mr_status :: int
  mr_location :: string
  mr_cookie :: "cookie option"
  mr_page :: page

definition redirect :: "string \<Rightarrow> manageResponse" where
  "redirect url = \<lparr>mr_status = 302, mr_location = url, mr_cookie = None, mr_page = NoPage\<rparr>"

definition httpError :: "string \<Rightarrow> int \<Rightarrow> manageResponse" where
  "httpError msg code = \<lparr>mr_status = code, mr_location = '''', mr_cookie = None, mr_page = ErrorText msg\<rparr>"

definition showPage :: "int \<Rightarrow> page \<Rightarrow> manageResponse" where
  "showPage code p = \<lparr>mr_status = code, mr_location = '''', mr_cookie = None, mr_page = p\<rparr>"

section \<open>The authenticator interface\<close>

record loginInput =
  li_state :: bytes
  li_verifier :: bytes
  li_now :: int

record 'a authn =
  an_login :: "loginInput \<Rightarrow> request \<Rightarrow> 'a \<Rightarrow> manageResponse \<times> 'a"
  an_callback :: "request \<Rightarrow> 'a \<Rightarrow> string option \<times> 'a"
  an_reap :: "int \<Rightarrow> 'a \<Rightarrow> 'a"

definition secretLogin ::
  "loginInput \<Rightarrow> request \<Rightarrow> SecretAuthenticator \<Rightarrow> manageResponse \<times> SecretAuthenticator" where
  "secretLogin li r a =
     (if rq_method r \<noteq> ''GET'' then (httpError ''method not allowed'' 405, a)
      else (showPage 200 (LoginPage ''''), a))"

definition secretAuthn :: "SecretAuthenticator authn" where
  "secretAuthn = \<lparr>an_login = secretLogin, an_callback = secretCallback, an_reap = (\<lambda>now a. a)\<rparr>"

definition oidcAuthn :: "oidcProvider \<Rightarrow> pending authn" where
  "oidcAuthn op =
     \<lparr>an_login = (\<lambda>li r p. let (url, p) = oidcLogin op (li_state li) (li_verifier li) (li_now li) p
                             in (redirect url, p)),
      an_callback = oidcCallback op, an_reap = reapPending\<rparr>"

section \<open>The server\<close>

record 'a ManageServer =
  ms_sessions :: sessions
  ms_auth :: 'a

definition NewServer :: "'a \<Rightarrow> 'a ManageServer" where
  "NewServer a = \<lparr>ms_sessions = Map.empty, ms_auth = a\<rparr>"

definition redirectToDashboard :: manageResponse where
  "redirectToDashboard = redirect ''/manage/''"

text \<open>The handler behind \<open>requireSession\<close> runs only with a session; otherwise a redirect.\<close>

definition requireSession :: "int \<Rightarrow> request \<Rightarrow> 'a ManageServer \<Rightarrow> bool" where
  "requireSession now r s \<longleftrightarrow> getSession now r (ms_sessions s) \<noteq> None"

definition handleLoginPage ::
  "'a authn \<Rightarrow> loginInput \<Rightarrow> request \<Rightarrow> 'a ManageServer \<Rightarrow> manageResponse \<times> 'a ManageServer" where
  "handleLoginPage A li r s = (let (resp, a) = an_login A li r (ms_auth s) in (resp, s\<lparr>ms_auth := a\<rparr>))"

text \<open>What both login routes do after the authenticator's answer.\<close>

definition login ::
  "'a authn \<Rightarrow> manageResponse \<Rightarrow> bytes \<Rightarrow> int \<Rightarrow> request \<Rightarrow> 'a ManageServer \<Rightarrow> manageResponse \<times> 'a ManageServer" where
  "login A failed rnd now r s =
     (case an_callback A r (ms_auth s) of
        (None, a) \<Rightarrow> (failed, s\<lparr>ms_auth := a\<rparr>)
      | (Some username, a) \<Rightarrow>
          (let ((i, ck), sess) = createSession rnd now username (ms_sessions s) in
           ((redirect ''/manage/'')\<lparr>mr_cookie := Some ck\<rparr>, s\<lparr>ms_auth := a, ms_sessions := sess\<rparr>)))"

definition handleLoginSubmit ::
  "'a authn \<Rightarrow> bytes \<Rightarrow> int \<Rightarrow> request \<Rightarrow> 'a ManageServer \<Rightarrow> manageResponse \<times> 'a ManageServer" where
  "handleLoginSubmit A = login A (showPage 401 (LoginPage ''Invalid username or password''))"

definition handleCallback ::
  "'a authn \<Rightarrow> bytes \<Rightarrow> int \<Rightarrow> request \<Rightarrow> 'a ManageServer \<Rightarrow> manageResponse \<times> 'a ManageServer" where
  "handleCallback A = login A (httpError ''authentication failed'' 401)"

definition handleLogout :: "int \<Rightarrow> request \<Rightarrow> 'a ManageServer \<Rightarrow> manageResponse \<times> 'a ManageServer" where
  "handleLogout now r s =
     ((redirect ''/manage/login'')\<lparr>mr_cookie := Some
        \<lparr>ck_name = sessionCookieName, ck_value = '''', ck_path = ''/manage/'', ck_httpOnly = True,
         ck_secure = True, ck_sameSiteStrict = True, ck_maxAge = -1\<rparr>\<rparr>,
      (case getSession now r (ms_sessions s) of
         Some sess \<Rightarrow> s\<lparr>ms_sessions := deleteSession (ss_ID sess) (ms_sessions s)\<rparr>
       | None \<Rightarrow> s))"

section \<open>Credentials\<close>

definition scanCredentialView :: "int \<Rightarrow> credential_row \<Rightarrow> credentialView" where
  "scanCredentialView now c =
     \<lparr>cv_ID = cr_id c, cv_ClientName = cr_client c, cv_LegacyAuth = (cr_legacy c = 1),
      cv_CreatedAt = cr_created c, cv_ExpiresAt = cr_expires c,
      cv_Expired = (case cr_expires c of None \<Rightarrow> False | Some e \<Rightarrow> now > e * nanos)\<rparr>"

definition listCredentials :: "int \<Rightarrow> reader \<Rightarrow> string \<Rightarrow> credentialView list option" where
  "listCredentials now rd user =
     (if \<not> rd_pool rd then None
      else case select rd 0 (\<lambda>_. credentialsOf user) of
        Inl e \<Rightarrow> None
      | Inr cs \<Rightarrow> Some (map (scanCredentialView now) cs))"

definition getCredential :: "int \<Rightarrow> reader \<Rightarrow> string \<Rightarrow> string \<Rightarrow> credentialView option" where
  "getCredential now rd i user =
     (if \<not> rd_pool rd then None
      else case select rd 0 (\<lambda>_ d. filter (ownedBy i user) (db_credential d)) of
        Inl e \<Rightarrow> None
      | Inr cs \<Rightarrow> if cs = [] then None else Some (scanCredentialView now (last cs)))"

text \<open>
  The handlers get the session a second time, at a time of their own, and use it without a test:
  a session that ended since \<open>requireSession\<close> is a nil dereference.
\<close>

definition handleDashboard :: "int \<Rightarrow> int \<Rightarrow> reader \<Rightarrow> request \<Rightarrow> 'a ManageServer \<Rightarrow> manageResponse option" where
  "handleDashboard now readNow rd r s =
     (case getSession now r (ms_sessions s) of
        None \<Rightarrow> None
      | Some sess \<Rightarrow>
          (case listCredentials readNow rd (ss_Username sess) of
             None \<Rightarrow> Some (httpError ''internal error'' 500)
           | Some cs \<Rightarrow> Some (showPage 200 (Dashboard cs))))"

definition handleMintCredential ::
  "crypto \<Rightarrow> config \<Rightarrow> (string \<Rightarrow> int option) \<Rightarrow> mintInput \<Rightarrow> env \<Rightarrow> int \<Rightarrow> request \<Rightarrow> 'a ManageServer
    \<Rightarrow> conn \<Rightarrow> manageResponse option \<times> conn" where
  "handleMintCredential cy cfg parseDuration mi env now r s c =
     (case randomBase62 (mi_draw mi) 32 of
        None \<Rightarrow> (None, c)
      | Some secret \<Rightarrow>
     (case mi_hash mi secret of
        None \<Rightarrow> (Some (httpError ''internal error'' 500), c)
      | Some hashed \<Rightarrow>
     (let clientName = FormValue r ''client_name'';
          legacyAuth = (FormValue r ''legacy_auth'' = ''1'');
          encrypted = (if legacyAuth
            then EncryptPassword (cy_aes cy) (mi_nonce mi) (cfg_EncryptionKey cfg) secret else Inr []) in
      case encrypted of
        Inl e \<Rightarrow> (Some (httpError ''internal error'' 500), c)
      | Inr enc \<Rightarrow>
     (case NewID env c of
        (Inl e, c) \<Rightarrow> (None, c)
      | (Inr i, c) \<Rightarrow>
          let ttlStr = FormValue r ''ttl'';
              ttl = (if ttlStr = '''' then cfg_CredentialTTL cfg
                     else if ttlStr = ''0'' then 0
                     else case parseDuration ttlStr of None \<Rightarrow> cfg_CredentialTTL cfg | Some parsed \<Rightarrow> parsed);
              expiresAt = (if ttl > 0 then Some (localStamp env (mi_now mi + ttl)) else None) in
          if \<not> ev_pool env then (Some (httpError ''internal error'' 500), c)
          else (case getSession now r (ms_sessions s) of
            None \<Rightarrow> (None, c)
          | Some sess \<Rightarrow>
              (case exec env (insertCredential i (ss_Username sess) hashed (if legacyAuth then Some enc else None)
                      clientName (if legacyAuth then 1 else 0) expiresAt) c of
                 (Inl e, c) \<Rightarrow> (Some (httpError ''internal error'' 500), c)
               | (Inr _, c) \<Rightarrow>
                   (Some (showPage 200 (CredentialCreated clientName legacyAuth (ss_Username sess) secret)), c)))))))"

definition handleRenewCredential ::
  "config \<Rightarrow> int \<Rightarrow> int \<Rightarrow> int \<Rightarrow> env \<Rightarrow> reader \<Rightarrow> request \<Rightarrow> string \<Rightarrow> 'a ManageServer
    \<Rightarrow> conn \<Rightarrow> manageResponse option \<times> conn" where
  "handleRenewCredential cfg now clockNow readNow env rd r i s c =
     (let newExpiry = localStamp env (clockNow + cfg_CredentialTTL cfg) in
      if \<not> ev_pool env then (Some (httpError ''internal error'' 500), c)
      else case getSession now r (ms_sessions s) of
        None \<Rightarrow> (None, c)
      | Some sess \<Rightarrow>
          (case exec env (renewCredential newExpiry i (ss_Username sess)) c of
             (Inl e, c) \<Rightarrow> (Some (httpError ''internal error'' 500), c)
           | (Inr changed, c) \<Rightarrow>
               (case getCredential readNow rd i (ss_Username sess) of
                  None \<Rightarrow> (Some (httpError ''internal error'' 500), c)
                | Some cred \<Rightarrow> (Some (showPage 200 (CredentialRow cred)), c))))"

definition handleRevokeCredential ::
  "env \<Rightarrow> int \<Rightarrow> request \<Rightarrow> string \<Rightarrow> 'a ManageServer \<Rightarrow> conn \<Rightarrow> manageResponse option \<times> conn" where
  "handleRevokeCredential env now r i s c =
     (if \<not> ev_pool env then (Some (httpError ''internal error'' 500), c)
      else case getSession now r (ms_sessions s) of
        None \<Rightarrow> (None, c)
      | Some sess \<Rightarrow>
          (case exec env (deleteCredential i (ss_Username sess)) c of
             (Inl e, c) \<Rightarrow> (Some (httpError ''internal error'' 500), c)
           | (Inr changed, c) \<Rightarrow> (Some (showPage 200 NoPage), c)))"

section \<open>The development credential\<close>

definition upsertDevCredential :: "string \<Rightarrow> string \<Rightarrow> bytes \<Rightarrow> bytes \<Rightarrow> unit stmt" where
  "upsertDevCredential i user hash enc = checked (\<lambda>now d.
     d\<lparr>db_credential :=
       (if i \<in> cr_id ` set (db_credential d)
        then map (\<lambda>c. if cr_id c = i then c\<lparr>cr_hash := hash, cr_encrypted := Some enc\<rparr> else c) (db_credential d)
        else db_credential d @
          [\<lparr>cr_id = i, cr_username = user, cr_hash = hash, cr_encrypted = Some enc, cr_client = ''dev'',
            cr_legacy = 1, cr_expires = None, cr_created = now\<rparr>])\<rparr>)"

text \<open>The result is whether it returned without an error.\<close>

definition seedDevCredential ::
  "crypto \<Rightarrow> config \<Rightarrow> bytes option \<Rightarrow> (string \<Rightarrow> bytes option) \<Rightarrow> env \<Rightarrow> conn \<Rightarrow> bool \<times> conn" where
  "seedDevCredential cy cfg nonce hash env c =
     (case EncryptPassword (cy_aes cy) nonce (cfg_EncryptionKey cfg) (cfg_DevPassword cfg) of
        Inl e \<Rightarrow> (False, c)
      | Inr encrypted \<Rightarrow>
     (case hash (cfg_DevPassword cfg) of
        None \<Rightarrow> (False, c)
      | Some hashed \<Rightarrow>
          if \<not> ev_pool env then (False, c)
          else case exec env (upsertDevCredential (''dev-'' @ cfg_DevUsername cfg) (cfg_DevUsername cfg) hashed encrypted) c of
            (Inl e, c) \<Rightarrow> (False, c)
          | (Inr _, c) \<Rightarrow> (True, c)))"

section \<open>Start-up\<close>

text \<open>
  The value of the interface variable \<open>authenticator\<close> of \<open>main\<close> when the management UI is set
  up: nil, one of the two implementations, or the OIDC one holding a nil pointer, which is what
  the assignment of \<open>NewOIDCAuthenticator\<close>'s results leaves when discovery fails. The first
  result is \<open>os.Exit(1)\<close>.
\<close>

datatype authenticatorValue = NilInterface | SecretValue SecretAuthenticator | OIDCValue | TypedNilOIDC

definition mainAuthenticator ::
  "config \<Rightarrow> (string \<Rightarrow> string option) \<Rightarrow> bool \<Rightarrow> authenticatorValue option" where
  "mainAuthenticator cfg readFile discoveryOK =
     (if cfg_AdminSecretFile cfg \<noteq> '''' \<and> NewSecretAuthenticator (readFile (cfg_AdminSecretFile cfg)) = None
      then None
      else let a = (case NewSecretAuthenticator (readFile (cfg_AdminSecretFile cfg)) of
                      Some sa \<Rightarrow> if cfg_AdminSecretFile cfg \<noteq> '''' then SecretValue sa else NilInterface
                    | None \<Rightarrow> NilInterface)
      in Some (if cfg_OIDCIssuer cfg \<noteq> '''' then (if discoveryOK then OIDCValue else TypedNilOIDC) else a))"

text \<open>Whether the management UI is mounted, and whether the first call on its authenticator panics.\<close>

definition manageMounted :: "config \<Rightarrow> authenticatorValue \<Rightarrow> bool" where
  "manageMounted cfg a \<longleftrightarrow> cfg_ManageEnabled cfg \<and> a \<noteq> NilInterface"

definition loginPanics :: "authenticatorValue \<Rightarrow> bool" where
  "loginPanics a \<longleftrightarrow> a = TypedNilOIDC"

end
