(* ===== verification/Manage_Facts.thy ===== *)
theory Manage_Facts
  imports Manage Sample
begin

text \<open>
  Who has a session of the management UI: every session goes back to a login the authenticator
  accepted, for the secret of the file and for OIDC.
\<close>

section \<open>Runs of the management server\<close>

text \<open>
  What changes the server's tables: the login page, the two login routes, a logout (the times of
  \<open>requireSession\<close> and of the handler), and the two reapers. Newest event first.
\<close>

datatype manageEvent =
    EvLoginPage loginInput request
  | EvLoginSubmit bytes int request
  | EvCallback bytes int request
  | EvLogout int int request
  | EvReapSessions int
  | EvReapPending int

fun manageStep :: "'a authn \<Rightarrow> manageEvent \<Rightarrow> 'a ManageServer \<Rightarrow> 'a ManageServer" where
  "manageStep A (EvLoginPage li r) s = snd (handleLoginPage A li r s)"
| "manageStep A (EvLoginSubmit rnd now r) s = snd (handleLoginSubmit A rnd now r s)"
| "manageStep A (EvCallback rnd now r) s = snd (handleCallback A rnd now r s)"
| "manageStep A (EvLogout now1 now2 r) s = (if requireSession now1 r s then snd (handleLogout now2 r s) else s)"
| "manageStep A (EvReapSessions now) s = s\<lparr>ms_sessions := reapSessions now (ms_sessions s)\<rparr>"
| "manageStep A (EvReapPending now) s = s\<lparr>ms_auth := an_reap A now (ms_auth s)\<rparr>"

definition manageRun :: "'a authn \<Rightarrow> 'a \<Rightarrow> manageEvent list \<Rightarrow> 'a ManageServer" where
  "manageRun A a h = foldr (manageStep A) h (NewServer a)"

lemma manageRun_simps [simp]:
  "manageRun A a [] = NewServer a"
  "manageRun A a (e # h) = manageStep A e (manageRun A a h)"
  by (simp_all add: manageRun_def)

text \<open>The event is a login: its random bytes, its time and its request.\<close>

definition loginEvent :: "manageEvent \<Rightarrow> bytes \<Rightarrow> int \<Rightarrow> request \<Rightarrow> bool" where
  "loginEvent e rnd now r \<longleftrightarrow> e = EvLoginSubmit rnd now r \<or> e = EvCallback rnd now r"

definition newSession :: "bytes \<Rightarrow> int \<Rightarrow> string \<Rightarrow> Session" where
  "newSession rnd now u = \<lparr>ss_ID = randomHex rnd, ss_Username = u, ss_CreatedAt = now, ss_ExpiresAt = now + sessionTTL\<rparr>"

text \<open>What an event does to the session table.\<close>

definition loginOp :: "'a authn \<Rightarrow> bytes \<Rightarrow> int \<Rightarrow> request \<Rightarrow> 'a ManageServer \<Rightarrow> Session tableOp list" where
  "loginOp A rnd now r s = (case fst (an_callback A r (ms_auth s)) of
     None \<Rightarrow> [] | Some u \<Rightarrow> [Put (randomHex rnd) (newSession rnd now u)])"

fun sessionOpsOf :: "'a authn \<Rightarrow> manageEvent \<Rightarrow> 'a ManageServer \<Rightarrow> Session tableOp list" where
  "sessionOpsOf A (EvLoginPage li r) s = []"
| "sessionOpsOf A (EvLoginSubmit rnd now r) s = loginOp A rnd now r s"
| "sessionOpsOf A (EvCallback rnd now r) s = loginOp A rnd now r s"
| "sessionOpsOf A (EvLogout now1 now2 r) s = (if requireSession now1 r s
     then (case getSession now2 r (ms_sessions s) of Some sess \<Rightarrow> [Remove (ss_ID sess)] | None \<Rightarrow> []) else [])"
| "sessionOpsOf A (EvReapSessions now) s = [Reap now]"
| "sessionOpsOf A (EvReapPending now) s = []"

fun sessionOps :: "'a authn \<Rightarrow> 'a \<Rightarrow> manageEvent list \<Rightarrow> Session tableOp list" where
  "sessionOps A a [] = []"
| "sessionOps A a (e # h) = sessionOpsOf A e (manageRun A a h) @ sessionOps A a h"

lemma login_sessions:
  "ms_sessions (snd (login A failed rnd now r s)) = foldr sessionOp (loginOp A rnd now r s) (ms_sessions s)"
  "ms_auth (snd (login A failed rnd now r s)) = snd (an_callback A r (ms_auth s))"
  by (auto simp: login_def loginOp_def createSession_def newSession_def Let_def split: prod.splits option.splits)

lemma manageStep_sessions:
  "ms_sessions (manageStep A e s) = foldr sessionOp (sessionOpsOf A e s) (ms_sessions s)"
  by (cases e) (auto simp: login_sessions handleLoginSubmit_def handleCallback_def handleLoginPage_def
      handleLogout_def Let_def split: prod.splits option.splits)

lemma manageRun_sessions: "ms_sessions (manageRun A a h) = foldr sessionOp (sessionOps A a h) Map.empty"
  by (induction h) (simp_all add: manageStep_sessions NewServer_def)

text \<open>An operation of a run belongs to one event.\<close>

lemma sessionOpsOf_single: "sessionOpsOf A e s = [] \<or> (\<exists>x. sessionOpsOf A e s = [x])"
  by (cases e) (auto simp: loginOp_def split: option.splits)

lemma sessionOps_split:
  "sessionOps A a h = later @ Put k v # earlier \<Longrightarrow>
     \<exists>h1 e h2. h = h1 @ e # h2 \<and> sessionOpsOf A e (manageRun A a h2) = [Put k v] \<and> earlier = sessionOps A a h2
       \<and> (\<forall>h11 e' h12. h1 = h11 @ e' # h12 \<longrightarrow>
            (\<exists>l1 l2. later = l1 @ sessionOpsOf A e' (manageRun A a (h12 @ e # h2)) @ l2
               \<and> sessionOps A a (h12 @ e # h2) = l2 @ Put k v # earlier))"
proof (induction h arbitrary: later)
  case (Cons e0 h)
  let ?ops = "sessionOpsOf A e0 (manageRun A a h)"
  show ?case
  proof (cases "later = [] \<and> ?ops \<noteq> []")
    case True
    with sessionOpsOf_single [of A e0 "manageRun A a h"] Cons.prems
    have "?ops = [Put k v] \<and> earlier = sessionOps A a h" by auto
    then show ?thesis by (intro exI [of _ "[]"] exI [of _ e0] exI [of _ h]) simp
  next
    case False
    with sessionOpsOf_single [of A e0 "manageRun A a h"] Cons.prems
    obtain later' where l: "later = ?ops @ later'" "sessionOps A a h = later' @ Put k v # earlier"
      by (cases later) auto
    from Cons.IH [OF l(2)] obtain h1 e h2 where IH: "h = h1 @ e # h2"
      "sessionOpsOf A e (manageRun A a h2) = [Put k v]" "earlier = sessionOps A a h2"
      "\<forall>h11 e' h12. h1 = h11 @ e' # h12 \<longrightarrow>
            (\<exists>l1 l2. later' = l1 @ sessionOpsOf A e' (manageRun A a (h12 @ e # h2)) @ l2
               \<and> sessionOps A a (h12 @ e # h2) = l2 @ Put k v # earlier)" by blast
    have "\<exists>l1 l2. later = l1 @ sessionOpsOf A e' (manageRun A a (h12 @ e # h2)) @ l2
               \<and> sessionOps A a (h12 @ e # h2) = l2 @ Put k v # earlier"
      if s: "e0 # h1 = h11 @ e' # h12" for h11 e' h12
    proof (cases h11)
      case Nil
      with s have "e' = e0" "h12 = h1" by simp_all
      then show ?thesis using l IH(1) by (intro exI [of _ "[]"] exI [of _ later']) simp
    next
      case (Cons e1 h11')
      with s have "h1 = h11' @ e' # h12" by simp
      with IH(4) obtain l1 l2 where "later' = l1 @ sessionOpsOf A e' (manageRun A a (h12 @ e # h2)) @ l2"
        "sessionOps A a (h12 @ e # h2) = l2 @ Put k v # earlier" by blast
      then show ?thesis using l(1) by (intro exI [of _ "?ops @ l1"] exI [of _ l2]) simp
    qed
    with IH(1-3) show ?thesis by (intro exI [of _ "e0 # h1"] exI [of _ e] exI [of _ h2]) simp
  qed
qed simp

text \<open>A logout with the cookie of a session that has not ended at its two times removes it.\<close>

definition endsSession :: "string \<Rightarrow> int \<Rightarrow> manageEvent \<Rightarrow> bool" where
  "endsSession k expiry e \<longleftrightarrow> (\<exists>now1 now2 q. e = EvLogout now1 now2 q \<and> requestCookie q sessionCookieName = Some k
     \<and> now1 \<le> expiry \<and> now2 \<le> expiry)"

lemma session_origin:
  assumes "getSession t r (ms_sessions (manageRun A a h)) = Some sess"
  obtains h1 e h2 rnd now q where "h = h1 @ e # h2" "loginEvent e rnd now q"
    "fst (an_callback A q (ms_auth (manageRun A a h2))) = Some (ss_Username sess)"
    "sess = newSession rnd now (ss_Username sess)"
    "requestCookie r sessionCookieName = Some (randomHex rnd)" "t \<le> now + sessionTTL"
    "list_all (\<lambda>e. \<not> endsSession (randomHex rnd) (now + sessionTTL) e) h1"
proof -
  from assms obtain k where k: "requestCookie r sessionCookieName = Some k"
    "ms_sessions (manageRun A a h) k = Some sess" "t \<le> ss_ExpiresAt sess"
    by (auto simp: getSession_def split: option.splits if_splits)
  let ?quiet = "list_all (\<lambda>x. (\<forall>v'. x \<noteq> Put k v') \<and> x \<noteq> Remove k \<and> (\<forall>t. x = Reap t \<longrightarrow> \<not> t > ss_ExpiresAt sess))"
  from sessionTable.entry_origin [of "sessionOps A a h" k sess] k(2) obtain later earlier where
    ops: "sessionOps A a h = later @ Put k sess # earlier" "?quiet later"
    by (auto simp: manageRun_sessions)
  from sessionOps_split [OF ops(1)] obtain h1 e h2 where
    s: "h = h1 @ e # h2" "sessionOpsOf A e (manageRun A a h2) = [Put k sess]" "earlier = sessionOps A a h2"
      "\<And>h11 e' h12. h1 = h11 @ e' # h12 \<Longrightarrow>
          \<exists>l1 l2. later = l1 @ sessionOpsOf A e' (manageRun A a (h12 @ e # h2)) @ l2
            \<and> sessionOps A a (h12 @ e # h2) = l2 @ Put k sess # earlier" by blast
  from s(2) obtain rnd now q u where e: "loginEvent e rnd now q" "k = randomHex rnd" "sess = newSession rnd now u"
    "fst (an_callback A q (ms_auth (manageRun A a h2))) = Some u"
    by (cases e) (auto simp: loginOp_def loginEvent_def split: option.splits if_splits)
  have sess: "ss_ID sess = k" "ss_ExpiresAt sess = now + sessionTTL" "ss_Username sess = u"
    by (simp_all add: e newSession_def)
  have "\<not> endsSession k (now + sessionTTL) e'" if "e' \<in> set h1" for e'
  proof
    assume "endsSession k (now + sessionTTL) e'"
    then obtain now1 now2 q' where e': "e' = EvLogout now1 now2 q'" "requestCookie q' sessionCookieName = Some k"
      "now1 \<le> now + sessionTTL" "now2 \<le> now + sessionTTL" by (auto simp: endsSession_def)
    from that obtain h11 h12 where "h1 = h11 @ e' # h12" by (meson split_list)
    from s(4) [OF this] obtain l1 l2 where
      l: "later = l1 @ sessionOpsOf A e' (manageRun A a (h12 @ e # h2)) @ l2"
        "sessionOps A a (h12 @ e # h2) = l2 @ Put k sess # earlier" by blast
    from l(1) ops(2) have "?quiet l2" by simp
    from sessionTable.entry_stays [OF this] l(2)
    have "ms_sessions (manageRun A a (h12 @ e # h2)) k = Some sess"
      by (simp only: manageRun_sessions l(2))
    with e' sess have "sessionOpsOf A e' (manageRun A a (h12 @ e # h2)) = [Remove k]"
      by (simp add: getSession_def requireSession_def)
    with l(1) ops(2) show False by simp
  qed
  then show ?thesis
    using that [OF s(1) e(1)] e k sess by (simp add: list_all_iff)
qed

section \<open>OIDC\<close>

lemma authn_callback: "an_callback (oidcAuthn op) = oidcCallback op" "an_callback secretAuthn = secretCallback"
  by (simp_all add: oidcAuthn_def secretAuthn_def)

text \<open>What an event does to the table of pending logins.\<close>

fun pendingOpsOf :: "manageEvent \<Rightarrow> pendingAuth tableOp list" where
  "pendingOpsOf (EvLoginPage li r) = [Put (randomHex (li_state li))
     \<lparr>pa_codeVerifier = randomHex (li_verifier li), pa_createdAt = li_now li\<rparr>]"
| "pendingOpsOf (EvLoginSubmit rnd now r) = [Remove (FormValue r ''state'')]"
| "pendingOpsOf (EvCallback rnd now r) = [Remove (FormValue r ''state'')]"
| "pendingOpsOf (EvLogout now1 now2 r) = []"
| "pendingOpsOf (EvReapSessions now) = []"
| "pendingOpsOf (EvReapPending now) = [Reap now]"

lemma oidcCallback_pending: "snd (oidcCallback op r p) = p(FormValue r ''state'' := None)"
  by (auto simp: oidcCallback_def Let_def split: option.splits)

lemma oidcAuthn_step:
  "ms_auth (manageStep (oidcAuthn op) e s) = foldr pendingOp (pendingOpsOf e) (ms_auth s)"
  by (cases e) (auto simp: handleLoginSubmit_def handleCallback_def login_sessions oidcAuthn_def
      oidcCallback_pending handleLoginPage_def oidcLogin_def handleLogout_def Let_def split: option.splits)

lemma oidcRun_pending:
  "ms_auth (manageRun (oidcAuthn op) Map.empty h) = foldr pendingOp (concat (map pendingOpsOf h)) Map.empty"
  by (induction h) (simp_all add: oidcAuthn_step NewServer_def)

lemma pendingOps_split:
  "concat (map pendingOpsOf h) = later @ Put k v # earlier \<Longrightarrow>
     \<exists>h1 li q h2. h = h1 @ EvLoginPage li q # h2 \<and> later = concat (map pendingOpsOf h1)
       \<and> k = randomHex (li_state li)
       \<and> v = \<lparr>pa_codeVerifier = randomHex (li_verifier li), pa_createdAt = li_now li\<rparr>"
proof (induction h arbitrary: later)
  case (Cons e h)
  show ?case
  proof (cases "later = [] \<and> pendingOpsOf e \<noteq> []")
    case True
    with Cons.prems have "\<exists>li q. e = EvLoginPage li q \<and> k = randomHex (li_state li)
       \<and> v = \<lparr>pa_codeVerifier = randomHex (li_verifier li), pa_createdAt = li_now li\<rparr>"
      by (cases e) auto
    with True show ?thesis by (intro exI [of _ "[]"]) auto
  next
    case False
    with Cons.prems obtain later' where l: "later = pendingOpsOf e @ later'"
      "concat (map pendingOpsOf h) = later' @ Put k v # earlier"
      by (cases e; cases later) auto
    from Cons.IH [OF l(2)] obtain h1 li q h2 where "h = h1 @ EvLoginPage li q # h2"
      "later' = concat (map pendingOpsOf h1)" "k = randomHex (li_state li)"
      "v = \<lparr>pa_codeVerifier = randomHex (li_verifier li), pa_createdAt = li_now li\<rparr>" by blast
    with l(1) show ?thesis
      by (intro exI [of _ "e # h1"] exI [of _ li] exI [of _ q] exI [of _ h2]) simp
  qed
qed simp

text \<open>The event uses the state up, or a reaper that ran at its time saw it too old.\<close>

fun spendsState :: "string \<Rightarrow> int \<Rightarrow> manageEvent \<Rightarrow> bool" where
  "spendsState state created (EvLoginPage li r) = (randomHex (li_state li) = state)"
| "spendsState state created (EvLoginSubmit rnd now r) = (FormValue r ''state'' = state)"
| "spendsState state created (EvCallback rnd now r) = (FormValue r ''state'' = state)"
| "spendsState state created (EvLogout now1 now2 r) = False"
| "spendsState state created (EvReapSessions now) = False"
| "spendsState state created (EvReapPending now) = (created < now - pendingTTL)"

lemma oidcCallback_origin:
  assumes "fst (oidcCallback op q (ms_auth (manageRun (oidcAuthn op) Map.empty h))) = Some u"
  obtains h1 li q0 h2 raw idToken preferred sub where "h = h1 @ EvLoginPage li q0 # h2"
    "FormValue q ''state'' = randomHex (li_state li)"
    "list_all (\<lambda>e. \<not> spendsState (randomHex (li_state li)) (li_now li) e) h1"
    "op_exchange op (FormValue q ''code'') (randomHex (li_verifier li)) = Some (Some raw)"
    "op_verify op raw = Some idToken" "op_claims op idToken = Some (preferred, sub)"
    "u = (if preferred = '''' then sub else preferred)"
proof -
  let ?k = "FormValue q ''state''"
  from assms obtain pa raw idToken preferred sub where
    pa: "ms_auth (manageRun (oidcAuthn op) Map.empty h) ?k = Some pa"
    and c: "op_exchange op (FormValue q ''code'') (pa_codeVerifier pa) = Some (Some raw)"
      "op_verify op raw = Some idToken" "op_claims op idToken = Some (preferred, sub)"
      "u = (if preferred = '''' then sub else preferred)"
    by (auto simp: oidcCallback_def Let_def split: option.splits)
  from pendingTable.entry_origin [of "concat (map pendingOpsOf h)" ?k pa] pa obtain later earlier where
    ops: "concat (map pendingOpsOf h) = later @ Put ?k pa # earlier"
      "list_all (\<lambda>x. (\<forall>v'. x \<noteq> Put ?k v') \<and> x \<noteq> Remove ?k
         \<and> (\<forall>t. x = Reap t \<longrightarrow> \<not> pa_createdAt pa < t - pendingTTL)) later"
    by (auto simp: oidcRun_pending)
  from pendingOps_split [OF ops(1)] obtain h1 li q0 h2 where
    s: "h = h1 @ EvLoginPage li q0 # h2" "later = concat (map pendingOpsOf h1)" "?k = randomHex (li_state li)"
      "pa = \<lparr>pa_codeVerifier = randomHex (li_verifier li), pa_createdAt = li_now li\<rparr>" by blast
  have "\<not> spendsState ?k (li_now li) e" if "e \<in> set h1" for e
    using ops(2) that s(2,4) by (cases e) (auto simp: list_all_iff)
  then show ?thesis
    using that [OF s(1,3) _ _ c(2,3,4)] c(1) s(3,4) by (simp add: list_all_iff)
qed

section \<open>Properties\<close>

text \<open>
  Claim C11. With OIDC, a request that has a session holds the cookie of a session that was opened
  by a callback at most 24 hours ago, that no logout with this cookie has ended since, and whose
  user name is a claim of an ID token the provider verified. That callback's \<open>state\<close> was issued by
  the login page before, was not used by another callback in between, was not yet seen too old by
  the reaper, and the code was exchanged with the PKCE verifier drawn for that very state.
\<close>

theorem oidc_session_sound:
  assumes "getSession t r (ms_sessions (manageRun (oidcAuthn op) Map.empty h)) = Some sess"
  shows "\<exists>h1 e h2 rnd now q li q0 h3 raw idToken preferred sub.
    h = h1 @ e # h2 @ EvLoginPage li q0 # h3
    \<and> loginEvent e rnd now q \<and> requestCookie r sessionCookieName = Some (randomHex rnd)
    \<and> t \<le> now + sessionTTL
    \<and> list_all (\<lambda>e. \<not> endsSession (randomHex rnd) (now + sessionTTL) e) h1
    \<and> FormValue q ''state'' = randomHex (li_state li)
    \<and> list_all (\<lambda>e. \<not> spendsState (randomHex (li_state li)) (li_now li) e) h2
    \<and> op_exchange op (FormValue q ''code'') (randomHex (li_verifier li)) = Some (Some raw)
    \<and> op_verify op raw = Some idToken \<and> op_claims op idToken = Some (preferred, sub)
    \<and> ss_Username sess = (if preferred = '''' then sub else preferred)"
proof -
  from assms obtain h1 e h2' rnd now q where
    s: "h = h1 @ e # h2'" "loginEvent e rnd now q"
      "fst (an_callback (oidcAuthn op) q (ms_auth (manageRun (oidcAuthn op) Map.empty h2'))) = Some (ss_Username sess)"
      "requestCookie r sessionCookieName = Some (randomHex rnd)" "t \<le> now + sessionTTL"
      "list_all (\<lambda>e. \<not> endsSession (randomHex rnd) (now + sessionTTL) e) h1"
    by (rule session_origin)
  from s(3) [unfolded authn_callback] obtain h2 li q0 h3 raw idToken preferred sub where
    "h2' = h2 @ EvLoginPage li q0 # h3" "FormValue q ''state'' = randomHex (li_state li)"
    "list_all (\<lambda>e. \<not> spendsState (randomHex (li_state li)) (li_now li) e) h2"
    "op_exchange op (FormValue q ''code'') (randomHex (li_verifier li)) = Some (Some raw)"
    "op_verify op raw = Some idToken" "op_claims op idToken = Some (preferred, sub)"
    "ss_Username sess = (if preferred = '''' then sub else preferred)"
    by (rule oidcCallback_origin)
  with s show ?thesis
    by (rule_tac x = h1 in exI, rule_tac x = e in exI, rule_tac x = h2 in exI, rule_tac x = rnd in exI,
        rule_tac x = now in exI, rule_tac x = q in exI, rule_tac x = li in exI, rule_tac x = q0 in exI,
        rule_tac x = h3 in exI, rule_tac x = raw in exI, rule_tac x = idToken in exI,
        rule_tac x = preferred in exI, rule_tac x = sub in exI) simp
qed

lemma secretRun_auth: "ms_auth (manageRun secretAuthn sa h) = sa"
proof (induction h)
  case (Cons e h)
  then show ?case
    by (cases e) (auto simp: handleLoginSubmit_def handleCallback_def login_sessions secretAuthn_def
      secretCallback_def handleLoginPage_def secretLogin_def handleLogout_def Let_def split: option.splits prod.splits)
qed (simp add: NewServer_def)

text \<open>
  Claim C12. With a secret file, a request that has a session holds the cookie of a session opened
  at most 24 hours ago by a login request that carried the file's user name and password, and not
  ended since by a logout with this cookie. The name and the password are what stands before and
  after the first colon of the file's text, surrounding white space removed, and neither is empty.
\<close>

theorem secret_session_sound:
  assumes "NewSecretAuthenticator (Some file) = Some sa"
    and "getSession t r (ms_sessions (manageRun secretAuthn sa h)) = Some sess"
  shows "\<exists>h1 e h2 rnd now q. h = h1 @ e # h2 \<and> loginEvent e rnd now q
    \<and> requestCookie r sessionCookieName = Some (randomHex rnd) \<and> t \<le> now + sessionTTL
    \<and> list_all (\<lambda>e. \<not> endsSession (randomHex rnd) (now + sessionTTL) e) h1
    \<and> ss_Username sess = FormValue q ''username''
    \<and> trimSpace file = FormValue q ''username'' @ '':'' @ FormValue q ''password''
    \<and> CHR '':'' \<notin> set (FormValue q ''username'')
    \<and> FormValue q ''username'' \<noteq> '''' \<and> FormValue q ''password'' \<noteq> ''''"
proof -
  from assms(2) obtain h1 e h2 rnd now q where
    s: "h = h1 @ e # h2" "loginEvent e rnd now q"
      "fst (an_callback secretAuthn q (ms_auth (manageRun secretAuthn sa h2))) = Some (ss_Username sess)"
      "requestCookie r sessionCookieName = Some (randomHex rnd)" "t \<le> now + sessionTTL"
      "list_all (\<lambda>e. \<not> endsSession (randomHex rnd) (now + sessionTTL) e) h1"
    by (rule session_origin)
  have f: "trimSpace file = sc_username sa @ '':'' @ sc_password sa" "CHR '':'' \<notin> set (sc_username sa)"
    "sc_username sa \<noteq> ''''" "sc_password sa \<noteq> ''''"
    using assms(1)
    by (auto dest!: cut_Some simp: NewSecretAuthenticator_def split: option.splits if_splits prod.splits)
  have "sc_username sa = FormValue q ''username''" "sc_password sa = FormValue q ''password''"
    "ss_Username sess = FormValue q ''username''"
    using s(3) by (auto simp: secretRun_auth authn_callback secretCallback_def split: if_splits)
  with s f show ?thesis
    by (rule_tac x = h1 in exI, rule_tac x = e in exI, rule_tac x = h2 in exI, rule_tac x = rnd in exI,
        rule_tac x = now in exI, rule_tac x = q in exI) simp
qed

section \<open>Witnesses\<close>

definition cookieRequest :: "string \<Rightarrow> request" where
  "cookieRequest v = (sampleRequest '''' [])\<lparr>rq_cookies := [(sessionCookieName, v)]\<rparr>"

lemma cookieRequest_simps [simp]: "requestCookie (cookieRequest v) sessionCookieName = Some v"
  by (simp add: cookieRequest_def requestCookie_def)

definition sampleProvider :: oidcProvider where
  "sampleProvider = \<lparr>op_authURL = (\<lambda>s c. s), op_exchange = (\<lambda>code v. if code = ''ok'' then Some (Some v) else None),
     op_verify = Some, op_claims = (\<lambda>t. Some (''ann'', ''sub1'')), op_sha256 = bytesOf\<rparr>"

definition sampleLogin :: "manageEvent list" where
  "sampleLogin = [EvCallback [7] 1000 (sampleRequest '''' [(''state'', randomHex [1]), (''code'', ''ok'')]),
     EvLoginPage \<lparr>li_state = [1], li_verifier = [2], li_now = 10\<rparr> (sampleRequest '''' [])]"

theorem oidc_session_sound_witness:
  "\<exists>sess raw idToken. getSession 2000 (cookieRequest (randomHex [7]))
       (ms_sessions (manageRun (oidcAuthn sampleProvider) Map.empty sampleLogin)) = Some sess
     \<and> op_verify sampleProvider raw = Some idToken
     \<and> op_claims sampleProvider idToken = Some (ss_Username sess, ''sub1'')"
proof -
  have "\<exists>sess. getSession 2000 (cookieRequest (randomHex [7]))
       (ms_sessions (manageRun (oidcAuthn sampleProvider) Map.empty sampleLogin)) = Some sess"
    by (simp add: sampleLogin_def handleCallback_def login_def handleLoginPage_def oidcAuthn_def oidcLogin_def
        oidcCallback_def createSession_def getSession_def FormValue_def sampleRequest_form sampleProvider_def
        NewServer_def sessionTTL_def Let_def)
  then obtain sess where run: "getSession 2000 (cookieRequest (randomHex [7]))
       (ms_sessions (manageRun (oidcAuthn sampleProvider) Map.empty sampleLogin)) = Some sess" by blast
  from oidc_session_sound [OF run] show ?thesis
    using run by (auto simp: sampleProvider_def)
qed

theorem secret_session_sound_witness:
  "\<exists>sess. getSession 2000 (cookieRequest (randomHex [7])) (ms_sessions (manageRun secretAuthn
       \<lparr>sc_username = ''ann'', sc_password = ''p:w''\<rparr>
       [EvLoginSubmit [7] 1000 (sampleRequest '''' [(''username'', ''ann''), (''password'', ''p:w'')])])) = Some sess
     \<and> ss_Username sess = ''ann''"
proof -
  let ?sa = "\<lparr>sc_username = ''ann'', sc_password = ''p:w''\<rparr>"
  let ?h = "[EvLoginSubmit [7] 1000 (sampleRequest '''' [(''username'', ''ann''), (''password'', ''p:w'')])]"
  have f: "NewSecretAuthenticator (Some ''ann:p:w'') = Some ?sa" by code_simp
  have "\<exists>sess. getSession 2000 (cookieRequest (randomHex [7])) (ms_sessions (manageRun secretAuthn ?sa ?h)) = Some sess"
    by (simp add: handleLoginSubmit_def login_def secretAuthn_def secretCallback_def createSession_def getSession_def
        FormValue_def sampleRequest_form NewServer_def sessionTTL_def Let_def)
  then obtain sess where run: "getSession 2000 (cookieRequest (randomHex [7]))
      (ms_sessions (manageRun secretAuthn ?sa ?h)) = Some sess" by blast
  from secret_session_sound [OF f run] run show ?thesis
    by (auto simp: loginEvent_def Cons_eq_append_conv FormValue_def sampleRequest_form)
qed

end
