(* ===== verification/Auth_Facts.thy ===== *)
theory Auth_Facts
  imports Auth Sample
begin

text \<open>
  What the authentication of API requests guarantees: who gets through and as whom, how long a
  revoked key can live in the cache, and how many wrong guesses an address has.
\<close>

section \<open>The credentials behind an acceptance\<close>

text \<open>The reader shows a credential, not expired, whose hash matches the key.\<close>

definition keyAccepted :: "crypto \<Rightarrow> reader \<Rightarrow> string \<Rightarrow> string \<Rightarrow> bool" where
  "keyAccepted cy rd key user \<longleftrightarrow>
     (\<exists>d. rd_query rd 0 = Inr d \<and> (\<exists>c \<in> set (db_credential d).
        notExpired (rd_now rd 0) c \<and> cy_bcrypt cy (cr_hash c) key \<and> cr_username c = user))"

text \<open>The reader shows a credential of the user for legacy clients, not expired, with this password.\<close>

definition passwordStored :: "crypto \<Rightarrow> config \<Rightarrow> reader \<Rightarrow> string \<Rightarrow> string \<Rightarrow> bool" where
  "passwordStored cy cfg rd user p \<longleftrightarrow>
     (\<exists>d. rd_query rd 0 = Inr d \<and> (\<exists>c \<in> set (db_credential d). cr_username c = user \<and> cr_legacy c = 1
        \<and> notExpired (rd_now rd 0) c
        \<and> (\<exists>ct. cr_encrypted c = Some ct \<and> DecryptPassword (cy_aes cy) (cfg_EncryptionKey cfg) ct = Inr p)))"

lemma loadAllCredentials_Some:
  "loadAllCredentials rd = Some cs \<Longrightarrow> \<exists>d. rd_query rd 0 = Inr d \<and> cs = validCredentials (rd_now rd 0) d"
  by (auto simp: loadAllCredentials_def select_def split: if_splits sum.splits)

lemma loadLegacyCredentials_Some:
  "loadLegacyCredentials rd u = Some cs \<Longrightarrow> \<exists>d. rd_query rd 0 = Inr d \<and> cs = legacyCredentials u (rd_now rd 0) d"
  by (auto simp: loadLegacyCredentials_def select_def split: if_splits sum.splits)

lemma scan_accepts:
  assumes "loadAllCredentials rd = Some cs" "find (\<lambda>c. cy_bcrypt cy (cr_hash c) key) cs = Some c"
  shows "keyAccepted cy rd key (cr_username c)"
  using loadAllCredentials_Some [OF assms(1)] find_SomeD [OF assms(2)]
  by (auto simp: keyAccepted_def validCredentials_def)

lemma legacyPasswords_stored:
  assumes "loadLegacyCredentials rd u = Some cs" "p \<in> set (legacyPasswords cy (cfg_EncryptionKey cfg) cs)"
  shows "passwordStored cy cfg rd u p"
proof -
  from loadLegacyCredentials_Some [OF assms(1)] obtain d where
    d: "rd_query rd 0 = Inr d" "cs = legacyCredentials u (rd_now rd 0) d" by blast
  from assms(2) obtain c where c0: "c \<in> set cs"
    and p: "p \<in> set (case cr_encrypted c of None \<Rightarrow> []
       | Some ct \<Rightarrow> (case DecryptPassword (cy_aes cy) (cfg_EncryptionKey cfg) ct of Inl e \<Rightarrow> [] | Inr p \<Rightarrow> [p]))"
    by (auto simp: legacyPasswords_def)
  from p obtain ct where ct: "cr_encrypted c = Some ct"
    and dec: "DecryptPassword (cy_aes cy) (cfg_EncryptionKey cfg) ct = Inr p"
    by (cases "cr_encrypted c") (auto split: sum.splits)
  note c = c0 ct dec
  from c(1) d(2) have "c \<in> set (db_credential d)" "cr_username c = u" "cr_legacy c = 1"
    "notExpired (rd_now rd 0) c"
    by (auto simp: legacyCredentials_def)
  with d(1) c(2,3) show ?thesis unfolding passwordStored_def by blast
qed

text \<open>An API key is accepted from the cache or from the table, and what the cache then holds.\<close>

lemma authenticateAPIKey_Some:
  assumes "authenticateAPIKey cy t rd key st = (Some user, st')"
  shows "(\<exists>e. as_cache st (cy_sha256 cy key) = Some e \<and> tm_cache t < ce_expiry e
            \<and> user = ce_username e \<and> st' = st)
    \<or> keyAccepted cy rd key user \<and> as_failures st' = as_failures st
        \<and> as_cache st' = (as_cache st)(cy_sha256 cy key \<mapsto>
            \<lparr>ce_username = user, ce_expiry = tm_store t + apiKeyCacheTTL\<rparr>)"
  using assms scan_accepts [of rd _ cy key]
  by (auto simp: authenticateAPIKey_def Let_def split: option.splits if_splits)

lemma authenticateAPIKey_None:
  "authenticateAPIKey cy t rd key st = (None, st') \<Longrightarrow>
     as_failures st' = as_failures st
     \<and> (as_cache st' = as_cache st \<or> as_cache st' = (as_cache st)(cy_sha256 cy key := None))"
  by (auto simp: authenticateAPIKey_def Let_def split: option.splits if_splits)

section \<open>One request\<close>

lemma checkRateLimit_cache [simp]: "as_cache (snd (checkRateLimit t r st)) = as_cache st"
  by (simp add: checkRateLimit_def setFailure_def Let_def)

lemma checkRateLimit_eq: "checkRateLimit t r st = (b, st1) \<Longrightarrow> as_cache st1 = as_cache st"
  using checkRateLimit_cache [of t r st] by simp

lemma fail_simps [simp]:
  "fail t r st = (res, st') \<longleftrightarrow> res = Denied wrongPassword \<and> st' = recordAuthFailure t r st"
  by (auto simp: fail_def)

lemma pass_simps [simp]:
  "pass u r st = (res, st') \<longleftrightarrow> res = Passed (withUser u r) \<and> st' = clearAuthFailure r st"
  by (auto simp: pass_def)

lemma failure_cache [simp]:
  "as_cache (recordAuthFailure t r st) = as_cache st" "as_cache (clearAuthFailure r st) = as_cache st"
  by (simp_all add: recordAuthFailure_def clearAuthFailure_def setFailure_def Let_def)

text \<open>The paths through the middleware, with authentication on.\<close>

lemma authMiddleware_cases:
  assumes "authMiddleware cy cfg t rd r st = (res, st')" "\<not> cfg_AuthDisabled cfg"
  obtains (limited) "res = Denied tooMany" "fst (checkRateLimit t r st)" "st' = snd (checkRateLimit t r st)"
  | (key) user st2 where "\<not> fst (checkRateLimit t r st)" "FormValue r ''apiKey'' \<noteq> ''''"
      "authenticateAPIKey cy t rd (FormValue r ''apiKey'') (snd (checkRateLimit t r st)) = (Some user, st2)"
      "res = Passed (withUser user r)" "st' = clearAuthFailure r st2"
  | (badKey) st2 where "\<not> fst (checkRateLimit t r st)" "FormValue r ''apiKey'' \<noteq> ''''"
      "authenticateAPIKey cy t rd (FormValue r ''apiKey'') (snd (checkRateLimit t r st)) = (None, st2)"
      "res = Denied wrongPassword" "st' = recordAuthFailure t r st2"
  | (legacy) "\<not> fst (checkRateLimit t r st)" "FormValue r ''u'' \<noteq> ''''" "FormValue r ''apiKey'' = ''''"
      "res = Passed (withUser (FormValue r ''u'') r)"
      "st' = clearAuthFailure r (snd (checkRateLimit t r st))"
      "(FormValue r ''t'' \<noteq> '''' \<and> authenticateToken cy cfg rd (FormValue r ''u'') (FormValue r ''t'') (FormValue r ''s''))
       \<or> (\<exists>plain. plainPassword (FormValue r ''p'') = Some plain \<and> FormValue r ''t'' = ''''
            \<and> authenticateLegacy cy cfg rd (FormValue r ''u'') plain)"
  | (badLegacy) "\<not> fst (checkRateLimit t r st)" "FormValue r ''apiKey'' = ''''" "res = Denied wrongPassword"
      "st' = recordAuthFailure t r (snd (checkRateLimit t r st))"
  | (missing) msg where "\<not> fst (checkRateLimit t r st)" "FormValue r ''apiKey'' = ''''" "res = Denied (errResponse 10 msg)"
      "st' = snd (checkRateLimit t r st)"
  using assms unfolding authMiddleware_def Let_def
  by (cases "checkRateLimit t r st") (auto split: if_splits option.splits prod.splits)

lemma authenticateToken_stored:
  "authenticateToken cy cfg rd user token salt \<Longrightarrow>
     \<exists>p. passwordStored cy cfg rd user p \<and> toLower token = toLower (md5Hex cy (p @ salt))"
  by (auto simp: authenticateToken_def list_ex_iff split: option.splits)
    (blast intro: legacyPasswords_stored)

lemma authenticateLegacy_stored:
  "authenticateLegacy cy cfg rd user plain \<Longrightarrow> passwordStored cy cfg rd user plain"
  using legacyPasswords_stored by (auto simp: authenticateLegacy_def list_ex_iff split: option.splits)

section \<open>A run of the server\<close>

text \<open>
  What reaches the two maps: requests, and the flush after a credential was deleted. A history is
  read from its newest event backwards.
\<close>

datatype authEvent = Request authTimes reader request | Flush

fun authState_after :: "crypto \<Rightarrow> config \<Rightarrow> authEvent list \<Rightarrow> authState" where
  "authState_after cy cfg [] = authInit"
| "authState_after cy cfg (Flush # h) = flushAPIKeyCache (authState_after cy cfg h)"
| "authState_after cy cfg (Request t rd r # h) = snd (authMiddleware cy cfg t rd r (authState_after cy cfg h))"

text \<open>The events since the last flush.\<close>

definition sinceFlush :: "authEvent list \<Rightarrow> authEvent list" where
  "sinceFlush h = takeWhile (\<lambda>e. e \<noteq> Flush) h"

text \<open>The event is a request in which the key was found in the table for the user.\<close>

fun foundKey :: "crypto \<Rightarrow> bytes \<Rightarrow> string \<Rightarrow> int \<Rightarrow> authEvent \<Rightarrow> bool" where
  "foundKey cy k user stored Flush = False"
| "foundKey cy k user stored (Request t rd r) =
     (cy_sha256 cy (FormValue r ''apiKey'') = k \<and> keyAccepted cy rd (FormValue r ''apiKey'') user
      \<and> stored = tm_store t)"

lemma authMiddleware_disabled_state:
  "cfg_AuthDisabled cfg \<Longrightarrow> snd (authMiddleware cy cfg t rd r st) = st"
  by (simp add: authMiddleware_def Let_def)

text \<open>Whatever the cache holds was found in the table since the last flush.\<close>

lemma cache_origin_step:
  assumes "as_cache (snd (authMiddleware cy cfg t rd r st)) k = Some e"
  shows "as_cache st k = Some e
    \<or> (\<exists>stored. foundKey cy k (ce_username e) stored (Request t rd r) \<and> ce_expiry e = stored + apiKeyCacheTTL)"
proof (cases "cfg_AuthDisabled cfg")
  case True
  with assms show ?thesis by (simp add: authMiddleware_disabled_state)
next
  case False
  obtain res st' where run: "authMiddleware cy cfg t rd r st = (res, st')" by fastforce
  with assms have k: "as_cache st' k = Some e" by simp
  from run False show ?thesis
  proof (cases rule: authMiddleware_cases)
    case (key user st2)
    from authenticateAPIKey_Some [OF key(3)] key(5) k show ?thesis
      by (auto split: if_splits)
  next
    case (badKey st2)
    from authenticateAPIKey_None [OF badKey(3)] badKey(5) k show ?thesis
      by (auto split: if_splits)
  qed (use k in auto)
qed

lemma cache_origin:
  "as_cache (authState_after cy cfg h) k = Some e \<Longrightarrow>
     \<exists>ev \<in> set (sinceFlush h). \<exists>stored. foundKey cy k (ce_username e) stored ev
        \<and> ce_expiry e = stored + apiKeyCacheTTL"
proof (induction cy cfg h rule: authState_after.induct)
  case (1 cy cfg)
  then show ?case by (simp add: authInit_def)
next
  case (2 cy cfg h)
  then show ?case by (simp add: flushAPIKeyCache_def)
next
  case (3 cy cfg t rd r h)
  from cache_origin_step [of cy cfg t rd r "authState_after cy cfg h" k e] 3(2)
  have "as_cache (authState_after cy cfg h) k = Some e
    \<or> (\<exists>stored. foundKey cy k (ce_username e) stored (Request t rd r) \<and> ce_expiry e = stored + apiKeyCacheTTL)"
    by simp
  with 3(1) show ?case by (auto simp: sinceFlush_def)
qed

section \<open>Guesses of one address\<close>

type_synonym authRequest = "authTimes \<times> reader \<times> request"

fun answers :: "crypto \<Rightarrow> config \<Rightarrow> authRequest list \<Rightarrow> authState \<Rightarrow> (authResult \<times> authRequest) list" where
  "answers cy cfg [] st = []"
| "answers cy cfg ((t, rd, r) # es) st =
     (fst (authMiddleware cy cfg t rd r st), (t, rd, r))
     # answers cy cfg es (snd (authMiddleware cy cfg t rd r st))"

fun isGuess :: "string \<Rightarrow> authResult \<times> authRequest \<Rightarrow> bool" where
  "isGuess ip (res, (t, rd, r)) = (clientIP r = ip \<and> res = Denied wrongPassword)"

fun isPass :: "string \<Rightarrow> authResult \<times> authRequest \<Rightarrow> bool" where
  "isPass ip (res, (t, rd, r)) = (clientIP r = ip \<and> (case res of Passed _ \<Rightarrow> True | Denied _ \<Rightarrow> False))"

definition wrongGuesses :: "string \<Rightarrow> (authResult \<times> authRequest) list \<Rightarrow> nat" where
  "wrongGuesses ip as = length (filter (isGuess ip) as)"

text \<open>The clock readings of the requests of an address lie between two times.\<close>

fun within :: "int \<Rightarrow> int \<Rightarrow> string \<Rightarrow> authRequest \<Rightarrow> bool" where
  "within a b ip (t, rd, r) = (clientIP r = ip \<longrightarrow>
     a \<le> tm_checkReset t \<and> a \<le> tm_failReset t \<and> tm_check t \<le> b \<and> tm_fail t \<le> b)"

text \<open>The address's entry after the check, and after a recorded failure.\<close>

definition entryChecked :: "authTimes \<Rightarrow> failureEntry \<Rightarrow> failureEntry" where
  "entryChecked t e = (if tm_check t > fe_resetAt e
     then \<lparr>fe_count = 0, fe_resetAt = tm_checkReset t + authFailureWindow\<rparr> else e)"

definition entryFailed :: "authTimes \<Rightarrow> failureEntry \<Rightarrow> failureEntry" where
  "entryFailed t e = (if tm_fail t > fe_resetAt e
     then \<lparr>fe_count = 1, fe_resetAt = tm_failReset t + authFailureWindow\<rparr>
     else e\<lparr>fe_count := fe_count e + 1\<rparr>)"

lemma failureOf_set [simp]: "failureOf (setFailure ip e st) ip' = (if ip' = ip then e else failureOf st ip')"
  by (simp add: failureOf_def setFailure_def)

lemma failureOf_check:
  "failureOf (snd (checkRateLimit t r st)) ip =
     (if clientIP r = ip then entryChecked t (failureOf st ip) else failureOf st ip)"
  "fst (checkRateLimit t r st) \<longleftrightarrow> authFailureLimit \<le> fe_count (entryChecked t (failureOf st (clientIP r)))"
  by (auto simp: checkRateLimit_def entryChecked_def Let_def)

lemma failureOf_record:
  "failureOf (recordAuthFailure t r st) ip =
     (if clientIP r = ip then entryFailed t (failureOf st ip) else failureOf st ip)"
  by (auto simp: recordAuthFailure_def entryFailed_def Let_def)

lemma failureOf_clear: "clientIP r \<noteq> ip \<Longrightarrow> failureOf (clearAuthFailure r st) ip = failureOf st ip"
  by (auto simp: clearAuthFailure_def failureOf_def)

lemma authenticateAPIKey_failures:
  "authenticateAPIKey cy t rd key st = (res, st2) \<Longrightarrow> failureOf st2 ip = failureOf st ip"
  using authenticateAPIKey_Some [of cy t rd key st _ st2] authenticateAPIKey_None [of cy t rd key st st2]
  by (cases res) (auto simp: failureOf_def)

lemma wrongPassword_distinct [simp]:
  "wrongPassword \<noteq> tooMany" "tooMany \<noteq> wrongPassword" "errResponse 10 msg \<noteq> wrongPassword"
  by (simp_all add: wrongPassword_def tooMany_def errResponse_def)

text \<open>One request, seen from one address.\<close>

lemma request_guess:
  assumes run: "authMiddleware cy cfg t rd r st = (res, st')" "\<not> cfg_AuthDisabled cfg"
    and np: "\<not> isPass (clientIP r) (res, (t, rd, r))"
  shows "if isGuess (clientIP r) (res, (t, rd, r))
    then fe_count (entryChecked t (failureOf st (clientIP r))) < authFailureLimit
       \<and> failureOf st' (clientIP r) = entryFailed t (entryChecked t (failureOf st (clientIP r)))
    else failureOf st' (clientIP r) = entryChecked t (failureOf st (clientIP r))"
  using run
proof (cases rule: authMiddleware_cases)
  case (badKey st2)
  then show ?thesis
    using authenticateAPIKey_failures [OF badKey(3)] by (auto simp: failureOf_check failureOf_record)
qed (use np in \<open>auto simp: failureOf_check failureOf_record\<close>)

lemma request_other:
  assumes run: "authMiddleware cy cfg t rd r st = (res, st')" "\<not> cfg_AuthDisabled cfg" and "clientIP r \<noteq> ip"
  shows "failureOf st' ip = failureOf st ip"
  using run
proof (cases rule: authMiddleware_cases)
  case (key user st2)
  then show ?thesis
    using assms(3) authenticateAPIKey_failures [OF key(3)] by (auto simp: failureOf_check failureOf_clear)
next
  case (badKey st2)
  then show ?thesis
    using assms(3) authenticateAPIKey_failures [OF badKey(3)] by (auto simp: failureOf_check failureOf_record)
qed (use assms(3) in \<open>auto simp: failureOf_check failureOf_record failureOf_clear\<close>)

text \<open>Without a reset each guess uses up one of what is left.\<close>

lemma guesses_in_period:
  assumes "\<not> cfg_AuthDisabled cfg"
    and "list_all (within a b ip) es" "b \<le> fe_resetAt (failureOf st ip)"
    and "list_all (\<lambda>x. \<not> isPass ip x) (answers cy cfg es st)"
  shows "int (wrongGuesses ip (answers cy cfg es st)) \<le> max 0 (authFailureLimit - fe_count (failureOf st ip))"
  using assms(2-)
proof (induction es arbitrary: st)
  case (Cons e es)
  obtain t rd r where e: "e = (t, rd, r)" by (cases e)
  obtain res st' where run: "authMiddleware cy cfg t rd r st = (res, st')" by fastforce
  have IH: "b \<le> fe_resetAt (failureOf st' ip) \<Longrightarrow>
      int (wrongGuesses ip (answers cy cfg es st')) \<le> max 0 (authFailureLimit - fe_count (failureOf st' ip))"
    using Cons.IH [of st'] Cons.prems by (simp add: e run)
  show ?case
  proof (cases "clientIP r = ip")
    case False
    then have "failureOf st' ip = failureOf st ip" by (rule request_other [OF run assms(1)])
    then show ?thesis using IH Cons.prems False by (simp add: e run wrongGuesses_def)
  next
    case True
    note s = request_guess [OF run assms(1)]
    have nr: "entryChecked t (failureOf st ip) = failureOf st ip"
      "entryFailed t (failureOf st ip) = (failureOf st ip)\<lparr>fe_count := fe_count (failureOf st ip) + 1\<rparr>"
      using Cons.prems True by (auto simp: e entryChecked_def entryFailed_def)
    show ?thesis
      using s IH Cons.prems True nr by (auto simp: e run wrongGuesses_def split: if_splits)
  qed
qed (simp add: wrongGuesses_def)

text \<open>In a stretch no longer than the window the entry is reset at most once.\<close>

lemma guesses_in_window:
  assumes "\<not> cfg_AuthDisabled cfg"
    and "list_all (within a (a + authFailureWindow) ip) es"
    and "list_all (\<lambda>x. \<not> isPass ip x) (answers cy cfg es st)"
  shows "int (wrongGuesses ip (answers cy cfg es st))
    \<le> max 0 (authFailureLimit - fe_count (failureOf st ip)) + authFailureLimit"
  using assms(2-)
proof (induction es arbitrary: st)
  case (Cons e es)
  obtain t rd r where e: "e = (t, rd, r)" by (cases e)
  obtain res st' where run: "authMiddleware cy cfg t rd r st = (res, st')" by fastforce
  have IH: "int (wrongGuesses ip (answers cy cfg es st'))
      \<le> max 0 (authFailureLimit - fe_count (failureOf st' ip)) + authFailureLimit"
    using Cons.IH [of st'] Cons.prems by (simp add: e run)
  have period: "a + authFailureWindow \<le> fe_resetAt (failureOf st' ip) \<Longrightarrow>
      int (wrongGuesses ip (answers cy cfg es st')) \<le> max 0 (authFailureLimit - fe_count (failureOf st' ip))"
    using guesses_in_period [OF assms(1), of a "a + authFailureWindow" ip es st'] Cons.prems
    by (simp add: e run)
  show ?case
  proof (cases "clientIP r = ip")
    case False
    then have "failureOf st' ip = failureOf st ip" by (rule request_other [OF run assms(1)])
    then show ?thesis using IH False by (simp add: e run wrongGuesses_def)
  next
    case True
    note s = request_guess [OF run assms(1)]
    have t: "a \<le> tm_checkReset t" "a \<le> tm_failReset t" "tm_check t \<le> a + authFailureWindow"
      "tm_fail t \<le> a + authFailureWindow" "\<not> isPass ip (res, (t, rd, r))"
      using Cons.prems True by (simp_all add: e run)
    show ?thesis
      using s IH period t True
      by (auto simp: e run wrongGuesses_def entryChecked_def entryFailed_def authFailureLimit_def
          split: if_splits)
  qed
qed (simp add: wrongGuesses_def authFailureLimit_def)

text \<open>An address with no entry: its first request starts the period.\<close>

lemma guesses_fresh:
  assumes "\<not> cfg_AuthDisabled cfg"
    and "list_all (within a (a + authFailureWindow) ip) es"
    and "list_all (\<lambda>(t, rd, r). 0 < tm_check t) es"
    and "list_all (\<lambda>x. \<not> isPass ip x) (answers cy cfg es st)"
    and "fe_resetAt (failureOf st ip) = 0"
  shows "int (wrongGuesses ip (answers cy cfg es st)) \<le> authFailureLimit"
  using assms(2-)
proof (induction es arbitrary: st)
  case (Cons e es)
  obtain t rd r where e: "e = (t, rd, r)" by (cases e)
  obtain res st' where run: "authMiddleware cy cfg t rd r st = (res, st')" by fastforce
  have period: "a + authFailureWindow \<le> fe_resetAt (failureOf st' ip) \<Longrightarrow>
      int (wrongGuesses ip (answers cy cfg es st')) \<le> max 0 (authFailureLimit - fe_count (failureOf st' ip))"
    using guesses_in_period [OF assms(1), of a "a + authFailureWindow" ip es st'] Cons.prems
    by (simp add: e run)
  show ?case
  proof (cases "clientIP r = ip")
    case False
    then have "failureOf st' ip = failureOf st ip" by (rule request_other [OF run assms(1)])
    then show ?thesis using Cons.IH [of st'] Cons.prems False by (simp add: e run wrongGuesses_def)
  next
    case True
    have t: "a \<le> tm_checkReset t" "a \<le> tm_failReset t" "tm_fail t \<le> a + authFailureWindow"
      "\<not> isPass ip (res, (t, rd, r))" "0 < tm_check t"
      using Cons.prems True by (simp_all add: e run)
    show ?thesis
      using request_guess [OF run assms(1)] period t True Cons.prems(4)
      by (auto simp: e run wrongGuesses_def entryChecked_def entryFailed_def authFailureLimit_def
          split: if_splits)
  qed
qed (simp add: wrongGuesses_def authFailureLimit_def)

lemma key_passes:
  assumes "\<not> cfg_AuthDisabled cfg" "\<not> fst (checkRateLimit t r st)" "rd_pool rd"
    and "key = FormValue r ''apiKey''" "key \<noteq> ''''" "keyAccepted cy rd key owner"
  obtains user st' where "authMiddleware cy cfg t rd r st = (Passed (withUser user r), st')"
    "as_failures st' (clientIP r) = None"
    "keyAccepted cy rd key user
       \<or> (\<exists>e. as_cache st (cy_sha256 cy key) = Some e \<and> tm_cache t < ce_expiry e \<and> ce_username e = user)"
proof -
  obtain limited st1 where l: "checkRateLimit t r st = (limited, st1)" by fastforce
  from assms(6) obtain d c where d: "rd_query rd 0 = Inr d" "c \<in> set (validCredentials (rd_now rd 0) d)"
    "cy_bcrypt cy (cr_hash c) key"
    by (auto simp: keyAccepted_def validCredentials_def)
  then have load: "loadAllCredentials rd = Some (validCredentials (rd_now rd 0) d)"
    using assms(3) by (auto simp: loadAllCredentials_def select_def)
  have "find (\<lambda>c. cy_bcrypt cy (cr_hash c) key) (validCredentials (rd_now rd 0) d) \<noteq> None"
    using d by (auto simp: find_None_iff)
  then have "fst (authenticateAPIKey cy t rd key st1) \<noteq> None"
    by (auto simp: authenticateAPIKey_def Let_def load split: option.splits)
  then obtain user st2 where a: "authenticateAPIKey cy t rd key st1 = (Some user, st2)"
    by (cases "authenticateAPIKey cy t rd key st1") auto
  have "authMiddleware cy cfg t rd r st = (Passed (withUser user r), clearAuthFailure r st2)"
    using assms l a by (simp add: authMiddleware_def pass_def Let_def)
  moreover have "as_cache st1 = as_cache st" by (rule checkRateLimit_eq [OF l])
  ultimately show ?thesis
    using that [of user "clearAuthFailure r st2"] authenticateAPIKey_Some [OF a]
    by (auto simp: clearAuthFailure_def)
qed

text \<open>A stored legacy password passes.\<close>

lemma password_passes:
  assumes "\<not> cfg_AuthDisabled cfg" "\<not> fst (checkRateLimit t r st)" "rd_pool rd"
    and "FormValue r ''apiKey'' = ''''" "FormValue r ''t'' = ''''" "FormValue r ''u'' \<noteq> ''''"
    and "FormValue r ''p'' \<noteq> ''''" "plainPassword (FormValue r ''p'') = Some plain"
    and "passwordStored cy cfg rd (FormValue r ''u'') plain"
  shows "\<exists>st'. authMiddleware cy cfg t rd r st = (Passed (withUser (FormValue r ''u'') r), st')"
proof -
  obtain limited st1 where l: "checkRateLimit t r st = (limited, st1)" by fastforce
  from assms(9) obtain d c ct where d: "rd_query rd 0 = Inr d"
    "c \<in> set (legacyCredentials (FormValue r ''u'') (rd_now rd 0) d)"
    "cr_encrypted c = Some ct" "DecryptPassword (cy_aes cy) (cfg_EncryptionKey cfg) ct = Inr plain"
    by (auto simp: passwordStored_def legacyCredentials_def)
  then have load: "loadLegacyCredentials rd (FormValue r ''u'') = Some (legacyCredentials (FormValue r ''u'') (rd_now rd 0) d)"
    using assms(3) by (auto simp: loadLegacyCredentials_def select_def)
  have "plain \<in> set (legacyPasswords cy (cfg_EncryptionKey cfg) (legacyCredentials (FormValue r ''u'') (rd_now rd 0) d))"
    using d unfolding legacyPasswords_def by force
  then have "authenticateLegacy cy cfg rd (FormValue r ''u'') plain"
    by (auto simp: authenticateLegacy_def load list_ex_iff)
  then show ?thesis
    using assms l by (simp add: authMiddleware_def pass_def Let_def)
qed

section \<open>Properties\<close>

text \<open>
  Claim C1. Whoever gets through the authentication of the API got there with a credential. After
  any history of requests and cache flushes, a request that passes was not rate limited, carries
  the name of a user, and: with an API key, the key matches the hash of a credential of that user
  which is not expired now, or matched one when an earlier request with the same SHA-256 was
  answered, since the last flush and less than five minutes before the cache was read; without
  one, the named user has an unexpired legacy credential whose decrypted password is the one
  given, or whose salted MD5 is the token given.
\<close>

theorem authMiddleware_sound:
  assumes run: "authMiddleware cy cfg t rd r (authState_after cy cfg h) = (Passed r', st')"
    and on: "\<not> cfg_AuthDisabled cfg"
  shows "\<exists>user. r' = withUser user r
    \<and> \<not> fst (checkRateLimit t r (authState_after cy cfg h))
    \<and> (if FormValue r ''apiKey'' \<noteq> ''''
       then keyAccepted cy rd (FormValue r ''apiKey'') user
         \<or> (\<exists>ev \<in> set (sinceFlush h). \<exists>stored.
              foundKey cy (cy_sha256 cy (FormValue r ''apiKey'')) user stored ev
              \<and> tm_cache t < stored + apiKeyCacheTTL)
       else user = FormValue r ''u'' \<and> user \<noteq> ''''
         \<and> (\<exists>p. passwordStored cy cfg rd user p
              \<and> (if FormValue r ''t'' \<noteq> ''''
                 then toLower (FormValue r ''t'') = toLower (md5Hex cy (p @ FormValue r ''s''))
                 else plainPassword (FormValue r ''p'') = Some p)))"
  using run on
proof (cases rule: authMiddleware_cases)
  case (key user st2)
  from authenticateAPIKey_Some [OF key(3)] have "keyAccepted cy rd (FormValue r ''apiKey'') user
     \<or> (\<exists>e. as_cache (authState_after cy cfg h) (cy_sha256 cy (FormValue r ''apiKey'')) = Some e
          \<and> tm_cache t < ce_expiry e \<and> user = ce_username e)"
    by auto
  then have "keyAccepted cy rd (FormValue r ''apiKey'') user
     \<or> (\<exists>ev \<in> set (sinceFlush h). \<exists>stored.
          foundKey cy (cy_sha256 cy (FormValue r ''apiKey'')) user stored ev
          \<and> tm_cache t < stored + apiKeyCacheTTL)"
    using cache_origin [of cy cfg h] by metis
  with key show ?thesis by (intro exI [of _ user]) simp
next
  case legacy
  have "\<exists>p. passwordStored cy cfg rd (FormValue r ''u'') p
      \<and> (if FormValue r ''t'' \<noteq> ''''
         then toLower (FormValue r ''t'') = toLower (md5Hex cy (p @ FormValue r ''s''))
         else plainPassword (FormValue r ''p'') = Some p)"
    using legacy(6)
    by (auto dest: authenticateToken_stored authenticateLegacy_stored)
  with legacy show ?thesis by (intro exI [of _ "FormValue r ''u''"]) simp
qed simp_all

text \<open>
  A valid API key always gets through: when the client address is not rate limited and
  the read connection works, a key that matches an unexpired credential, or that the cache still
  holds, passes as a user with such a credential or the cached one, and the address's failures
  are forgotten.
\<close>

theorem authMiddleware_complete:
  assumes "\<not> cfg_AuthDisabled cfg" "\<not> fst (checkRateLimit t r st)" "rd_pool rd"
    and "key = FormValue r ''apiKey''" "key \<noteq> ''''" "keyAccepted cy rd key owner"
  shows "\<exists>user st'. authMiddleware cy cfg t rd r st = (Passed (withUser user r), st')
    \<and> as_failures st' (clientIP r) = None
    \<and> (keyAccepted cy rd key user
       \<or> (\<exists>e. as_cache st (cy_sha256 cy key) = Some e \<and> tm_cache t < ce_expiry e \<and> ce_username e = user))"
  using key_passes [OF assms] by metis


section \<open>Witnesses\<close>

definition sampleCrypto :: crypto where
  "sampleCrypto = \<lparr>cy_sha256 = bytesOf, cy_md5 = bytesOf, cy_bcrypt = (\<lambda>h k. h = bytesOf k), cy_aes = tagCipher\<rparr>"

definition sampleConfig :: config where
  "sampleConfig = \<lparr>cfg_ListenAddr = '':4533'', cfg_MusicDir = ''/m'', cfg_DataDir = ''/d'',
     cfg_CoverArtDir = ''/d/covers'', cfg_DBPath = ''/d/preamp.db'',
     cfg_EncryptionKey = ''000102030405060708090a0b0c0d0e0f'', cfg_AuthDisabled = False,
     cfg_DevUsername = '''', cfg_DevPassword = '''', cfg_AdminListenAddr = '''',
     cfg_CredentialTTL = 604800000000000, cfg_CollectorToken = '''', cfg_OIDCIssuer = '''',
     cfg_OIDCClientID = '''', cfg_OIDCClientSecret = '''', cfg_OIDCRedirectURI = '''',
     cfg_AdminSecretFile = ''/s'', cfg_ManageEnabled = True\<rparr>"

definition sampleCredential :: credential_row where
  "sampleCredential = \<lparr>cr_id = ''c1'', cr_username = ''ann'', cr_hash = bytesOf ''key1'', cr_encrypted = None,
     cr_client = ''phone'', cr_legacy = 0, cr_expires = Some 1700000600, cr_created = 1600000000\<rparr>"

definition sampleReader :: "credential_row list \<Rightarrow> reader" where
  "sampleReader cs = \<lparr>rd_pool = True, rd_query = (\<lambda>_. Inr (emptyDb\<lparr>db_credential := cs\<rparr>)),
     rd_now = (\<lambda>_. 1700000000)\<rparr>"

definition sampleTimes :: "int \<Rightarrow> authTimes" where
  "sampleTimes n = \<lparr>tm_check = n, tm_checkReset = n, tm_cache = n, tm_store = n, tm_fail = n, tm_failReset = n\<rparr>"

definition keyRequest :: "string \<Rightarrow> request" where
  "keyRequest k = sampleRequest '''' [(''apiKey'', k)]"

lemma sampleAuth_simps [simp]:
  "cy_sha256 sampleCrypto = bytesOf" "cy_bcrypt sampleCrypto h p = (h = bytesOf p)"
  "\<not> cfg_AuthDisabled sampleConfig"
  "rd_pool (sampleReader cs)" "rd_query (sampleReader cs) k = Inr (emptyDb\<lparr>db_credential := cs\<rparr>)"
  "rd_now (sampleReader cs) k = 1700000000"
  "tm_check (sampleTimes n) = n" "tm_checkReset (sampleTimes n) = n" "tm_cache (sampleTimes n) = n"
  "tm_store (sampleTimes n) = n" "tm_fail (sampleTimes n) = n" "tm_failReset (sampleTimes n) = n"
  by (simp_all add: sampleCrypto_def sampleConfig_def sampleReader_def sampleTimes_def)

lemma sampleCredential_simps [simp]:
  "cr_username sampleCredential = ''ann''" "cr_hash sampleCredential = bytesOf ''key1''"
  "notExpired 1700000000 sampleCredential"
  by (simp_all add: sampleCredential_def notExpired_def)

lemma keyRequest_simps [simp]: "FormValue (keyRequest k) ''apiKey'' = k"
  by (simp add: keyRequest_def FormValue_def sampleRequest_form)

lemma sampleLoad:
  "loadAllCredentials (sampleReader []) = None"
  "loadAllCredentials (sampleReader [sampleCredential]) = Some [sampleCredential]"
  by (simp_all add: loadAllCredentials_def select_def validCredentials_def)

lemma keyAccepted_sample: "\<not> keyAccepted sampleCrypto (sampleReader []) key user"
  "keyAccepted sampleCrypto (sampleReader [sampleCredential]) ''key1'' user \<longleftrightarrow> user = ''ann''"
  by (auto simp: keyAccepted_def)

text \<open>
  The credential is gone from the table, the cache was not flushed: the key still passes one
  minute later.
\<close>

theorem authMiddleware_sound_witness:
  "\<exists>r' st' ev stored.
     authMiddleware sampleCrypto sampleConfig (sampleTimes 60000000001) (sampleReader []) (keyRequest ''key1'')
       (authState_after sampleCrypto sampleConfig
          [Request (sampleTimes 1) (sampleReader [sampleCredential]) (keyRequest ''key1'')]) = (Passed r', st')
     \<and> r' = withUser ''ann'' (keyRequest ''key1'')
     \<and> ev = Request (sampleTimes 1) (sampleReader [sampleCredential]) (keyRequest ''key1'')
     \<and> foundKey sampleCrypto (bytesOf ''key1'') ''ann'' stored ev \<and> 60000000001 < stored + apiKeyCacheTTL"
proof -
  let ?h = "[Request (sampleTimes 1) (sampleReader [sampleCredential]) (keyRequest ''key1'')]"
  let ?q = "keyRequest ''key1''"
  have "\<exists>st'. authMiddleware sampleCrypto sampleConfig (sampleTimes 60000000001) (sampleReader []) ?q
      (authState_after sampleCrypto sampleConfig ?h) = (Passed (withUser ''ann'' ?q), st')"
    by (simp add: authMiddleware_def checkRateLimit_def authenticateAPIKey_def sampleLoad authInit_def pass_def
        clearAuthFailure_def failureOf_def setFailure_def authFailureLimit_def authFailureWindow_def
        apiKeyCacheTTL_def Let_def)
  then obtain st' where run: "authMiddleware sampleCrypto sampleConfig (sampleTimes 60000000001) (sampleReader []) ?q
      (authState_after sampleCrypto sampleConfig ?h) = (Passed (withUser ''ann'' ?q), st')" by blast
  from authMiddleware_sound [OF run sampleAuth_simps(3)] keyAccepted_sample run show ?thesis
    by (auto simp: sinceFlush_def)
qed

theorem authMiddleware_complete_witness:
  "\<exists>st'. authMiddleware sampleCrypto sampleConfig (sampleTimes 1) (sampleReader [sampleCredential])
     (keyRequest ''key1'') authInit = (Passed (withUser ''ann'' (keyRequest ''key1'')), st')
   \<and> as_failures st' (clientIP (keyRequest ''key1'')) = None"
proof -
  have l: "\<not> fst (checkRateLimit (sampleTimes 1) (keyRequest ''key1'') authInit)"
    by (simp add: checkRateLimit_def failureOf_def authInit_def authFailureLimit_def Let_def)
  have a: "keyAccepted sampleCrypto (sampleReader [sampleCredential]) ''key1'' ''ann''"
    by (simp add: keyAccepted_sample)
  from authMiddleware_complete [OF sampleAuth_simps(3) l sampleAuth_simps(4) _ _ a] show ?thesis
    by (auto simp: keyAccepted_sample authInit_def)
qed

text \<open>Twelve guesses in a row: ten are tested, two refused.\<close>

lemma wrongKey_step:
  assumes "failureOf st (clientIP (keyRequest ''no'')) = \<lparr>fe_count = n, fe_resetAt = m\<rparr>"
    and "as_cache st = Map.empty"
  shows "\<exists>st'. authMiddleware sampleCrypto sampleConfig (sampleTimes 1) (sampleReader []) (keyRequest ''no'') st
     = (if n \<ge> 10 \<and> m \<ge> 1 then Denied tooMany else Denied wrongPassword, st')
    \<and> as_cache st' = Map.empty
    \<and> failureOf st' (clientIP (keyRequest ''no'')) =
        (if m < 1 then \<lparr>fe_count = 1, fe_resetAt = 1 + authFailureWindow\<rparr>
         else if n \<ge> 10 then \<lparr>fe_count = n, fe_resetAt = m\<rparr> else \<lparr>fe_count = n + 1, fe_resetAt = m\<rparr>)"
  using assms
  by (auto simp: authMiddleware_def checkRateLimit_def authenticateAPIKey_def sampleLoad fail_def
      recordAuthFailure_def authFailureLimit_def authFailureWindow_def Let_def setFailure_def failureOf_def
      split: option.splits)

lemma wrongKey_run:
  assumes "failureOf st (clientIP (keyRequest ''no'')) = \<lparr>fe_count = n, fe_resetAt = m\<rparr>"
    and "as_cache st = Map.empty" "m \<ge> 1"
  shows "wrongGuesses (clientIP (keyRequest ''no'')) (answers sampleCrypto sampleConfig
      (replicate k (sampleTimes 1, sampleReader [], keyRequest ''no'')) st) = min k (nat (10 - n))
    \<and> list_all (\<lambda>x. \<not> isPass (clientIP (keyRequest ''no'')) x) (answers sampleCrypto sampleConfig
      (replicate k (sampleTimes 1, sampleReader [], keyRequest ''no'')) st)"
  using assms
proof (induction k arbitrary: st n)
  case (Suc k)
  from wrongKey_step [OF Suc.prems(1,2)] obtain st' where
    s: "authMiddleware sampleCrypto sampleConfig (sampleTimes 1) (sampleReader []) (keyRequest ''no'') st
       = (if n \<ge> 10 \<and> m \<ge> 1 then Denied tooMany else Denied wrongPassword, st')"
    "as_cache st' = Map.empty" "failureOf st' (clientIP (keyRequest ''no'')) =
        (if n \<ge> 10 then \<lparr>fe_count = n, fe_resetAt = m\<rparr> else \<lparr>fe_count = n + 1, fe_resetAt = m\<rparr>)"
    using Suc.prems(3) by auto
  show ?case
    using Suc.IH [of st' "if n \<ge> 10 then n else n + 1"] s Suc.prems(3)
    by (auto simp: wrongGuesses_def split: if_splits)
qed (simp add: wrongGuesses_def)


end
