(* ===== verification/Credential_Facts.thy ===== *)
theory Credential_Facts
  imports Manage_Facts Auth_Facts
begin

text \<open>
  The life of a credential: what creating, renewing and deleting one does to the tables and to who
  can authenticate, for the admin API and for the management UI.
\<close>

section \<open>Secrets\<close>

lemma randomBase62_Some:
  "randomBase62 draw n = Some s \<Longrightarrow> (\<And>i k. draw i = Some k \<Longrightarrow> k < 62)
    \<Longrightarrow> length s = n \<and> set s \<subseteq> set base62Chars"
proof (induction draw n arbitrary: s rule: randomBase62.induct)
  case (2 draw n)
  from 2(2) obtain k s' where s: "draw 0 = Some k" "randomBase62 (\<lambda>i. draw (Suc i)) n = Some s'"
    "s = base62Chars ! k # s'" by (auto split: option.splits)
  have "length base62Chars = 62" by (simp add: base62Chars_def)
  then have "base62Chars ! k \<in> set base62Chars" using 2(3) [OF s(1)] by simp
  moreover have "length s' = n \<and> set s' \<subseteq> set base62Chars"
    by (rule 2(1) [OF s(1) s(2)]) (rule 2(3))
  ultimately show ?case using s(3) by simp
qed simp

section \<open>One statement outside a transaction\<close>

lemma exec_committed:
  assumes "exec env s c = (Inr x, c')" "cn_saved c = None"
  shows "cn_saved c' = None \<and> (\<exists>d. s (ev_now env (cn_tick c)) (committed c) = Some (d, x) \<and> committed c' = d)"
  using assms by (auto simp: committed_closed)

lemma stmtOK_credential [tx_intro]:
  "stmtOK (insertCredential i user hash enc client legacy expires)"
  "stmtOK (renewCredential expiry i user)" "stmtOK (deleteCredential i user)"
  by (simp_all add: insertCredential_def renewCredential_def deleteCredential_def tx_intro)

section \<open>Creating\<close>

text \<open>
  The row of a new credential: the owner, the hash of the secret, for legacy clients the secret
  encrypted, and the expiry.
\<close>

definition minted :: "crypto \<Rightarrow> config \<Rightarrow> (string \<Rightarrow> int option) \<Rightarrow> mintInput \<Rightarrow> env \<Rightarrow> string
    \<Rightarrow> createCredentialRequest \<Rightarrow> string \<Rightarrow> credential_row \<Rightarrow> bool" where
  "minted cy cfg pd mi env user req secret row \<longleftrightarrow>
     randomBase62 (mi_draw mi) 32 = Some secret \<and> cr_username row = user
     \<and> cr_client row = cq_clientName req \<and> mi_hash mi secret = Some (cr_hash row)
     \<and> (if cq_legacyAuth req
        then cr_legacy row = 1 \<and> (\<exists>ct. cr_encrypted row = Some ct
          \<and> EncryptPassword (cy_aes cy) (mi_nonce mi) (cfg_EncryptionKey cfg) secret = Inr ct)
        else cr_legacy row = 0 \<and> cr_encrypted row = None)
     \<and> cr_expires row = (if requestedTTL cfg pd (cq_TTL req) > 0
          then Some (localStamp env (mi_now mi + requestedTTL cfg pd (cq_TTL req))) else None)"

definition addRow :: "credential_row \<Rightarrow> db \<Rightarrow> db" where
  "addRow row d = d\<lparr>db_credential := db_credential d @ [row]\<rparr>"

lemma map_sum_Inr [simp]: "map_sum f g x = Inr y \<longleftrightarrow> (\<exists>z. x = Inr z \<and> y = g z)"
  by (cases x) auto

text \<open>The two ways a creation ends: the row is inserted, or nothing is.\<close>

lemma create_run:
  assumes "handleAdminCreateCredential cy cfg pd mi env r body c = (resp, c')"
  shows "(\<exists>cred req row c1. resp = Some (201, ACredential cred) \<and> body = Some req
       \<and> minted cy cfg pd mi env (adminUsername r) req (ac_secret cred) row
       \<and> ac_id cred = cr_id row \<and> ac_username cred = cr_username row \<and> ac_expiresAt cred = cr_expires row
       \<and> cn_db c1 = cn_db c \<and> cn_saved c1 = cn_saved c \<and> cn_tick c1 = cn_tick c
       \<and> exec env (insertCredential (cr_id row) (cr_username row) (cr_hash row) (cr_encrypted row)
            (cr_client row) (cr_legacy row) (cr_expires row)) c1 = (Inr (), c')
       \<and> cr_created row = ev_now env (cn_tick c))
    \<or> ((\<forall>cred. resp \<noteq> Some (201, ACredential cred)) \<and> committed c' = committed c \<and> (connOK c \<longrightarrow> connOK c'))"
proof (cases "\<exists>cred. resp = Some (201, ACredential cred)")
  case True
  then obtain cred where cred: "resp = Some (201, ACredential cred)" by blast
  with assms obtain req hashed enc where
    body: "body = Some req" "randomBase62 (mi_draw mi) 32 = Some (ac_secret cred)"
      "mi_hash mi (ac_secret cred) = Some hashed"
    and enc: "if cq_legacyAuth req then \<exists>ct. enc = Some ct
          \<and> EncryptPassword (cy_aes cy) (mi_nonce mi) (cfg_EncryptionKey cfg) (ac_secret cred) = Inr ct else enc = None"
    and ac: "ac_username cred = adminUsername r" "ac_expiresAt cred = (if requestedTTL cfg pd (cq_TTL req) > 0
          then Some (localStamp env (mi_now mi + requestedTTL cfg pd (cq_TTL req))) else None)"
    and ins: "exec env (insertCredential (ac_id cred) (adminUsername r) hashed enc (cq_clientName req)
         (if cq_legacyAuth req then 1 else 0) (ac_expiresAt cred)) (c\<lparr>cn_rnd := cn_rnd c + 2\<rparr>) = (Inr (), c')"
    by (auto simp: handleAdminCreateCredential_def Let_def writeJSON_def NewID_def simp del: exec_Inr
        split: option.splits sum.splits prod.splits if_splits)
  let ?row = "\<lparr>cr_id = ac_id cred, cr_username = adminUsername r, cr_hash = hashed, cr_encrypted = enc,
     cr_client = cq_clientName req, cr_legacy = (if cq_legacyAuth req then 1 else 0), cr_expires = ac_expiresAt cred,
     cr_created = ev_now env (cn_tick c)\<rparr>"
  have "minted cy cfg pd mi env (adminUsername r) req (ac_secret cred) ?row"
    using body enc ac by (auto simp: minted_def)
  with cred body(1) ac ins show ?thesis
    by (intro disjI1 exI [of _ cred] exI [of _ req] exI [of _ ?row] exI [of _ "c\<lparr>cn_rnd := cn_rnd c + 2\<rparr>"])
      (simp del: exec_Inr)
next
  case False
  with assms have "committed c' = committed c \<and> (connOK c \<longrightarrow> connOK c')"
    by (auto simp: handleAdminCreateCredential_def Let_def writeJSON_def NewID_def simp del: exec_Inr
        dest!: exec_Inl split: option.splits sum.splits prod.splits if_splits)
  with False show ?thesis by blast
qed

lemma insertCredential_Some [simp]:
  "insertCredential i user hash enc client legacy expires now d = Some (d', u) \<longleftrightarrow>
     d' = addRow \<lparr>cr_id = i, cr_username = user, cr_hash = hash, cr_encrypted = enc, cr_client = client,
           cr_legacy = legacy, cr_expires = expires, cr_created = now\<rparr> d \<and> schemaOK d'"
  by (auto simp: insertCredential_def addRow_def)

lemma createCredential_committed:
  assumes "handleAdminCreateCredential cy cfg pd mi env r body c = (resp, c')" "cn_saved c = None" "connOK c"
  shows "connOK c' \<and>
    ((\<exists>cred req row. resp = Some (201, ACredential cred) \<and> body = Some req
       \<and> minted cy cfg pd mi env (adminUsername r) req (ac_secret cred) row
       \<and> ac_id cred = cr_id row \<and> ac_username cred = cr_username row \<and> ac_expiresAt cred = cr_expires row
       \<and> committed c' = addRow row (committed c))
    \<or> (\<forall>cred. resp \<noteq> Some (201, ACredential cred)) \<and> committed c' = committed c)"
  using create_run [OF assms(1)]
proof (elim disjE exE conjE)
  fix cred req row c1
  assume a: "resp = Some (201, ACredential cred)" "body = Some req"
    "minted cy cfg pd mi env (adminUsername r) req (ac_secret cred) row"
    "ac_id cred = cr_id row" "ac_username cred = cr_username row" "ac_expiresAt cred = cr_expires row"
    "cn_db c1 = cn_db c" "cn_saved c1 = cn_saved c" "cn_tick c1 = cn_tick c"
    "exec env (insertCredential (cr_id row) (cr_username row) (cr_hash row) (cr_encrypted row)
            (cr_client row) (cr_legacy row) (cr_expires row)) c1 = (Inr (), c')"
    "cr_created row = ev_now env (cn_tick c)"
  have "connOK c1" using assms(3) a(7,8) by (simp add: connOK_def committed_def split: option.splits)
  then have "connOK c'" by (rule exec_ok [OF stmtOK_credential(1) _ a(10)])
  moreover have roweq: "\<lparr>cr_id = cr_id row, cr_username = cr_username row, cr_hash = cr_hash row,
      cr_encrypted = cr_encrypted row, cr_client = cr_client row, cr_legacy = cr_legacy row,
      cr_expires = cr_expires row, cr_created = ev_now env (cn_tick c)\<rparr> = row"
    using a(11) by (cases row) simp
  have "committed c' = addRow \<lparr>cr_id = cr_id row, cr_username = cr_username row, cr_hash = cr_hash row,
      cr_encrypted = cr_encrypted row, cr_client = cr_client row, cr_legacy = cr_legacy row,
      cr_expires = cr_expires row, cr_created = ev_now env (cn_tick c)\<rparr> (committed c)"
    using a(7-10) assms(2) by (auto simp: committed_closed)
  then have "committed c' = addRow row (committed c)" by (simp only: roweq)
  ultimately show ?thesis using a(1-6) by blast
qed (use assms(3) in auto)

lemma minted_expiry:
  assumes "minted cy cfg pd mi env user req secret row"
  shows "notExpired now row \<longleftrightarrow> requestedTTL cfg pd (cq_TTL req) \<le> 0
    \<or> now < localStamp env (mi_now mi + requestedTTL cfg pd (cq_TTL req))"
  using assms by (auto simp: minted_def notExpired_def)

lemma randomBase62_length: "randomBase62 draw n = Some s \<Longrightarrow> length s = n"
  by (induction draw n arbitrary: s rule: randomBase62.induct) (auto split: option.splits)

text \<open>A base-62 text is never taken for a hex-encoded password.\<close>

lemma base62_plain: "set s \<subseteq> set base62Chars \<Longrightarrow> plainPassword s = Some s"
proof -
  assume s: "set s \<subseteq> set base62Chars"
  have "CHR '':'' \<notin> set base62Chars" by (simp add: base62Chars_def)
  with s have "CHR '':'' \<notin> set s" by blast
  then have "\<not> hasPrefix s ''enc:''"
    by (auto simp: hasPrefix_def dest!: arg_cong [where f = set] in_set_takeD)
  then show ?thesis by (simp add: plainPassword_def)
qed

section \<open>Renewing and deleting\<close>

lemma renew_run:
  assumes "handleAdminRenewCredential cfg now readNow env rd r i c = (resp, c')"
  shows "(\<exists>n. ev_pool env
      \<and> exec env (renewCredential (localStamp env (now + cfg_CredentialTTL cfg)) i (adminUsername r)) c = (Inr n, c')
      \<and> (n = 0 \<longleftrightarrow> resp = (404, AError ''credential not found'')))
    \<or> fst resp = 500 \<and> committed c' = committed c \<and> (connOK c \<longrightarrow> connOK c')"
proof -
  let ?stmt = "renewCredential (localStamp env (now + cfg_CredentialTTL cfg)) i (adminUsername r)"
  obtain res c1 where e: "exec env ?stmt c = (res, c1)" by fastforce
  show ?thesis
  proof (cases res)
    case (Inl err)
    with assms e exec_Inl [of env ?stmt c err c1] show ?thesis
      by (simp add: handleAdminRenewCredential_def writeJSON_def Let_def split: if_splits) auto
  next
    case (Inr n)
    with assms e show ?thesis
      by (simp add: handleAdminRenewCredential_def writeJSON_def Let_def del: exec_Inr split: if_splits option.splits) auto
  qed
qed

lemma delete_run:
  assumes "handleAdminDeleteCredential env r i st c = (resp, st', c')"
  shows "(\<exists>n. exec env (deleteCredential i (adminUsername r)) c = (Inr n, c')
      \<and> (if n = 0 then resp = (404, AError ''credential not found'') \<and> st' = st
         else resp = (204, ANoContent) \<and> st' = flushAPIKeyCache st))
    \<or> fst resp = 500 \<and> st' = st \<and> committed c' = committed c \<and> (connOK c \<longrightarrow> connOK c')"
proof -
  let ?stmt = "deleteCredential i (adminUsername r)"
  obtain res c1 where e: "exec env ?stmt c = (res, c1)" by fastforce
  show ?thesis
  proof (cases res)
    case (Inl err)
    with assms e exec_Inl [of env ?stmt c err c1] show ?thesis
      by (simp add: handleAdminDeleteCredential_def writeJSON_def Let_def split: if_splits) auto
  next
    case (Inr n)
    with assms e show ?thesis
      by (simp add: handleAdminDeleteCredential_def writeJSON_def Let_def del: exec_Inr split: if_splits) auto
  qed
qed

section \<open>Properties of the admin API\<close>


text \<open>
  Claim C13. A secret that was handed out works as an API key. Right after a successful creation, as
  long as the stored expiry lies ahead, a request that gives the secret as its key and is not rate
  limited passes; when the cache has no entry for the key and no other user's credential matches
  the secret, it passes as the user the credential was created for.
\<close>

theorem created_key_works:
  assumes run: "handleAdminCreateCredential cy cfg pd mi env r (Some req) c = (Some (201, ACredential cred), c')"
    and c: "cn_saved c = None" "connOK c"
    and bcrypt: "\<And>s h. mi_hash mi s = Some h \<Longrightarrow> cy_bcrypt cy h s"
    and rd: "rd_pool rd" "rd_query rd 0 = Inr (committed c')"
    and time: "requestedTTL cfg pd (cq_TTL req) \<le> 0
      \<or> rd_now rd 0 < localStamp env (mi_now mi + requestedTTL cfg pd (cq_TTL req))"
    and q: "\<not> cfg_AuthDisabled cfg" "\<not> fst (checkRateLimit t q st)" "FormValue q ''apiKey'' = ac_secret cred"
    and only: "as_cache st (cy_sha256 cy (ac_secret cred)) = None"
      "\<And>row. row \<in> set (db_credential (committed c)) \<Longrightarrow> cy_bcrypt cy (cr_hash row) (ac_secret cred)
        \<Longrightarrow> cr_username row = adminUsername r"
  shows "\<exists>st'. authMiddleware cy cfg t rd q st = (Passed (withUser (adminUsername r) q), st')"
proof -
  from createCredential_committed [OF run c] obtain row where
    m: "minted cy cfg pd mi env (adminUsername r) req (ac_secret cred) row"
      "committed c' = addRow row (committed c)" by auto
  have row: "cy_bcrypt cy (cr_hash row) (ac_secret cred)" "cr_username row = adminUsername r"
    "ac_secret cred \<noteq> ''''"
    using m(1) bcrypt by (auto simp: minted_def dest!: randomBase62_length)
  have acc: "keyAccepted cy rd (ac_secret cred) (adminUsername r)"
    using rd(2) m(2) row time minted_expiry [OF m(1)] by (auto simp: keyAccepted_def addRow_def)
  have uniq: "user = adminUsername r" if "keyAccepted cy rd (ac_secret cred) user" for user
    using that rd(2) m(2) row(2) only(2) by (auto simp: keyAccepted_def addRow_def)
  from key_passes [OF q(1,2) rd(1) q(3) [symmetric] row(3) acc] only(1) uniq show ?thesis
    by (metis option.distinct(1))
qed

text \<open>
  A secret created for legacy clients works as a password: with the user's name in
  \<open>u\<close> and the secret in \<open>p\<close>, before the expiry and with the encryption key it was stored under.
\<close>

theorem created_password_works:
  assumes run: "handleAdminCreateCredential cy cfg pd mi env r (Some req) c = (Some (201, ACredential cred), c')"
    and c: "cn_saved c = None" "connOK c"
    and legacy: "cq_legacyAuth req" "aeadOK (cy_aes cy)" "mi_nonce mi = Some nonce" "length nonce = nonceSize"
    and draws: "\<forall>i k. mi_draw mi i = Some k \<longrightarrow> k < 62"
    and rd: "rd_pool rd" "rd_query rd 0 = Inr (committed c')"
    and time: "requestedTTL cfg pd (cq_TTL req) \<le> 0
      \<or> rd_now rd 0 < localStamp env (mi_now mi + requestedTTL cfg pd (cq_TTL req))"
    and q: "\<not> cfg_AuthDisabled cfg" "\<not> fst (checkRateLimit t q st)" "FormValue q ''apiKey'' = ''''"
      "FormValue q ''t'' = ''''" "FormValue q ''u'' = adminUsername r" "adminUsername r \<noteq> ''''"
      "FormValue q ''p'' = ac_secret cred"
  shows "\<exists>st'. authMiddleware cy cfg t rd q st = (Passed (withUser (adminUsername r) q), st')"
proof -
  from createCredential_committed [OF run c] obtain row where
    m: "minted cy cfg pd mi env (adminUsername r) req (ac_secret cred) row"
      "committed c' = addRow row (committed c)" by auto
  from m(1) have s: "randomBase62 (mi_draw mi) 32 = Some (ac_secret cred)" by (simp add: minted_def)
  have secret: "ac_secret cred \<noteq> ''''" "plainPassword (ac_secret cred) = Some (ac_secret cred)"
    using randomBase62_Some [OF s] draws base62_plain by auto
  have dec: "\<exists>ct. cr_encrypted row = Some ct
      \<and> DecryptPassword (cy_aes cy) (cfg_EncryptionKey cfg) ct = Inr (ac_secret cred)"
    using m(1) legacy decrypt_encrypt [OF legacy(2) _ legacy(4)] by (auto simp: minted_def)
  have "passwordStored cy cfg rd (adminUsername r) (ac_secret cred)"
    unfolding passwordStored_def
    using rd(2) m time minted_expiry [OF m(1)] dec legacy(1)
    by (intro exI [of _ "committed c'"]) (auto simp: addRow_def minted_def intro!: bexI [of _ row])
  then show ?thesis
    using password_passes [OF q(1,2) rd(1) q(3,4), of "ac_secret cred"] q(5-7) secret by simp
qed

text \<open>What the two statements commit.\<close>

lemma renew_committed:
  assumes "exec env (renewCredential e i user) c = (Inr n, c')" "cn_saved c = None" "connOK c"
  shows "connOK c' \<and> n = length (filter (ownedBy i user) (db_credential (committed c)))
    \<and> committed c' = (committed c)\<lparr>db_credential :=
        map (\<lambda>row. if ownedBy i user row then row\<lparr>cr_expires := Some e\<rparr> else row) (db_credential (committed c))\<rparr>"
  using exec_ok [OF stmtOK_credential(2) assms(3,1)] assms(1,2)
  by (auto simp: renewCredential_def committed_closed)

lemma renewed_rows:
  "filter (ownedBy i user) (map (\<lambda>row. if ownedBy i user row then row\<lparr>cr_expires := e\<rparr> else row) rows)
     = map (\<lambda>row. row\<lparr>cr_expires := e\<rparr>) (filter (ownedBy i user) rows)"
  by (induction rows) (auto simp: ownedBy_def)

lemma deleteCredential_committed:
  assumes "exec env (deleteCredential i user) c = (Inr n, c')" "cn_saved c = None" "connOK c"
  shows "connOK c' \<and> n = length (filter (ownedBy i user) (db_credential (committed c)))
    \<and> committed c' = (committed c)\<lparr>db_credential :=
        filter (\<lambda>row. \<not> ownedBy i user row) (db_credential (committed c))\<rparr>"
  using exec_ok [OF stmtOK_credential(3) assms(3,1)] assms(1,2)
  by (auto simp: deleteCredential_def committed_closed)

text \<open>
  Renewing touches the named credential of the authenticated user and nothing else. On
  200 that credential exists, its expiry is the server's local time plus the configured lifetime,
  so that it is accepted exactly before that time and, with a lifetime of zero on a server in UTC,
  not at all any more; 404 means the user has no such credential; on an error nothing is committed.
\<close>

theorem handleAdminRenewCredential_correct:
  assumes "handleAdminRenewCredential cfg now readNow env rd r i c = (resp, c')" "cn_saved c = None" "connOK c"
    and "rd_query rd 0 = Inr (committed c')" "rd_pool rd"
  shows "connOK c' \<and>
    (if fst resp = 500 then committed c' = committed c
     else let user = adminUsername r; e = localStamp env (now + cfg_CredentialTTL cfg) in
       committed c' = (committed c)\<lparr>db_credential :=
         map (\<lambda>row. if ownedBy i user row then row\<lparr>cr_expires := Some e\<rparr> else row) (db_credential (committed c))\<rparr>
       \<and> (\<forall>row \<in> set (db_credential (committed c')). ownedBy i user row \<longrightarrow> (\<forall>t. notExpired t row \<longleftrightarrow> t < e))
       \<and> (if \<exists>row \<in> set (db_credential (committed c)). ownedBy i user row
          then \<exists>cred. resp = (200, ACredential cred) \<and> ac_id cred = i \<and> ac_username cred = user
            \<and> ac_expiresAt cred = Some e
          else resp = (404, AError ''credential not found'')))"
proof (cases "fst resp = 500")
  case True
  from renew_run [OF assms(1)] show ?thesis
  proof
    assume "\<exists>n. ev_pool env \<and> exec env (renewCredential (localStamp env (now + cfg_CredentialTTL cfg)) i (adminUsername r)) c = (Inr n, c')
      \<and> (n = 0 \<longleftrightarrow> resp = (404, AError ''credential not found''))"
    then obtain n where "ev_pool env"
      and n: "exec env (renewCredential (localStamp env (now + cfg_CredentialTTL cfg)) i (adminUsername r)) c = (Inr n, c')"
      "n = 0 \<longleftrightarrow> resp = (404, AError ''credential not found'')" by blast
    note rc = renew_committed [OF n(1) assms(2,3)]
    from True n(2) have "n \<noteq> 0" by auto
    with rc have "filter (ownedBy i (adminUsername r)) (db_credential (committed c)) \<noteq> []" by auto
    then have "filter (ownedBy i (adminUsername r)) (db_credential (committed c')) \<noteq> []"
      using rc by (simp add: renewed_rows)
    then have "getAdminCredential readNow rd i (adminUsername r) \<noteq> None"
      using assms(4,5) by (simp add: getAdminCredential_def select_def)
    then have "fst resp \<noteq> 500"
      using assms(1) n(1) \<open>n \<noteq> 0\<close> \<open>ev_pool env\<close>
      by (auto simp: handleAdminRenewCredential_def Let_def writeJSON_def simp del: exec_Inr split: if_splits option.splits)
    with True show ?thesis by simp
  qed (use True assms(3) in auto)
next
  case False
  let ?u = "adminUsername r" and ?e = "localStamp env (now + cfg_CredentialTTL cfg)"
  from False renew_run [OF assms(1)] obtain n where
    n: "exec env (renewCredential ?e i ?u) c = (Inr n, c')" "n = 0 \<longleftrightarrow> resp = (404, AError ''credential not found'')"
    by blast
  note rc = renew_committed [OF n(1) assms(2,3)]
  have ex: "(\<exists>row \<in> set (db_credential (committed c)). ownedBy i ?u row) \<longleftrightarrow> n \<noteq> 0"
    using rc by (auto simp: filter_empty_conv)
  have rows: "cr_expires row = Some ?e"
    if "row \<in> set (db_credential (committed c'))" "ownedBy i ?u row" for row
  proof -
    have "filter (ownedBy i ?u) (db_credential (committed c'))
        = map (\<lambda>row. row\<lparr>cr_expires := Some ?e\<rparr>) (filter (ownedBy i ?u) (db_credential (committed c)))"
      using rc by (simp add: renewed_rows)
    moreover from that have "row \<in> set (filter (ownedBy i ?u) (db_credential (committed c')))" by simp
    ultimately have "row \<in> set (map (\<lambda>row. row\<lparr>cr_expires := Some ?e\<rparr>) (filter (ownedBy i ?u) (db_credential (committed c))))"
      by simp
    then show ?thesis by auto
  qed
  have cred: "\<exists>cred. resp = (200, ACredential cred) \<and> ac_id cred = i \<and> ac_username cred = ?u
      \<and> ac_expiresAt cred = Some ?e" if n0: "n \<noteq> 0"
  proof -
    obtain cred where "getAdminCredential readNow rd i ?u = Some cred" "resp = (200, ACredential cred)"
      using assms(1) n(1) n0 False
      by (auto simp: handleAdminRenewCredential_def Let_def writeJSON_def simp del: exec_Inr split: if_splits option.splits)
    moreover from this(1) obtain row where row: "row \<in> set (db_credential (committed c'))" "ownedBy i ?u row"
      "cred = scanAdminCredential readNow row"
      using assms(4,5) last_in_set [of "filter (ownedBy i ?u) (db_credential (committed c'))"]
      by (auto simp: getAdminCredential_def select_def split: if_splits)
    ultimately show ?thesis using rows [OF row(1,2)] row(2) by (simp add: scanAdminCredential_def ownedBy_def)
  qed
  have "\<forall>row \<in> set (db_credential (committed c')). ownedBy i ?u row \<longrightarrow> (\<forall>t. notExpired t row \<longleftrightarrow> t < ?e)"
    using rows by (simp add: notExpired_def)
  moreover have "if \<exists>row \<in> set (db_credential (committed c)). ownedBy i ?u row
      then \<exists>cred. resp = (200, ACredential cred) \<and> ac_id cred = i \<and> ac_username cred = ?u \<and> ac_expiresAt cred = Some ?e
      else resp = (404, AError ''credential not found'')"
    unfolding ex using n(2) cred by (cases "n = 0") simp_all
  ultimately show ?thesis
    unfolding Let_def if_not_P [OF False] using rc by blast
qed

text \<open>
  Claim C9. Deleting revokes. On 204 the user had the credential, exactly it is gone from the
  committed tables, and the API-key cache is empty: from then on, as long as a request reads these
  tables, an API key is accepted only for another credential whose hash it matches and which has
  not expired. On any other answer tables and cache are as before.
\<close>

theorem handleAdminDeleteCredential_revokes:
  assumes "handleAdminDeleteCredential env r i st c = (resp, st', c')" "cn_saved c = None" "connOK c"
  shows "connOK c' \<and>
    (if fst resp = 204
     then (\<exists>row \<in> set (db_credential (committed c)). ownedBy i (adminUsername r) row)
       \<and> committed c' = (committed c)\<lparr>db_credential :=
           filter (\<lambda>row. \<not> ownedBy i (adminUsername r) row) (db_credential (committed c))\<rparr>
       \<and> as_cache st' = Map.empty
       \<and> (\<forall>cy t rd key user st2. rd_query rd 0 = Inr (committed c')
            \<longrightarrow> authenticateAPIKey cy t rd key st' = (Some user, st2)
            \<longrightarrow> (\<exists>row \<in> set (db_credential (committed c)). \<not> ownedBy i (adminUsername r) row
                 \<and> notExpired (rd_now rd 0) row \<and> cy_bcrypt cy (cr_hash row) key \<and> cr_username row = user))
     else committed c' = committed c \<and> st' = st)"
  using delete_run [OF assms(1)]
proof (elim disjE exE conjE)
  fix n
  assume n: "exec env (deleteCredential i (adminUsername r)) c = (Inr n, c')"
    "if n = 0 then resp = (404, AError ''credential not found'') \<and> st' = st
         else resp = (204, ANoContent) \<and> st' = flushAPIKeyCache st"
  note dc = deleteCredential_committed [OF n(1) assms(2,3)]
  show ?thesis
  proof (cases "n = 0")
    case True
    with dc have "filter (\<lambda>row. \<not> ownedBy i (adminUsername r) row) (db_credential (committed c)) = db_credential (committed c)"
      by (auto simp: filter_empty_conv filter_id_conv)
    with dc n(2) True show ?thesis by simp
  next
    case False
    have ex: "\<exists>row \<in> set (db_credential (committed c)). ownedBy i (adminUsername r) row"
      using dc False by (auto simp: filter_empty_conv)
    have cache: "as_cache st' = Map.empty" using n(2) False by (simp add: flushAPIKeyCache_def)
    have acc: "\<exists>row \<in> set (db_credential (committed c)). \<not> ownedBy i (adminUsername r) row
        \<and> notExpired (rd_now rd 0) row \<and> cy_bcrypt cy (cr_hash row) key \<and> cr_username row = user"
      if rd: "rd_query rd 0 = Inr (committed c')" and a: "authenticateAPIKey cy t rd key st' = (Some user, st2)"
      for cy t rd key user st2
    proof -
      have "keyAccepted cy rd key user" using authenticateAPIKey_Some [OF a] cache by auto
      then show ?thesis using rd dc by (auto simp: keyAccepted_def)
    qed
    show ?thesis using dc ex cache acc n(2) False by simp
  qed
qed (use assms(3) in auto)

section \<open>The management UI\<close>

text \<open>The answer of the UI to a creation, as the admin API would give it.\<close>

definition createdPage :: "string \<Rightarrow> createCredentialRequest \<Rightarrow> string \<Rightarrow> manageResponse" where
  "createdPage user req secret =
     showPage 200 (CredentialCreated (cq_clientName req) (cq_legacyAuth req) user secret)"

lemma error_pages [simp]: "httpError msg code \<noteq> createdPage user req secret"
  "showPage 200 NoPage \<noteq> createdPage user req secret"
  by (simp_all add: httpError_def createdPage_def showPage_def)

lemma mint_like_create:
  assumes sess: "getSession now q (ms_sessions s) = Some sess" "ss_Username sess = adminUsername r"
    and form: "FormValue q ''client_name'' = cq_clientName req" "FormValue q ''ttl'' = cq_TTL req"
      "FormValue q ''legacy_auth'' = ''1'' \<longleftrightarrow> cq_legacyAuth req"
    and admin: "handleAdminCreateCredential cy cfg pd mi env r (Some req) c = (resp, c1)"
    and manage: "handleMintCredential cy cfg pd mi env now q s c = (resp', c2)"
  shows "c1 = c2 \<and> (resp = None \<longleftrightarrow> resp' = None)
    \<and> (\<forall>secret. (\<exists>cred. resp = Some (201, ACredential cred) \<and> ac_secret cred = secret)
        \<longleftrightarrow> resp' = Some (createdPage (adminUsername r) req secret))"
proof -
  let ?ttl = "if FormValue q ''ttl'' = '''' then cfg_CredentialTTL cfg
     else if FormValue q ''ttl'' = ''0'' then 0
     else case pd (FormValue q ''ttl'') of None \<Rightarrow> cfg_CredentialTTL cfg | Some parsed \<Rightarrow> parsed"
  have ttl: "?ttl = requestedTTL cfg pd (cq_TTL req)"
    by (auto simp: requestedTTL_def form(2) split: option.splits)
  have page: "\<And>secret. showPage 200 (CredentialCreated (cq_clientName req) (cq_legacyAuth req) (adminUsername r) secret)
      = createdPage (adminUsername r) req secret"
    by (simp add: createdPage_def)
  have inj: "\<And>secret secret'. createdPage (adminUsername r) req secret = createdPage (adminUsername r) req secret'
      \<longleftrightarrow> secret = secret'"
    by (simp add: createdPage_def showPage_def)
  show ?thesis
  proof (cases "randomBase62 (mi_draw mi) 32")
    case None
    with admin manage show ?thesis
      by (auto simp: handleAdminCreateCredential_def handleMintCredential_def)
  next
    case secret: (Some secret)
    show ?thesis
    proof (cases "mi_hash mi secret")
      case None
      with secret admin manage show ?thesis
        by (auto simp: handleAdminCreateCredential_def handleMintCredential_def writeJSON_def)
    next
      case hash: (Some hashed)
      define e where "e = (if cq_legacyAuth req
        then EncryptPassword (cy_aes cy) (mi_nonce mi) (cfg_EncryptionKey cfg) secret else Inr [])"
      show ?thesis
      proof (cases e)
        case (Inl err)
        with secret hash admin manage form(3) show ?thesis
          by (auto simp: handleAdminCreateCredential_def handleMintCredential_def writeJSON_def e_def Let_def
              split: if_splits)
      next
        case (Inr enc)
        define i where "i = newIDOf (ev_rnd env (cn_rnd c)) (ev_rnd env (Suc (cn_rnd c)))"
        define exp where "exp = (if requestedTTL cfg pd (cq_TTL req) > 0
          then Some (localStamp env (mi_now mi + requestedTTL cfg pd (cq_TTL req))) else None)"
        define enc' where "enc' = (if cq_legacyAuth req then Some enc else None)"
        obtain res c3 where run: "exec env (insertCredential i (adminUsername r) hashed enc'
            (cq_clientName req) (if cq_legacyAuth req then 1 else 0) exp) (c\<lparr>cn_rnd := cn_rnd c + 2\<rparr>) = (res, c3)"
          by fastforce
        have e': "(if cq_legacyAuth req
            then map_sum id Some (EncryptPassword (cy_aes cy) (mi_nonce mi) (cfg_EncryptionKey cfg) secret)
            else Inr None) = Inr enc'"
          using Inr by (auto simp: e_def enc'_def split: if_splits)
        have a: "(resp, c1) = (if \<not> ev_pool env then (Some (500, AError ''internal error''), c\<lparr>cn_rnd := cn_rnd c + 2\<rparr>)
          else case res of Inl _ \<Rightarrow> (Some (500, AError ''internal error''), c3)
           | Inr _ \<Rightarrow> (Some (201, ACredential \<lparr>ac_id = i, ac_username = adminUsername r,
               ac_clientName = cq_clientName req, ac_legacyAuth = cq_legacyAuth req,
               ac_createdAt = localStamp env (mi_created mi), ac_expiresAt = exp, ac_expired = False,
               ac_secret = secret\<rparr>), c3))"
          unfolding admin [symmetric] using secret hash run e'
          by (simp add: handleAdminCreateCredential_def NewID_def writeJSON_def i_def exp_def Let_def
              del: exec_Inr split: sum.splits)
        have m: "(resp', c2) = (if \<not> ev_pool env then (Some (httpError ''internal error'' 500), c\<lparr>cn_rnd := cn_rnd c + 2\<rparr>)
          else case res of Inl _ \<Rightarrow> (Some (httpError ''internal error'' 500), c3)
           | Inr _ \<Rightarrow> (Some (createdPage (adminUsername r) req secret), c3))"
          unfolding manage [symmetric] page [symmetric]
          using secret hash run Inr sess form(1,3) ttl
          by (cases "cq_legacyAuth req"; cases "0 < requestedTTL cfg pd (cq_TTL req)"; cases res;
              simp add: handleMintCredential_def NewID_def i_def exp_def e_def enc'_def Let_def del: exec_Inr)
        show ?thesis
          using a m by (cases res) (auto simp: inj split: if_splits)
      qed
    qed
  qed
qed

text \<open>
  The two copies of the creation of a credential, \<open>handleAdminCreateCredential\<close> and
  \<open>handleMintCredential\<close>, do the same: for the same user, form and runtime inputs they leave the
  write connection in the same state, hand out the same secret or none, and panic on the same
  inputs.
\<close>

theorem handleMintCredential_equiv:
  assumes sess: "getSession now q (ms_sessions s) = Some sess" "ss_Username sess = adminUsername r"
    and form: "FormValue q ''client_name'' = cq_clientName req" "FormValue q ''ttl'' = cq_TTL req"
      "FormValue q ''legacy_auth'' = ''1'' \<longleftrightarrow> cq_legacyAuth req"
    and admin: "handleAdminCreateCredential cy cfg pd mi env r (Some req) c = (resp, c1)"
    and manage: "handleMintCredential cy cfg pd mi env now q s c = (resp', c2)"
  shows "c1 = c2 \<and> (resp = None \<longleftrightarrow> resp' = None)
    \<and> (\<forall>secret. (\<exists>cred. resp = Some (201, ACredential cred) \<and> ac_secret cred = secret)
        \<longleftrightarrow> resp' = Some (createdPage (adminUsername r) req secret))"
  using mint_like_create [OF sess form admin manage] .

text \<open>Every write to the table of credentials that the two interfaces offer, on behalf of a user;
  \<open>s\<close> is the management server, for its sessions.\<close>

inductive credentialStep :: "'a ManageServer \<Rightarrow> env \<Rightarrow> string \<Rightarrow> conn \<Rightarrow> conn \<Rightarrow> bool" where
  create: "handleAdminCreateCredential cy cfg pd mi env r body c = (resp, c')
     \<Longrightarrow> credentialStep s env (adminUsername r) c c'"
| renew: "handleAdminRenewCredential cfg now readNow env rd r i c = (resp2, c')
     \<Longrightarrow> credentialStep s env (adminUsername r) c c'"
| delete: "handleAdminDeleteCredential env r i st c = (resp2, st', c')
     \<Longrightarrow> credentialStep s env (adminUsername r) c c'"
| mint: "getSession now q (ms_sessions s) = Some sess
     \<Longrightarrow> handleMintCredential cy cfg pd mi env now q s c = (resp3, c')
     \<Longrightarrow> credentialStep s env (ss_Username sess) c c'"
| renewUI: "getSession now q (ms_sessions s) = Some sess
     \<Longrightarrow> handleRenewCredential cfg now clockNow readNow env rd q i s c = (resp3, c')
     \<Longrightarrow> credentialStep s env (ss_Username sess) c c'"
| revoke: "getSession now q (ms_sessions s) = Some sess
     \<Longrightarrow> handleRevokeCredential env now q i s c = (resp3, c')
     \<Longrightarrow> credentialStep s env (ss_Username sess) c c'"

definition othersKept :: "string \<Rightarrow> db \<Rightarrow> db \<Rightarrow> bool" where
  "othersKept user d d' \<longleftrightarrow> d'\<lparr>db_credential := []\<rparr> = d\<lparr>db_credential := []\<rparr>
     \<and> filter (\<lambda>row. cr_username row \<noteq> user) (db_credential d') = filter (\<lambda>row. cr_username row \<noteq> user) (db_credential d)"

lemma othersKept_refl [simp]: "othersKept user d d"
  by (simp add: othersKept_def)

lemma othersKept_add: "cr_username row = user \<Longrightarrow> othersKept user d (addRow row d)"
  by (simp add: othersKept_def addRow_def)

lemma othersKept_renew:
  "othersKept user d (d\<lparr>db_credential :=
     map (\<lambda>row. if ownedBy i user row then row\<lparr>cr_expires := e\<rparr> else row) (db_credential d)\<rparr>)"
proof -
  have "filter (\<lambda>row. cr_username row \<noteq> user)
      (map (\<lambda>row. if ownedBy i user row then row\<lparr>cr_expires := e\<rparr> else row) rows)
    = filter (\<lambda>row. cr_username row \<noteq> user) rows" for rows
    by (induction rows) (auto simp: ownedBy_def)
  then show ?thesis by (simp add: othersKept_def)
qed

lemma othersKept_delete:
  "othersKept user d (d\<lparr>db_credential := filter (\<lambda>row. \<not> ownedBy i user row) (db_credential d)\<rparr>)"
proof -
  have "filter (\<lambda>row. cr_username row \<noteq> user) (filter (\<lambda>row. \<not> ownedBy i user row) rows)
    = filter (\<lambda>row. cr_username row \<noteq> user) rows" for rows
    by (induction rows) (auto simp: ownedBy_def)
  then show ?thesis by (simp add: othersKept_def)
qed

lemma exec_kept:
  assumes "exec env s c = (res, c')" "connOK c" "cn_saved c = None"
    and "\<And>x. res = Inr x \<Longrightarrow> connOK c' \<and> othersKept user (committed c) (committed c')"
  shows "connOK c' \<and> othersKept user (committed c) (committed c')"
  using assms exec_Inl [of env s c _ c'] by (cases res) auto

lemma renew_kept:
  assumes "exec env (renewCredential e i user) c = (res, c')" "connOK c" "cn_saved c = None"
  shows "connOK c' \<and> othersKept user (committed c) (committed c')"
proof (rule exec_kept [OF assms])
  fix n assume "res = Inr n"
  then have n: "exec env (renewCredential e i user) c = (Inr n, c')" using assms(1) by simp
  note rc = renew_committed [OF n assms(3,2)]
  from rc have "committed c' = (committed c)\<lparr>db_credential :=
      map (\<lambda>row. if ownedBy i user row then row\<lparr>cr_expires := Some e\<rparr> else row) (db_credential (committed c))\<rparr>"
    by blast
  with rc show "connOK c' \<and> othersKept user (committed c) (committed c')"
    by (simp only: othersKept_renew)
qed

lemma delete_kept:
  assumes "exec env (deleteCredential i user) c = (res, c')" "connOK c" "cn_saved c = None"
  shows "connOK c' \<and> othersKept user (committed c) (committed c')"
proof (rule exec_kept [OF assms])
  fix n assume "res = Inr n"
  then have n: "exec env (deleteCredential i user) c = (Inr n, c')" using assms(1) by simp
  note dc = deleteCredential_committed [OF n assms(3,2)]
  from dc have "committed c' = (committed c)\<lparr>db_credential :=
      filter (\<lambda>row. \<not> ownedBy i user row) (db_credential (committed c))\<rparr>"
    by blast
  with dc show "connOK c' \<and> othersKept user (committed c) (committed c')"
    by (simp only: othersKept_delete)
qed

lemma renewUI_exec:
  assumes "getSession now q (ms_sessions s) = Some sess"
    and "handleRenewCredential cfg now clockNow readNow env rd q i s c = (resp, c')"
  shows "c' = c \<or> (\<exists>res. exec env (renewCredential (localStamp env (clockNow + cfg_CredentialTTL cfg)) i (ss_Username sess)) c = (res, c'))"
  using assms
  by (auto simp: handleRenewCredential_def Let_def simp del: exec_Inr split: if_splits prod.splits sum.splits option.splits)

lemma revoke_exec:
  assumes "getSession now q (ms_sessions s) = Some sess" "handleRevokeCredential env now q i s c = (resp, c')"
  shows "c' = c \<or> (\<exists>res. exec env (deleteCredential i (ss_Username sess)) c = (res, c'))"
  using assms
  by (auto simp: handleRevokeCredential_def simp del: exec_Inr split: if_splits prod.splits sum.splits)

lemma created_kept:
  assumes "handleAdminCreateCredential cy cfg pd mi env r body c = (resp, c')" "connOK c" "cn_saved c = None"
  shows "connOK c' \<and> othersKept (adminUsername r) (committed c) (committed c')"
  using createCredential_committed [OF assms(1,3,2)]
  by (auto simp: minted_def intro: othersKept_add)

text \<open>
  Claim C15. A user's requests, through either interface and with any credential identifier, leave
  the credentials of every other user and all other tables as they were, whatever happens, and the
  schema's constraints keep holding.
\<close>

theorem credentialStep_isolated:
  assumes "credentialStep s env user c c'" "connOK c" "cn_saved c = None"
  shows "connOK c' \<and> othersKept user (committed c) (committed c')"
  using assms
proof (induction rule: credentialStep.induct)
  case (create cy cfg pd mi env r body c resp c' s)
  then show ?case by (rule created_kept)
next
  case (renew cfg now readNow env rd r i c resp2 c' s)
  from renew_run [OF renew(1)] show ?case
    using renew_kept [OF _ renew(2,3)] renew(2) by (elim disjE exE conjE) (blast, simp)
next
  case (delete env r i st c resp2 st' c' s)
  from delete_run [OF delete(1)] show ?case
    using delete_kept [OF _ delete(2,3)] delete(2) by (elim disjE exE conjE) (blast, simp)
next
  case (mint now q s sess cy cfg pd mi env c resp3 c')
  let ?r = "q\<lparr>rq_user := Some (ss_Username sess)\<rparr>"
  let ?req = "\<lparr>cq_clientName = FormValue q ''client_name'', cq_legacyAuth = (FormValue q ''legacy_auth'' = ''1''),
     cq_TTL = FormValue q ''ttl''\<rparr>"
  obtain resp c1 where run: "handleAdminCreateCredential cy cfg pd mi env ?r (Some ?req) c = (resp, c1)" by fastforce
  have u: "adminUsername ?r = ss_Username sess" by (simp add: adminUsername_def)
  have "c1 = c'"
    using mint_like_create [OF mint(1) u [symmetric] _ _ _ run mint(2)] by simp
  then show ?case using created_kept [OF run mint(3,4)] u by simp
next
  case (renewUI now q s sess cfg clockNow readNow env rd i c resp3 c')
  from renewUI_exec [OF renewUI(1,2)] show ?case
    using renew_kept [OF _ renewUI(3,4)] renewUI(3) by (elim disjE exE) (simp, blast)
next
  case (revoke now q s sess env i c resp3 c')
  from revoke_exec [OF revoke(1,2)] show ?case
    using delete_kept [OF _ revoke(3,4)] revoke(3) by (elim disjE exE) (simp, blast)
qed

text \<open>
  The list of credentials tells the truth: at any moment, a credential the API or the UI
  shows as expired is refused by the authentication, and one it does not show as expired is
  accepted, but for the nanosecond at which the stored second begins.
\<close>

theorem expired_flag_agrees:
  "ac_expired (scanAdminCredential now c) = cv_Expired (scanCredentialView now c)
   \<and> notExpired (now div nanos) c = (\<not> (ac_expired (scanAdminCredential now c)
        \<or> (cr_expires c = Some (now div nanos) \<and> now mod nanos = 0)))"
proof (cases "cr_expires c")
  case (Some e)
  have "now = now div nanos * nanos + now mod nanos" "0 \<le> now mod nanos" "now mod nanos < nanos" "0 < nanos"
    by (simp_all add: nanos_def)
  then have "now div nanos < e \<longleftrightarrow> now < e * nanos"
    by (simp add: nanos_def) linarith
  moreover have "now = e * nanos \<longleftrightarrow> now div nanos = e \<and> now mod nanos = 0"
    by (auto simp: nanos_def)
  then have "now > e * nanos \<longleftrightarrow> \<not> now < e * nanos \<and> \<not> (now div nanos = e \<and> now mod nanos = 0)"
    by linarith
  ultimately show ?thesis
    using Some by (auto simp: scanAdminCredential_def scanCredentialView_def notExpired_def)
qed (simp add: scanAdminCredential_def scanCredentialView_def notExpired_def)

section \<open>Witnesses\<close>

definition sampleMint :: mintInput where
  "sampleMint = \<lparr>mi_draw = (\<lambda>i. Some (i mod 62)), mi_hash = (\<lambda>s. Some (bytesOf s)), mi_nonce = Some (replicate 12 7),
     mi_now = 1700000000000000000, mi_created = 1700000000000000001\<rparr>"

definition sampleCreate :: createCredentialRequest where
  "sampleCreate = \<lparr>cq_clientName = ''phone'', cq_legacyAuth = True, cq_TTL = ''1h''\<rparr>"

definition hours :: "string \<Rightarrow> int option" where
  "hours s = (if s = ''1h'' then Some (3600 * nanos) else None)"

abbreviation sampleRun :: "adminResponse option \<times> conn" where
  "sampleRun \<equiv> handleAdminCreateCredential sampleCrypto sampleConfig hours sampleMint quietEnv
     (sampleRequest ''ann'' []) (Some sampleCreate) (connOf sampleDb)"

lemma sampleMint_draw: "\<forall>i k. mi_draw sampleMint i = Some k \<longrightarrow> k < 62"
  by (auto simp: sampleMint_def)

lemma randomBase62_total: "(\<And>i. draw i \<noteq> None) \<Longrightarrow> \<exists>s. randomBase62 draw n = Some s"
  by (induction draw n rule: randomBase62.induct) (auto split: option.splits)

lemma adminUsername_sample [simp]: "adminUsername (sampleRequest user form) = user"
  by (simp add: adminUsername_def sampleRequest_def)

lemma sampleTTL: "requestedTTL sampleConfig hours (cq_TTL sampleCreate) = 3600 * nanos"
  by (simp add: requestedTTL_def sampleCreate_def hours_def)

lemma sampleRun_ok: "\<exists>cred c'. sampleRun = (Some (201, ACredential cred), c')"
proof -
  obtain s where s: "randomBase62 (mi_draw sampleMint) 32 = Some s"
    using randomBase62_total [of "mi_draw sampleMint"] by (auto simp: sampleMint_def)
  have k: "\<exists>ct. EncryptPassword (cy_aes sampleCrypto) (mi_nonce sampleMint) (cfg_EncryptionKey sampleConfig) s = Inr ct"
    by (simp add: EncryptPassword_def deriveKey_def hexVal_def sampleMint_def sampleConfig_def)
  have h: "mi_hash sampleMint s = Some (bytesOf s)" by (simp add: sampleMint_def)
  from k obtain ct where ct: "EncryptPassword (cy_aes sampleCrypto) (mi_nonce sampleMint) (cfg_EncryptionKey sampleConfig) s = Inr ct"
    by blast
  have ok: "schemaOK (addRow row sampleDb)" for row
    by (simp add: addRow_def)
  show ?thesis
    using s h ct ok
    by (simp add: handleAdminCreateCredential_def run_defs insertCredential_def writeJSON_def sampleCreate_def
        Let_def addRow_def [symmetric])
qed


theorem created_key_works_witness:
  "\<exists>cred c' st'. sampleRun = (Some (201, ACredential cred), c')
     \<and> authMiddleware sampleCrypto sampleConfig (sampleTimes 1)
          \<lparr>rd_pool = True, rd_query = (\<lambda>_. Inr (committed c')), rd_now = (\<lambda>_. 1700000001)\<rparr>
          (keyRequest (ac_secret cred)) authInit
        = (Passed (withUser ''ann'' (keyRequest (ac_secret cred))), st')"
proof -
  from sampleRun_ok obtain cred c' where run: "sampleRun = (Some (201, ACredential cred), c')" by blast
  let ?rd = "\<lparr>rd_pool = True, rd_query = (\<lambda>_. Inr (committed c')), rd_now = (\<lambda>_. 1700000001)\<rparr>"
  have b: "mi_hash sampleMint s = Some h \<Longrightarrow> cy_bcrypt sampleCrypto h s" for s h
    by (simp add: sampleMint_def)
  have time: "requestedTTL sampleConfig hours (cq_TTL sampleCreate) \<le> 0 \<or> rd_now ?rd 0
      < localStamp quietEnv (mi_now sampleMint + requestedTTL sampleConfig hours (cq_TTL sampleCreate))"
    by (simp add: sampleTTL localStamp_def nanos_def sampleMint_def)
  have l: "\<not> fst (checkRateLimit (sampleTimes 1) (keyRequest (ac_secret cred)) authInit)"
    by (simp add: checkRateLimit_def failureOf_def authInit_def authFailureLimit_def Let_def)
  have "\<exists>st'. authMiddleware sampleCrypto sampleConfig (sampleTimes 1) ?rd (keyRequest (ac_secret cred)) authInit
      = (Passed (withUser (adminUsername (sampleRequest ''ann'' [])) (keyRequest (ac_secret cred))), st')"
    by (rule created_key_works [OF run _ _ b _ _ time sampleAuth_simps(3) l]) (simp_all add: authInit_def)
  with run show ?thesis by auto
qed

theorem created_password_works_witness:
  "\<exists>cred c' q st'. sampleRun = (Some (201, ACredential cred), c')
     \<and> q = sampleRequest '''' [(''u'', ''ann''), (''p'', ac_secret cred)]
     \<and> authMiddleware sampleCrypto sampleConfig (sampleTimes 1)
          \<lparr>rd_pool = True, rd_query = (\<lambda>_. Inr (committed c')), rd_now = (\<lambda>_. 1700000001)\<rparr> q authInit
        = (Passed (withUser ''ann'' q), st')"
proof -
  from sampleRun_ok obtain cred c' where run: "sampleRun = (Some (201, ACredential cred), c')" by blast
  let ?rd = "\<lparr>rd_pool = True, rd_query = (\<lambda>_. Inr (committed c')), rd_now = (\<lambda>_. 1700000001)\<rparr>"
  let ?q = "sampleRequest '''' [(''u'', ''ann''), (''p'', ac_secret cred)]"
  have time: "requestedTTL sampleConfig hours (cq_TTL sampleCreate) \<le> 0 \<or> rd_now ?rd 0
      < localStamp quietEnv (mi_now sampleMint + requestedTTL sampleConfig hours (cq_TTL sampleCreate))"
    by (simp add: sampleTTL localStamp_def nanos_def sampleMint_def)
  have l: "\<not> fst (checkRateLimit (sampleTimes 1) ?q authInit)"
    by (simp add: checkRateLimit_def failureOf_def authInit_def authFailureLimit_def Let_def)
  have leg: "cq_legacyAuth sampleCreate" "aeadOK (cy_aes sampleCrypto)" "mi_nonce sampleMint = Some (replicate 12 7)"
    "length (replicate 12 7 :: bytes) = nonceSize"
    by (simp_all add: sampleCreate_def sampleCrypto_def sampleMint_def nonceSize_def)
  have "\<exists>st'. authMiddleware sampleCrypto sampleConfig (sampleTimes 1) ?rd ?q authInit
      = (Passed (withUser (adminUsername (sampleRequest ''ann'' [])) ?q), st')"
    by (rule created_password_works [OF run _ _ leg sampleMint_draw _ _ time sampleAuth_simps(3) l])
      (simp_all add: FormValue_def sampleRequest_form)
  with run show ?thesis by auto
qed

abbreviation credDb :: "stamp \<Rightarrow> db" where
  "credDb e \<equiv> sampleDb\<lparr>db_credential := [sampleCredential\<lparr>cr_expires := Some e\<rparr>]\<rparr>"

lemma ownedBy_sample [simp]:
  "ownedBy i user (sampleCredential\<lparr>cr_expires := e\<rparr>) \<longleftrightarrow> i = ''c1'' \<and> user = ''ann''"
  by (auto simp: ownedBy_def sampleCredential_def)

lemma credDb_ok [simp]: "schemaOK (credDb e)" "schemaOK (sampleDb\<lparr>db_credential := []\<rparr>)"
  by simp_all

theorem handleAdminRenewCredential_correct_witness:
  "\<exists>resp c' cred. handleAdminRenewCredential sampleConfig 1700000000000000000 0 quietEnv
       \<lparr>rd_pool = True, rd_query = (\<lambda>_. Inr (credDb 1700604800)), rd_now = (\<lambda>_. 0)\<rparr>
       (sampleRequest ''ann'' []) ''c1'' (connOf (credDb 1700000600)) = (resp, c')
     \<and> resp = (200, ACredential cred) \<and> ac_expiresAt cred = Some 1700604800"
proof -
  let ?rd = "\<lparr>rd_pool = True, rd_query = (\<lambda>_. Inr (credDb 1700604800)), rd_now = (\<lambda>_. 0)\<rparr>"
  have e: "localStamp quietEnv (1700000000000000000 + cfg_CredentialTTL sampleConfig) = 1700604800"
    by (simp add: localStamp_def nanos_def sampleConfig_def)
  have "\<exists>resp c'. handleAdminRenewCredential sampleConfig 1700000000000000000 0 quietEnv ?rd
       (sampleRequest ''ann'' []) ''c1'' (connOf (credDb 1700000600)) = (resp, c') \<and> fst resp \<noteq> 500
       \<and> committed c' = credDb 1700604800"
    by (simp add: handleAdminRenewCredential_def run_defs renewCredential_def e getAdminCredential_def select_def
        writeJSON_def Let_def connOf_def committed_def)
  then obtain resp c' where run: "handleAdminRenewCredential sampleConfig 1700000000000000000 0 quietEnv ?rd
       (sampleRequest ''ann'' []) ''c1'' (connOf (credDb 1700000600)) = (resp, c')" "fst resp \<noteq> 500"
       "committed c' = credDb 1700604800" by blast
  have rd: "rd_query ?rd 0 = Inr (committed c')" "rd_pool ?rd" using run(3) by simp_all
  have ex: "\<exists>row \<in> set (db_credential (committed (connOf (credDb 1700000600)))).
      ownedBy ''c1'' (adminUsername (sampleRequest ''ann'' [])) row" by simp
  have c: "cn_saved (connOf (credDb 1700000600)) = None" "connOK (connOf (credDb 1700000600))" by simp_all
  note R = handleAdminRenewCredential_correct [OF run(1) c rd, unfolded Let_def if_not_P [OF run(2)] if_P [OF ex] e]
  from R run(1) show ?thesis by blast
qed

theorem handleAdminDeleteCredential_revokes_witness:
  "\<exists>resp st' c'. handleAdminDeleteCredential quietEnv (sampleRequest ''ann'' []) ''c1''
       (authState_after sampleCrypto sampleConfig
          [Request (sampleTimes 1) (sampleReader [sampleCredential]) (keyRequest ''key1'')])
       (connOf (credDb 1700000600)) = (resp, st', c')
     \<and> db_credential (committed c') = []
     \<and> fst (authenticateAPIKey sampleCrypto (sampleTimes 2)
          \<lparr>rd_pool = True, rd_query = (\<lambda>_. Inr (committed c')), rd_now = (\<lambda>_. 1700000001)\<rparr> ''key1'' st') = None"
proof -
  let ?st = "authState_after sampleCrypto sampleConfig
          [Request (sampleTimes 1) (sampleReader [sampleCredential]) (keyRequest ''key1'')]"
  have "\<exists>st' c'. handleAdminDeleteCredential quietEnv (sampleRequest ''ann'' []) ''c1'' ?st
       (connOf (credDb 1700000600)) = ((204, ANoContent), st', c')"
    by (simp add: handleAdminDeleteCredential_def run_defs deleteCredential_def writeJSON_def Let_def del: authState_after.simps)
  then obtain st' c' where run: "handleAdminDeleteCredential quietEnv (sampleRequest ''ann'' []) ''c1'' ?st
       (connOf (credDb 1700000600)) = ((204, ANoContent), st', c')" by blast
  let ?rd = "\<lparr>rd_pool = True, rd_query = (\<lambda>_. Inr (committed c')), rd_now = (\<lambda>_. 1700000001)\<rparr>"
  have c: "cn_saved (connOf (credDb 1700000600)) = None" "connOK (connOf (credDb 1700000600))" by simp_all
  have ok: "fst (204 :: int, ANoContent) = 204" by simp
  note d = handleAdminDeleteCredential_revokes [OF run c, unfolded if_P [OF ok]]
  have "fst (authenticateAPIKey sampleCrypto (sampleTimes 2) ?rd ''key1'' st') = None"
  proof (rule ccontr)
    assume "fst (authenticateAPIKey sampleCrypto (sampleTimes 2) ?rd ''key1'' st') \<noteq> None"
    then obtain user st2 where "authenticateAPIKey sampleCrypto (sampleTimes 2) ?rd ''key1'' st' = (Some user, st2)"
      by (cases "authenticateAPIKey sampleCrypto (sampleTimes 2) ?rd ''key1'' st'") auto
    moreover have "rd_query ?rd 0 = Inr (committed c')" by simp
    ultimately have "\<exists>row \<in> set (db_credential (committed (connOf (credDb 1700000600)))).
        \<not> ownedBy ''c1'' (adminUsername (sampleRequest ''ann'' [])) row"
      using d by blast
    then show False by simp
  qed
  moreover have "db_credential (committed c') = []"
    using conjunct1 [OF conjunct2 [OF conjunct2 [OF d]]] by simp
  ultimately show ?thesis using run by blast
qed

lemma sampleSession: "getSession 2000 (cookieRequest v) [v \<mapsto> newSession [7] 1000 ''ann''] = Some (newSession [7] 1000 ''ann'')"
  by (simp add: getSession_def newSession_def sessionTTL_def)

definition mintForm :: request where
  "mintForm = (sampleRequest '''' [(''client_name'', ''phone''), (''legacy_auth'', ''1''), (''ttl'', ''1h'')])
     \<lparr>rq_cookies := [(sessionCookieName, ''v'')]\<rparr>"

definition mintServer :: "unit ManageServer" where
  "mintServer = \<lparr>ms_sessions = [''v'' \<mapsto> newSession [7] 1000 ''ann''], ms_auth = ()\<rparr>"

theorem handleMintCredential_equiv_witness:
  "\<exists>cred c' secret. sampleRun = (Some (201, ACredential cred), c')
     \<and> handleMintCredential sampleCrypto sampleConfig hours sampleMint quietEnv 2000 mintForm mintServer (connOf sampleDb)
       = (Some (createdPage ''ann'' sampleCreate secret), c') \<and> secret = ac_secret cred"
proof -
  from sampleRun_ok obtain cred c' where run: "sampleRun = (Some (201, ACredential cred), c')" by blast
  obtain resp c2 where m: "handleMintCredential sampleCrypto sampleConfig hours sampleMint quietEnv 2000 mintForm mintServer
      (connOf sampleDb) = (resp, c2)" by fastforce
  have s: "getSession 2000 mintForm (ms_sessions mintServer) = Some (newSession [7] 1000 ''ann'')"
    by (simp add: getSession_def mintForm_def mintServer_def newSession_def sessionTTL_def requestCookie_def)
  have f: "ss_Username (newSession [7] 1000 ''ann'') = adminUsername (sampleRequest ''ann'' [])"
    "FormValue mintForm ''client_name'' = cq_clientName sampleCreate" "FormValue mintForm ''ttl'' = cq_TTL sampleCreate"
    "FormValue mintForm ''legacy_auth'' = ''1'' \<longleftrightarrow> cq_legacyAuth sampleCreate"
    by (simp add: newSession_def)
      (simp_all add: mintForm_def FormValue_def formValues_def sampleRequest_def sampleCreate_def)
  from handleMintCredential_equiv [OF s f run m] run m show ?thesis by auto
qed

text \<open>Deleting another user's credential by its identifier does nothing.\<close>

theorem credentialStep_isolated_witness:
  "\<exists>c'. credentialStep mintServer quietEnv ''bob'' (connOf (credDb 1700000600)) c'
     \<and> db_credential (committed c') = [sampleCredential\<lparr>cr_expires := Some 1700000600\<rparr>]"
proof -
  obtain resp st' c' where "handleAdminDeleteCredential quietEnv (sampleRequest ''bob'' []) ''c1'' authInit
      (connOf (credDb 1700000600)) = (resp, st', c')" by (metis prod_cases3)
  from credentialStep.delete [OF this] have step:
    "credentialStep mintServer quietEnv ''bob'' (connOf (credDb 1700000600)) c'" by simp
  from credentialStep_isolated [OF step] have k: "othersKept ''bob'' (credDb 1700000600) (committed c')" by simp
  have "filter (\<lambda>row. cr_username row \<noteq> ''bob'') (db_credential (committed c')) =
      [sampleCredential\<lparr>cr_expires := Some 1700000600\<rparr>]"
    using k by (simp add: othersKept_def)
  moreover have "db_credential (committed c') = filter (\<lambda>row. cr_username row \<noteq> ''bob'') (db_credential (committed c'))"
    using \<open>handleAdminDeleteCredential _ _ _ _ _ = _\<close>
    by (auto simp: handleAdminDeleteCredential_def run_defs deleteCredential_def Let_def connOf_def committed_def
        split: if_splits)
  ultimately show ?thesis using step by metis
qed

end
