(* ===== verification/Scan.thy ===== *)
theory Scan
  imports Browse ID3 Duration
begin

text \<open>
  The library scan of \<open>internal/scanner/scanner.go\<close>: the walk of the music directory, the reading
  of one track, the writes to the database, and \<open>Run\<close>, which composes them. The walk's entries
  (\<open>filepath.WalkDir\<close>, in its order) and the files' contents are the environment's. The parse
  workers run concurrently; here the order in which their results reach the writer is an argument
  of \<open>scanBody\<close>; \<open>Scan_Pipeline\<close> shows what it can be. \<open>sqlitex\<close>'s
  \<open>ImmediateTransaction\<close> is \<open>beginTx\<close>, its end function \<open>endTx\<close>.
\<close>

section \<open>Tracks\<close>

definition supportedExts :: "(string \<times> string) list" where
  "supportedExts =
     [(''.mp3'', ''audio/mpeg''), (''.flac'', ''audio/flac''), (''.ogg'', ''audio/ogg''),
      (''.m4a'', ''audio/mp4''), (''.opus'', ''audio/opus''), (''.wma'', ''audio/x-ms-wma''),
      (''.wav'', ''audio/wav''), (''.aac'', ''audio/aac'')]"

record trackJob =
  tj_path :: string
  tj_ext :: string
  tj_contentType :: string

record trackInfo =
  ti_path :: string
  ti_ext :: string
  ti_contentType :: string
  ti_size :: int
  ti_fileMtime :: int
  ti_title :: string
  ti_artist :: string
  ti_album :: string
  ti_genre :: string
  ti_year :: int
  ti_track :: int
  ti_disc :: int
  ti_duration :: int
  ti_bitrate :: int

text \<open>
  An open file: its bytes and what \<open>Stat\<close> says. The tags \<open>dhowden/tag\<close> reads: \<open>Some None\<close> is an
  error, \<^const>\<open>None\<close> a panic.
\<close>

record openFile =
  of_bytes :: bytes
  of_size :: int
  of_mtime :: int

record foreignTags =
  fo_title :: string
  fo_artist :: string
  fo_album :: string
  fo_genre :: string
  fo_year :: int
  fo_track :: int
  fo_disc :: int

text \<open>The tags of an open file and where its audio starts.\<close>

definition readTags :: "(bytes \<Rightarrow> foreignTags option option) \<Rightarrow> string \<Rightarrow> openFile \<Rightarrow> (foreignTags \<times> int) option" where
  "readTags readFrom ext f =
     (let empty = \<lparr>fo_title = '''', fo_artist = '''', fo_album = '''', fo_genre = '''', fo_year = 0,
                    fo_track = 0, fo_disc = 0\<rparr> in
      if ext = ''.mp3'' then
        (case readID3v2 (of_bytes f) of
           None \<Rightarrow> None
         | Some (tags, ok) \<Rightarrow>
             if ok then Some (\<lparr>fo_title = id3_title tags, fo_artist = id3_artist tags, fo_album = id3_album tags,
               fo_genre = id3_genre tags, fo_year = id3_year tags, fo_track = id3_track tags,
               fo_disc = id3_disc tags\<rparr>, id3_tagSize tags)
             else Some (empty, 0))
      else
        (case readFrom (of_bytes f) of
           None \<Rightarrow> None
         | Some None \<Rightarrow> Some (empty, 0)
         | Some (Some meta) \<Rightarrow> Some (meta, 0)))"

text \<open>\<^const>\<open>None\<close> is an error; a panic of a tag reader is recovered into one.\<close>

definition readTrack ::
  "(bytes \<Rightarrow> foreignTags option option) \<Rightarrow> io_error + (int \<times> int) \<Rightarrow> string \<Rightarrow> string \<Rightarrow> string
    \<Rightarrow> openFile option \<Rightarrow> trackInfo option" where
  "readTrack readFrom ffprobe path ext contentType file =
     (case file of
        None \<Rightarrow> None
      | Some f \<Rightarrow>
          (case readTags readFrom ext f of
             None \<Rightarrow> None
           | Some (tags, audioOffset) \<Rightarrow>
               let (dur, bitrate) = parseDuration (of_bytes f) (of_size f) audioOffset ext ffprobe in
               Some \<lparr>ti_path = path, ti_ext = trimPrefix ext ''.'', ti_contentType = contentType,
                 ti_size = of_size f, ti_fileMtime = of_mtime f,
                 ti_title = (if fo_title tags = '''' then trimSuffix (pathBase path) ext else fo_title tags),
                 ti_artist = (if fo_artist tags = '''' then ''Unknown Artist'' else fo_artist tags),
                 ti_album = (if fo_album tags = '''' then pathBase (pathDir path) else fo_album tags),
                 ti_genre = fo_genre tags, ti_year = fo_year tags, ti_track = fo_track tags,
                 ti_disc = fo_disc tags, ti_duration = (if dur > 0 then dur else 0),
                 ti_bitrate = (if dur > 0 then bitrate else 0)\<rparr>))"

section \<open>The walk\<close>

text \<open>
  One call of the walk's function: the error, the kind of the entry, its \<open>Info\<close> (modification
  time and size, \<^const>\<open>None\<close> on an error) and its name.
\<close>

record walkEntry =
  we_path :: string
  we_err :: bool
  we_dir :: bool
  we_symlink :: bool
  we_info :: "(int \<times> int) option"
  we_name :: string

record walkState =
  wk_seen :: "string set"
  wk_art :: "string \<Rightarrow> string option"
  wk_jobs :: "trackJob list"
  wk_skipped :: int

definition emptyWalk :: walkState where
  "emptyWalk = \<lparr>wk_seen = {}, wk_art = Map.empty, wk_jobs = [], wk_skipped = 0\<rparr>"

definition folderArtNames :: "string list" where
  "folderArtNames = [''cover.jpg'', ''cover.png'', ''folder.jpg'', ''folder.png'', ''front.jpg'', ''front.png'']"

definition walkStep :: "(string \<Rightarrow> (int \<times> int) option) \<Rightarrow> walkEntry \<Rightarrow> walkState \<Rightarrow> walkState" where
  "walkStep known e w =
     (if we_err e then w
      else if we_dir e \<or> we_symlink e then w
      else let path = we_path e; ext = toLower (pathExt path) in
        case map_of supportedExts ext of
          Some contentType \<Rightarrow>
            (case we_info e of
               None \<Rightarrow> w
             | Some info \<Rightarrow>
                 let w = w\<lparr>wk_seen := insert path (wk_seen w)\<rparr> in
                 if known path = Some info then w\<lparr>wk_skipped := wk_skipped w + 1\<rparr>
                 else w\<lparr>wk_jobs := wk_jobs w @ [\<lparr>tj_path = path, tj_ext = ext, tj_contentType = contentType\<rparr>]\<rparr>)
        | None \<Rightarrow>
            if toLower (we_name e) \<in> set folderArtNames \<and> wk_art w (pathDir path) = None
            then w\<lparr>wk_art := (wk_art w)(pathDir path \<mapsto> path)\<rparr> else w)"

definition walk :: "(string \<Rightarrow> (int \<times> int) option) \<Rightarrow> walkEntry list \<Rightarrow> walkState" where
  "walk known es = fold (walkStep known) es emptyWalk"

section \<open>Transactions of the scanner\<close>

text \<open>
  The end function with the caller's error: nothing when the transaction is over already,
  otherwise \<open>COMMIT\<close> without and \<open>ROLLBACK\<close> with an error or after a failed commit. The result
  is the error it leaves in the caller's variable.
\<close>

definition endTx :: "env \<Rightarrow> sqlerr option \<Rightarrow> conn \<Rightarrow> sqlerr option \<times> conn" where
  "endTx env err c =
     (if cn_saved c = None then (err, c)
      else case err of
        Some e \<Rightarrow> (Some e, snd (rollbackTx env c))
      | None \<Rightarrow>
          (case commitTx env c of
             (Inr _, c) \<Rightarrow> (None, c)
           | (Inl e, c) \<Rightarrow> (Some e, snd (rollbackTx env c))))"

section \<open>Writing a batch\<close>

text \<open>The upserts return the identifier of the row.\<close>

definition upsertArtistStmt :: "string \<Rightarrow> string \<Rightarrow> string stmt" where
  "upsertArtistStmt i name = checkedRet (\<lambda>now d.
     case find (\<lambda>a. ar_name a = name) (db_artist d) of
       Some a \<Rightarrow> (d, ar_id a)
     | None \<Rightarrow> (d\<lparr>db_artist := db_artist d @ [\<lparr>ar_id = i, ar_name = name\<rparr>]\<rparr>, i))"

definition upsertArtist :: "env \<Rightarrow> string \<Rightarrow> string tx" where
  "upsertArtist env name = tx_bind (NewID env) (\<lambda>i. exec env (upsertArtistStmt i name))"

definition isAlbum :: "string \<Rightarrow> string \<Rightarrow> album_row \<Rightarrow> bool" where
  "isAlbum artistID name a \<longleftrightarrow> al_artist_id a = artistID \<and> al_name a = name"

definition upsertAlbumStmt :: "string \<Rightarrow> string \<Rightarrow> string \<Rightarrow> int \<Rightarrow> string \<Rightarrow> string stmt" where
  "upsertAlbumStmt i artistID name year genre = checkedRet (\<lambda>now d.
     case find (isAlbum artistID name) (db_album d) of
       Some a \<Rightarrow>
         (d\<lparr>db_album := map (\<lambda>b. if isAlbum artistID name b
            then b\<lparr>al_year := Some year, al_genre := Some genre\<rparr> else b) (db_album d)\<rparr>, al_id a)
     | None \<Rightarrow>
         (d\<lparr>db_album := db_album d @ [\<lparr>al_id = i, al_artist_id = artistID, al_name = name,
             al_year = Some year, al_genre = Some genre, al_cover_art = None, al_song_count = 0,
             al_duration = 0, al_created = now\<rparr>]\<rparr>, i))"

definition upsertAlbum :: "env \<Rightarrow> string \<Rightarrow> string \<Rightarrow> int \<Rightarrow> string \<Rightarrow> string tx" where
  "upsertAlbum env artistID name year genre =
     tx_bind (NewID env) (\<lambda>i. exec env (upsertAlbumStmt i artistID name year genre))"

definition updatedSong :: "trackInfo \<Rightarrow> string \<Rightarrow> string \<Rightarrow> song_row \<Rightarrow> song_row" where
  "updatedSong t artistID albumID s =
     s\<lparr>so_album_id := albumID, so_artist_id := artistID, so_title := ti_title t, so_track := Some (ti_track t),
       so_disc := Some (ti_disc t), so_year := Some (ti_year t), so_genre := Some (ti_genre t),
       so_duration := ti_duration t, so_size := ti_size t, so_suffix := ti_ext t, so_bitrate := ti_bitrate t,
       so_content_type := ti_contentType t, so_mtime := ti_fileMtime t\<rparr>"

definition insertedSong :: "int \<Rightarrow> string \<Rightarrow> stamp \<Rightarrow> trackInfo \<Rightarrow> string \<Rightarrow> string \<Rightarrow> song_row" where
  "insertedSong n i now t artistID albumID =
     \<lparr>so_rowid = n, so_id = i, so_album_id = albumID, so_artist_id = artistID, so_title = ti_title t,
      so_track = Some (ti_track t), so_disc = Some (ti_disc t), so_year = Some (ti_year t),
      so_genre = Some (ti_genre t), so_duration = ti_duration t, so_size = ti_size t, so_suffix = ti_ext t,
      so_bitrate = ti_bitrate t, so_content_type = ti_contentType t, so_path = ti_path t,
      so_mtime = ti_fileMtime t, so_created = now\<rparr>"

definition upsertSongStmt :: "string \<Rightarrow> trackInfo \<Rightarrow> string \<Rightarrow> string \<Rightarrow> unit stmt" where
  "upsertSongStmt i t artistID albumID = checked (\<lambda>now d.
     if ti_path t \<in> so_path ` set (db_song d)
     then d\<lparr>db_song := map (\<lambda>s. if so_path s = ti_path t then updatedSong t artistID albumID s else s) (db_song d)\<rparr>
     else d\<lparr>db_song := db_song d @
       [insertedSong (nextRowid (map so_rowid (db_song d))) i now t artistID albumID]\<rparr>)"

definition upsertSong :: "env \<Rightarrow> trackInfo \<Rightarrow> string \<Rightarrow> string \<Rightarrow> unit tx" where
  "upsertSong env t artistID albumID =
     tx_bind (NewID env) (\<lambda>i. exec env (upsertSongStmt i t artistID albumID))"

text \<open>The loop over a batch with its two caches of identifiers.\<close>

definition albumKey :: "trackInfo \<Rightarrow> string" where
  "albumKey t = ti_artist t @ [CHR 0x00] @ ti_album t"

fun insertTracks ::
  "env \<Rightarrow> (string \<Rightarrow> string option) \<Rightarrow> (string \<Rightarrow> string option) \<Rightarrow> trackInfo list \<Rightarrow> unit tx" where
  "insertTracks env artistIDs albumIDs [] = tx_return ()"
| "insertTracks env artistIDs albumIDs (t # ts) =
     tx_bind (case artistIDs (ti_artist t) of Some i \<Rightarrow> tx_return i | None \<Rightarrow> upsertArtist env (ti_artist t))
       (\<lambda>artistID.
     tx_bind (case albumIDs (albumKey t) of Some i \<Rightarrow> tx_return i
              | None \<Rightarrow> upsertAlbum env artistID (ti_album t) (ti_year t) (ti_genre t))
       (\<lambda>albumID.
     tx_then (upsertSong env t artistID albumID)
       (insertTracks env (artistIDs(ti_artist t \<mapsto> artistID)) (albumIDs(albumKey t \<mapsto> albumID)) ts)))"

text \<open>
  The deferred end function writes its error to a variable the function no longer returns: the
  result is that of the loop, also when the commit fails.
\<close>

definition insertBatch :: "env \<Rightarrow> trackInfo list \<Rightarrow> unit tx" where
  "insertBatch env tracks c =
     (case beginTx env c of
        (Inl e, c) \<Rightarrow> (Inl e, c)
      | (Inr _, c) \<Rightarrow>
          (case insertTracks env Map.empty Map.empty tracks c of
             (Inl e, c) \<Rightarrow> (Inl e, snd (endTx env (Some e) c))
           | (Inr _, c) \<Rightarrow> (Inr (), snd (endTx env None c))))"

text \<open>The writer: a batch whenever \<open>batchSize\<close> results have come, the rest at the end.\<close>

definition batchSize :: nat where "batchSize = 1000"

function writeResults :: "env \<Rightarrow> trackInfo list \<Rightarrow> unit tx" where
  "writeResults env results =
     (if results = [] then tx_return ()
      else tx_then (insertBatch env (take batchSize results)) (writeResults env (drop batchSize results)))"
  by pat_completeness auto
termination
  by (relation "measure (\<lambda>(env, results). length results)") (auto simp: batchSize_def)

declare writeResults.simps [simp del]

text \<open>How many results it has counted when it ends or gives up; the rest is drained uncounted.\<close>

function receivedResults :: "env \<Rightarrow> trackInfo list \<Rightarrow> conn \<Rightarrow> nat" where
  "receivedResults env results c =
     (if results = [] then 0
      else length (take batchSize results) +
        (case insertBatch env (take batchSize results) c of
           (Inl e, c) \<Rightarrow> 0
         | (Inr _, c) \<Rightarrow> receivedResults env (drop batchSize results) c))"
  by pat_completeness auto
termination
  by (relation "measure (\<lambda>(env, results, c). length results)") (auto simp: batchSize_def)

declare receivedResults.simps [simp del]

section \<open>Removing songs\<close>

definition deletePlays :: "string list \<Rightarrow> unit stmt" where
  "deletePlays ids = checked (\<lambda>now d. d\<lparr>db_play := filter (\<lambda>p. ph_song p \<notin> set ids) (db_play d)\<rparr>)"

definition deleteSongStars :: "string list \<Rightarrow> unit stmt" where
  "deleteSongStars ids = checked (\<lambda>now d.
     d\<lparr>db_star := filter (\<lambda>s. \<not> (st_item s \<in> set ids \<and> st_type s = ''song'')) (db_star d)\<rparr>)"

definition deletePlaylistSongs :: "string list \<Rightarrow> unit stmt" where
  "deletePlaylistSongs ids = checked (\<lambda>now d. d\<lparr>db_plsong := filter (\<lambda>e. ps_song e \<notin> set ids) (db_plsong d)\<rparr>)"

definition deleteSongRows :: "string list \<Rightarrow> unit stmt" where
  "deleteSongRows paths = checked (\<lambda>now d. d\<lparr>db_song := filter (\<lambda>s. so_path s \<notin> set paths) (db_song d)\<rparr>)"

definition deleteChunkBody :: "env \<Rightarrow> string list \<Rightarrow> unit tx" where
  "deleteChunkBody env chunk =
     tx_bind (exec env (selecting (\<lambda>now d. map so_id (filter (\<lambda>s. so_path s \<in> set chunk) (db_song d))))) (\<lambda>ids.
     tx_then (tx_when (ids \<noteq> [])
        (tx_then (exec env (deletePlays ids))
          (tx_then (exec env (deleteSongStars ids)) (exec env (deletePlaylistSongs ids)))))
       (exec env (deleteSongRows chunk)))"

definition deleteChunk :: "env \<Rightarrow> string list \<Rightarrow> unit tx" where
  "deleteChunk env chunk c =
     (case beginTx env c of
        (Inl e, c) \<Rightarrow> (Inl e, c)
      | (Inr _, c) \<Rightarrow>
          (case deleteChunkBody env chunk c of
             (Inl e, c) \<Rightarrow> (Inl e, snd (endTx env (Some e) c))
           | (Inr _, c) \<Rightarrow>
               (case endTx env None c of (Some e, c) \<Rightarrow> (Inl e, c) | (None, c) \<Rightarrow> (Inr (), c))))"

definition chunkSize :: nat where "chunkSize = 500"

function deleteSongs :: "env \<Rightarrow> string list \<Rightarrow> unit tx" where
  "deleteSongs env paths =
     (if paths = [] then tx_return ()
      else tx_then (deleteChunk env (take chunkSize paths)) (deleteSongs env (drop chunkSize paths)))"
  by pat_completeness auto
termination
  by (relation "measure (\<lambda>(env, paths). length paths)") (auto simp: chunkSize_def)

declare deleteSongs.simps [simp del]

section \<open>Album art\<close>

record albumInfo =
  ab_id :: string
  ab_coverArt :: string
  ab_songDir :: string

definition albumInfos :: "db \<Rightarrow> albumInfo list" where
  "albumInfos d = concat (map (\<lambda>a.
     (case map so_path (filter (\<lambda>s. so_album_id s = al_id a) (db_song d)) of
        [] \<Rightarrow> []
      | p # ps \<Rightarrow> [\<lparr>ab_id = al_id a, ab_coverArt = colText (al_cover_art a),
                    ab_songDir = pathDir (Min (set (p # ps)))\<rparr>])) (db_album d))"

definition setCover :: "string option \<Rightarrow> string \<Rightarrow> unit stmt" where
  "setCover art i = checked (\<lambda>now d.
     d\<lparr>db_album := map (\<lambda>a. if al_id a = i then a\<lparr>al_cover_art := art\<rparr> else a) (db_album d)\<rparr>)"

text \<open>\<open>onDisk\<close> is whether \<open>os.Stat\<close> finds the path; errors of the updates are ignored.\<close>

definition resolveAlbum :: "env \<Rightarrow> (string \<Rightarrow> bool) \<Rightarrow> (string \<Rightarrow> string option) \<Rightarrow> albumInfo \<Rightarrow> unit tx" where
  "resolveAlbum env onDisk folderArt a =
     (let stale = (ab_coverArt a \<noteq> '''' \<and> \<not> onDisk (ab_coverArt a)) in
      tx_then (tx_when stale (tx_ignore (exec env (setCover None (ab_id a)))))
        (case (if ab_coverArt a = '''' \<or> stale then folderArt (ab_songDir a) else None) of
           Some artPath \<Rightarrow> tx_ignore (exec env (setCover (Some artPath) (ab_id a)))
         | None \<Rightarrow> tx_return ()))"

definition resolveAlbumArt :: "env \<Rightarrow> (string \<Rightarrow> bool) \<Rightarrow> (string \<Rightarrow> string option) \<Rightarrow> unit tx" where
  "resolveAlbumArt env onDisk folderArt =
     tx_bind (exec env (selecting (\<lambda>now d. albumInfos d)))
       (tx_each (resolveAlbum env onDisk folderArt))"

section \<open>Aggregates, orphans and the index\<close>

definition albumSongsOf :: "db \<Rightarrow> string \<Rightarrow> song_row list" where
  "albumSongsOf d i = filter (\<lambda>s. so_album_id s = i) (db_song d)"

definition withStats :: "db \<Rightarrow> album_row \<Rightarrow> album_row" where
  "withStats d a =
     (let songs = albumSongsOf d (al_id a) in
      if songs = [] then a
      else a\<lparr>al_song_count := int (length songs), al_duration := sum_list (map so_duration songs)\<rparr>)"

definition updateAlbumStats :: "env \<Rightarrow> unit tx" where
  "updateAlbumStats env = exec env (checked (\<lambda>now d. d\<lparr>db_album := map (withStats d) (db_album d)\<rparr>))"

definition deleteOrphanAlbums :: "unit stmt" where
  "deleteOrphanAlbums = checked (\<lambda>now d.
     d\<lparr>db_album := filter (\<lambda>a. al_id a \<in> so_album_id ` set (db_song d)) (db_album d)\<rparr>)"

definition deleteOrphanArtists :: "unit stmt" where
  "deleteOrphanArtists = checked (\<lambda>now d.
     d\<lparr>db_artist := filter (\<lambda>a. ar_id a \<in> al_artist_id ` set (db_album d)) (db_artist d)\<rparr>)"

definition deleteOrphans :: "env \<Rightarrow> unit tx" where
  "deleteOrphans env = tx_then (exec env deleteOrphanAlbums) (exec env deleteOrphanArtists)"

text \<open>The rows the index is filled with.\<close>

definition ftsRows :: "db \<Rightarrow> fts_row list" where
  "ftsRows d = concat (map (\<lambda>s.
     (case (artistOf d (so_artist_id s), albumOf d (so_album_id s)) of
        (Some a, Some al) \<Rightarrow> [\<lparr>ft_rowid = so_rowid s, ft_title = so_title s, ft_artist_name = ar_name a,
                              ft_album_name = al_name al\<rparr>]
      | _ \<Rightarrow> [])) (db_song d))"

definition setFTS :: "(db \<Rightarrow> fts_row list option) \<Rightarrow> unit stmt" where
  "setFTS f = checked (\<lambda>now d. d\<lparr>db_fts := f d\<rparr>)"

text \<open>
  The error of the last statement is returned without passing through the variable the end
  function looks at, which therefore commits.
\<close>

definition rebuildFTS :: "env \<Rightarrow> unit tx" where
  "rebuildFTS env c =
     (case beginTx env c of
        (Inl e, c) \<Rightarrow> (Inl e, c)
      | (Inr _, c) \<Rightarrow>
          (case exec env (setFTS (\<lambda>d. None)) c of
             (Inl e, c) \<Rightarrow> (Inl e, snd (endTx env (Some e) c))
           | (Inr _, c) \<Rightarrow>
               (case exec env (setFTS (\<lambda>d. Some [])) c of
                  (Inl e, c) \<Rightarrow> (Inl e, snd (endTx env (Some e) c))
                | (Inr _, c) \<Rightarrow>
                    (case exec env (setFTS (\<lambda>d. Some (ftsRows d))) c of
                       (r, c) \<Rightarrow> (r, snd (endTx env None c))))))"

section \<open>The scan\<close>

datatype scanError =
    ScanInProgress
  | ScanNoConn
  | ScanLoad sqlerr
  | ScanInsert sqlerr
  | ScanDelete sqlerr
  | ScanStats sqlerr
  | ScanOrphans sqlerr
  | ScanFTS sqlerr
  | ScanOptimize sqlerr

text \<open>A step of the scan with the error it is reported as.\<close>

definition scanStep :: "(sqlerr \<Rightarrow> scanError) \<Rightarrow> 'a tx \<Rightarrow> ('a \<Rightarrow> conn \<Rightarrow> (scanError + 'b) \<times> conn)
    \<Rightarrow> conn \<Rightarrow> (scanError + 'b) \<times> conn" where
  "scanStep err m f c = (case m c of (Inl e, c) \<Rightarrow> (Inl (err e), c) | (Inr x, c) \<Rightarrow> f x c)"

definition knownFiles :: "db \<Rightarrow> string \<Rightarrow> (int \<times> int) option" where
  "knownFiles d p = map_option (\<lambda>s. (so_mtime s, so_size s)) (find (\<lambda>s. so_path s = p) (db_song d))"

definition gonePaths :: "db \<Rightarrow> walkState \<Rightarrow> string list" where
  "gonePaths d w = filter (\<lambda>p. p \<notin> wk_seen w) (map so_path (db_song d))"

text \<open>
  \<open>Run\<close> between its guard and its deferred calls. \<open>deliver\<close> is the pipeline: the results of the
  jobs in the order in which the writer receives them.
\<close>

definition scanBody ::
  "env \<Rightarrow> walkEntry list \<Rightarrow> (string \<Rightarrow> bool) \<Rightarrow> (trackJob list \<Rightarrow> trackInfo list) \<Rightarrow> conn
    \<Rightarrow> (scanError + unit) \<times> conn" where
  "scanBody env es onDisk deliver =
     scanStep ScanLoad (exec env (selecting (\<lambda>now d. d))) (\<lambda>d0.
       let w = walk (knownFiles d0) es; results = deliver (wk_jobs w); gone = gonePaths d0 w in
     scanStep ScanInsert (writeResults env results) (\<lambda>_.
     scanStep ScanDelete (deleteSongs env gone) (\<lambda>_ c.
     (case resolveAlbumArt env onDisk (wk_art w) c of (_, c) \<Rightarrow>
     scanStep ScanStats (updateAlbumStats env) (\<lambda>_.
     scanStep ScanOrphans (deleteOrphans env) (\<lambda>_.
     scanStep ScanFTS (rebuildFTS env) (\<lambda>_.
     scanStep ScanOptimize (exec env (selecting (\<lambda>now d. ()))) (\<lambda>_ c. (Inr (), c))))) c))))"

text \<open>The tracks it counts: the unchanged ones and those the writer received.\<close>

definition scanCount :: "env \<Rightarrow> walkEntry list \<Rightarrow> (trackJob list \<Rightarrow> trackInfo list) \<Rightarrow> conn \<Rightarrow> int" where
  "scanCount env es deliver c =
     (case exec env (selecting (\<lambda>now d. d)) c of
        (Inl e, c) \<Rightarrow> 0
      | (Inr d0, c) \<Rightarrow>
          (let w = walk (knownFiles d0) es in
           wk_skipped w + int (receivedResults env (deliver (wk_jobs w)) c)))"

record Scanner =
  sc_scanning :: bool
  sc_count :: int

text \<open>\<open>Run\<close> when nothing else runs: the guard, the body, and the flag reset at the end.\<close>

definition Run ::
  "env \<Rightarrow> walkEntry list \<Rightarrow> (string \<Rightarrow> bool) \<Rightarrow> (trackJob list \<Rightarrow> trackInfo list) \<Rightarrow> Scanner \<Rightarrow> conn
    \<Rightarrow> (scanError + unit) \<times> Scanner \<times> conn" where
  "Run env es onDisk deliver s c =
     (if sc_scanning s then (Inl ScanInProgress, s, c)
      else if \<not> ev_pool env then (Inl ScanNoConn, \<lparr>sc_scanning = False, sc_count = 0\<rparr>, c)
      else let (r, c1) = scanBody env es onDisk deliver c in
        (r, \<lparr>sc_scanning = False, sc_count = scanCount env es deliver c\<rparr>, c1))"

end
