(* ===== verification/Keeps.thy ===== *)
theory Keeps
  imports Store
begin

text \<open>
  Invariants of the tables across programs: a property of the tables that every statement of a
  program preserves holds, after the program, of what the write connection sees and of what is
  committed, wherever it failed and whatever was rolled back.
\<close>

definition holds :: "(db \<Rightarrow> bool) \<Rightarrow> conn \<Rightarrow> bool" where
  "holds K c \<longleftrightarrow> K (cn_db c) \<and> K (committed c)"

definition keeps :: "(db \<Rightarrow> bool) \<Rightarrow> 'a tx \<Rightarrow> bool" where
  "keeps K m \<longleftrightarrow> (\<forall>c. holds K c \<longrightarrow> holds K (snd (m c)))"

definition preserves :: "(db \<Rightarrow> bool) \<Rightarrow> 'a stmt \<Rightarrow> bool" where
  "preserves K s \<longleftrightarrow> (\<forall>now d d' x. s now d = Some (d', x) \<longrightarrow> K d \<longrightarrow> K d')"

lemma keepsD: "keeps K m \<Longrightarrow> m c = (r, c') \<Longrightarrow> holds K c \<Longrightarrow> holds K c'"
  unfolding keeps_def by (metis snd_conv)

lemma holds_committed: "holds K c \<Longrightarrow> K (committed c)"
  by (simp add: holds_def)

lemma connOK_holds: "connOK c = holds schemaOK c"
  by (simp add: connOK_def holds_def)

lemma holds_connOf [simp]: "holds K (connOf d) = K d"
  by (simp add: holds_def connOf_def committed_def)

lemma preserves_checked [keep_intro]: "(\<And>now d. K d \<Longrightarrow> schemaOK (f now d) \<Longrightarrow> K (f now d)) \<Longrightarrow> preserves K (checked f)"
  by (auto simp: preserves_def)

lemma preserves_checkedRet [keep_intro]:
  "(\<And>now d. K d \<Longrightarrow> schemaOK (fst (f now d)) \<Longrightarrow> K (fst (f now d))) \<Longrightarrow> preserves K (checkedRet f)"
  unfolding preserves_def checkedRet_Some by (metis fst_conv)

lemma preserves_selecting [keep_intro]: "preserves K (selecting q)"
  by (simp add: preserves_def)

lemma stmtOK_preserves: "stmtOK s = preserves schemaOK s"
  by (simp add: stmtOK_def preserves_def)

lemma holds_ticked [simp]: "holds K (ticked c) = holds K c" "holds K (c\<lparr>cn_rnd := n\<rparr>) = holds K c"
  by (simp_all add: holds_def)

lemma holds_faulted: "holds K c \<Longrightarrow> holds K (faulted f c)"
  by (simp add: holds_def faulted_def)

lemma keeps_exec [keep_intro]:
  assumes "preserves K s"
  shows "keeps K (exec env s)"
  unfolding keeps_def
proof (intro allI impI)
  fix c assume c: "holds K c"
  show "holds K (snd (exec env s c))"
  proof (cases "ev_fault env (cn_tick c) = NoFault")
    case True
    show ?thesis
    proof (cases "s (ev_now env (cn_tick c)) (cn_db c)")
      case None
      with True c show ?thesis by (simp add: exec_def)
    next
      case (Some p)
      obtain d x where p: "p = (d, x)" by fastforce
      with assms Some c have "K d" by (auto simp: preserves_def holds_def)
      with True Some p c show ?thesis
        by (simp add: exec_def holds_def committed_def split: option.splits)
    qed
  next
    case False
    with c show ?thesis by (auto simp: exec_def holds_faulted split: fault.splits)
  qed
qed

lemma keeps_begin [keep_intro]: "keeps K (beginTx env)"
  by (auto simp: keeps_def beginTx_def holds_faulted split: fault.splits option.splits)
    (auto simp: holds_def)

lemma keeps_commit [keep_intro]: "keeps K (commitTx env)"
  by (auto simp: keeps_def commitTx_def holds_faulted split: fault.splits option.splits)
    (auto simp: holds_def)

lemma keeps_rollback [keep_intro]: "keeps K (rollbackTx env)"
proof -
  have "holds K (snd (rollbackTx env c))" if "holds K c" for c
    using that rollbackTx_committed [of env c]
    by (auto simp: rollbackTx_def holds_def committed_def split: fault.splits option.splits)
      (auto simp: faulted_def committed_def)
  then show ?thesis by (simp add: keeps_def)
qed

lemma keeps_return [keep_intro]: "keeps K (tx_return x)"
  by (simp add: keeps_def tx_return_def)

lemma keeps_bind [keep_intro]: "keeps K m \<Longrightarrow> (\<And>x. keeps K (f x)) \<Longrightarrow> keeps K (tx_bind m f)"
  by (auto simp: keeps_def tx_bind_def split: prod.splits sum.splits)

lemma keeps_then [keep_intro]: "keeps K m \<Longrightarrow> keeps K n \<Longrightarrow> keeps K (tx_then m n)"
  unfolding tx_then_def by (rule keeps_bind)

lemma keeps_when [keep_intro]: "(b \<Longrightarrow> keeps K m) \<Longrightarrow> keeps K (tx_when b m)"
  by (simp add: tx_when_def keeps_return)

lemma keeps_each [keep_intro]: "(\<And>x. x \<in> set xs \<Longrightarrow> keeps K (f x)) \<Longrightarrow> keeps K (tx_each f xs)"
  by (induction xs) (auto intro: keep_intro)

lemma keeps_ignore [keep_intro]: "keeps K m \<Longrightarrow> keeps K (tx_ignore m)"
  by (simp add: keeps_def tx_ignore_def)

lemma keeps_NewID [keep_intro]: "keeps K (NewID env)"
  by (simp add: keeps_def NewID_def)

lemma keeps_clock [keep_intro]: "keeps K (clock env)"
  by (simp add: keeps_def clock_def)

text \<open>A query's result may be used: it was computed from tables with the property.\<close>

lemma keeps_select:
  assumes "\<And>now d. K d \<Longrightarrow> keeps K (f (q now d))"
  shows "keeps K (tx_bind (exec env (selecting q)) f)"
  unfolding keeps_def
proof (intro allI impI)
  fix c assume c: "holds K c"
  obtain r c1 where e: "exec env (selecting q) c = (r, c1)" by fastforce
  have c1: "holds K c1"
    by (rule keepsD [OF keeps_exec [OF preserves_selecting] e c])
  show "holds K (snd (tx_bind (exec env (selecting q)) f c))"
  proof (cases r)
    case (Inl err)
    with e c1 show ?thesis by (simp add: tx_bind_def)
  next
    case (Inr x)
    with e have "x = q (ev_now env (cn_tick c)) (cn_db c)" by auto
    with assms c have "keeps K (f x)" by (simp add: holds_def)
    with c1 have "holds K (snd (f x c1))" by (simp add: keeps_def)
    with e Inr show ?thesis by (simp add: tx_bind_def del: exec_Inr)
  qed
qed

lemma keeps_transaction [keep_intro]: "keeps K m \<Longrightarrow> keeps K (transaction env m)"
  unfolding transaction_def
proof (rule keeps_then [OF keeps_begin])
  assume m: "keeps K m"
  have "holds K (snd (case m c of (Inl e, c1) \<Rightarrow> (Inl e, snd (rollbackTx env c1))
        | (Inr x, c1) \<Rightarrow> tx_then (commitTx env) (tx_return x) c1))" if c: "holds K c" for c
  proof -
    obtain r c1 where e: "m c = (r, c1)" by fastforce
    have c1: "holds K c1" by (rule keepsD [OF m e c])
    show ?thesis
    proof (cases r)
      case (Inl err)
      with e c1 keeps_rollback [of K env] show ?thesis by (simp add: keeps_def)
    next
      case (Inr x)
      have "keeps K (tx_then (commitTx env) (tx_return x))" by (intro keep_intro)
      with e c1 Inr show ?thesis by (simp add: keeps_def)
    qed
  qed
  then show "keeps K (\<lambda>c. case m c of (Inl e, c1) \<Rightarrow> (Inl e, snd (rollbackTx env c1))
        | (Inr x, c1) \<Rightarrow> tx_then (commitTx env) (tx_return x) c1)"
    by (simp add: keeps_def)
qed

end
