(* ===== verification/Scan_Facts.thy ===== *)
theory Scan_Facts
  imports Scan Keeps Sample "HOL-Library.Multiset"
begin

text \<open>
  What a scan guarantees. Whatever fails on the way, it only takes away what belongs to files the
  walk did not see; and a scan without faults leaves exactly the library on disk, with its
  aggregates and the search index.
\<close>

section \<open>Invariants of the scanner's programs\<close>

lemma keeps_end: "keeps K (\<lambda>c. (Inr (), snd (endTx env err c)) :: (sqlerr + unit) \<times> conn)"
  unfolding keeps_def
proof (intro allI impI)
  fix c assume c: "holds K c"
  obtain r c1 where e: "commitTx env c = (r, c1)" by fastforce
  have c1: "holds K c1" by (rule keepsD [OF keeps_commit e c])
  have "holds K (snd (rollbackTx env c))" "holds K (snd (rollbackTx env c1))"
    using keeps_rollback [of K env] c c1 by (simp_all add: keeps_def)
  with c c1 e show "holds K (snd ((Inr (), snd (endTx env err c)) :: (sqlerr + unit) \<times> conn))"
    by (auto simp: endTx_def split: option.splits sum.splits)
qed

lemma holds_end [intro]: "holds K c \<Longrightarrow> holds K (snd (endTx env err c))"
  using keeps_end [of K env err] by (simp add: keeps_def)

lemma holds_endD: "holds K c \<Longrightarrow> endTx env err c = (r, c') \<Longrightarrow> holds K c'"
  using holds_end [of K c env err] by simp

lemma holds_case:
  assumes "keeps K m" "holds K c" "\<And>e c'. holds K c' \<Longrightarrow> holds K (snd (f e c'))"
    and "\<And>x c'. holds K c' \<Longrightarrow> holds K (snd (g x c'))"
  shows "holds K (snd (case m c of (Inl e, c') \<Rightarrow> f e c' | (Inr x, c') \<Rightarrow> g x c'))"
  using keepsD [OF assms(1) _ assms(2)] assms(3,4) by (auto split: prod.splits sum.splits)

lemma holds_pair:
  assumes "keeps K m" "holds K c" "\<And>c'. holds K c' \<Longrightarrow> holds K (snd (f c'))"
  shows "holds K (snd (case m c of (r, c') \<Rightarrow> f c'))"
  using keepsD [OF assms(1) _ assms(2)] assms(3) by (auto split: prod.splits)

lemma holds_result:
  assumes "keeps K m" "holds K c" "\<And>r c'. holds K c' \<Longrightarrow> holds K (f r c')"
  shows "holds K (snd (case m c of (r, c') \<Rightarrow> (r, f r c')))"
  using keepsD [OF assms(1) _ assms(2)] assms(3) by (auto split: prod.splits)

lemma keeps_insertBatch [keep_intro]:
  assumes "keeps K (insertTracks env Map.empty Map.empty ts)"
  shows "keeps K (insertBatch env ts)"
  unfolding keeps_def insertBatch_def
  by (auto intro!: holds_case keeps_begin assms)

lemma keeps_writeResults [keep_intro]:
  assumes "\<And>ts. set ts \<subseteq> set results \<Longrightarrow> keeps K (insertTracks env Map.empty Map.empty ts)"
  shows "keeps K (writeResults env results)"
  using assms
proof (induction env results rule: writeResults.induct)
  case (1 env results)
  show ?case
  proof (cases "results = []")
    case False
    then have "keeps K (writeResults env (drop batchSize results))"
      by (rule 1(1)) (use 1(2) in \<open>meson order_trans set_drop_subset\<close>)
    with False show ?thesis
      unfolding writeResults.simps [of env results]
      using 1(2) [OF set_take_subset] by (auto intro!: keep_intro)
  qed (simp add: writeResults.simps keep_intro)
qed

lemma keeps_deleteChunk [keep_intro]:
  assumes "keeps K (deleteChunkBody env chunk)"
  shows "keeps K (deleteChunk env chunk)"
  unfolding keeps_def deleteChunk_def
  by (intro allI impI holds_case keeps_begin assms) (auto split: prod.splits option.splits dest: holds_endD)

lemma keeps_deleteSongs [keep_intro]:
  assumes "\<And>ps. set ps \<subseteq> set paths \<Longrightarrow> keeps K (deleteChunkBody env ps)"
  shows "keeps K (deleteSongs env paths)"
  using assms
proof (induction env paths rule: deleteSongs.induct)
  case (1 env paths)
  show ?case
  proof (cases "paths = []")
    case False
    then have "keeps K (deleteSongs env (drop chunkSize paths))"
      by (rule 1(1)) (use 1(2) in \<open>meson order_trans set_drop_subset\<close>)
    with False show ?thesis
      unfolding deleteSongs.simps [of env paths]
      using 1(2) [OF set_take_subset] by (auto intro!: keep_intro)
  qed (simp add: deleteSongs.simps keep_intro)
qed

lemma keeps_rebuildFTS [keep_intro]:
  assumes "\<And>f. preserves K (setFTS f)"
  shows "keeps K (rebuildFTS env)"
  unfolding keeps_def rebuildFTS_def
  by (intro allI impI holds_case holds_result keeps_begin keeps_exec assms) (auto simp: holds_end)

lemma keeps_resolveAlbumArt [keep_intro]:
  assumes "\<And>art i. preserves K (setCover art i)"
  shows "keeps K (resolveAlbumArt env onDisk art)"
  unfolding resolveAlbumArt_def resolveAlbum_def Let_def
  by (auto intro!: keep_intro assms split: option.splits)

text \<open>The scan as a whole: all of it preserves what its statements preserve.\<close>

lemma scanStep_holds:
  assumes "keeps K m" "\<And>x c'. m c = (Inr x, c') \<Longrightarrow> holds K c' \<Longrightarrow> holds K (snd (f x c'))" "holds K c"
  shows "holds K (snd (scanStep err m f c))"
  using keepsD [OF assms(1) _ assms(3)] assms(2)
  by (auto simp: scanStep_def split: prod.splits sum.splits)

lemma scanBody_holds:
  assumes c: "holds K c"
    and ins: "\<And>ts. set ts \<subseteq> set (deliver (wk_jobs (walk (knownFiles (cn_db c)) es)))
        \<Longrightarrow> keeps K (insertTracks env Map.empty Map.empty ts)"
    and del: "\<And>ps. set ps \<subseteq> set (gonePaths (cn_db c) (walk (knownFiles (cn_db c)) es))
        \<Longrightarrow> keeps K (deleteChunkBody env ps)"
    and cover: "\<And>art i. preserves K (setCover art i)"
    and rest: "keeps K (updateAlbumStats env)" "keeps K (deleteOrphans env)" "\<And>f. preserves K (setFTS f)"
  shows "holds K (snd (scanBody env es onDisk deliver c))"
  unfolding scanBody_def Let_def
proof (rule scanStep_holds [OF keeps_exec [OF preserves_selecting] _ c])
  fix d0 c1 assume e: "exec env (selecting (\<lambda>now d. d)) c = (Inr d0, c1)" and c1: "holds K c1"
  then have d0: "d0 = cn_db c" by simp
  let ?w = "walk (knownFiles d0) es"
  show "holds K (snd (scanStep ScanInsert (writeResults env (deliver (wk_jobs ?w))) (\<lambda>_.
     scanStep ScanDelete (deleteSongs env (gonePaths d0 ?w)) (\<lambda>_ c.
     (case resolveAlbumArt env onDisk (wk_art ?w) c of (_, c) \<Rightarrow>
     scanStep ScanStats (updateAlbumStats env) (\<lambda>_.
     scanStep ScanOrphans (deleteOrphans env) (\<lambda>_.
     scanStep ScanFTS (rebuildFTS env) (\<lambda>_.
     scanStep ScanOptimize (exec env (selecting (\<lambda>now d. ()))) (\<lambda>_ c. (Inr (), c))))) c))) c1))"
    unfolding d0
    by (intro scanStep_holds holds_pair c1 keeps_writeResults keeps_deleteSongs ins del
        keeps_resolveAlbumArt cover rest keeps_rebuildFTS keeps_exec preserves_selecting) simp_all
qed

section \<open>Nothing of a file that was seen is lost\<close>

text \<open>
  The identifiers of songs whose files the walk did not see, and what the tables may become while
  only these go: every other song keeps its row's identity, and every annotation, play, playlist
  entry, rating and credential that is not about such a song stays, in its order.
\<close>

definition goneIds :: "db \<Rightarrow> string set \<Rightarrow> string set" where
  "goneIds d0 seen = so_id ` {s \<in> set (db_song d0). so_path s \<notin> seen}"

definition keepsRows :: "('a \<Rightarrow> bool) \<Rightarrow> 'a list \<Rightarrow> 'a list \<Rightarrow> bool" where
  "keepsRows gone xs ys \<longleftrightarrow> filter (\<lambda>x. \<not> gone x) ys = filter (\<lambda>x. \<not> gone x) xs \<and> set ys \<subseteq> set xs"

definition sameSong :: "song_row \<Rightarrow> song_row \<Rightarrow> bool" where
  "sameSong s s' \<longleftrightarrow> so_path s' = so_path s \<and> so_id s' = so_id s \<and> so_rowid s' = so_rowid s
     \<and> so_created s' = so_created s"

definition songsSafe :: "db \<Rightarrow> string set \<Rightarrow> song_row list \<Rightarrow> bool" where
  "songsSafe d0 seen songs \<longleftrightarrow>
     (\<forall>s \<in> set (db_song d0). so_path s \<in> seen \<longrightarrow> (\<exists>s' \<in> set songs. sameSong s s'))
     \<and> (\<forall>s \<in> set songs. so_path s \<notin> seen \<longrightarrow> so_id s \<in> goneIds d0 seen)"

definition librarySafe :: "db \<Rightarrow> string set \<Rightarrow> db \<Rightarrow> bool" where
  "librarySafe d0 seen d \<longleftrightarrow> songsSafe d0 seen (db_song d)
     \<and> keepsRows (\<lambda>x. st_type x = ''song'' \<and> st_item x \<in> goneIds d0 seen) (db_star d0) (db_star d)
     \<and> keepsRows (\<lambda>x. ph_song x \<in> goneIds d0 seen) (db_play d0) (db_play d)
     \<and> keepsRows (\<lambda>x. ps_song x \<in> goneIds d0 seen) (db_plsong d0) (db_plsong d)
     \<and> db_playlist d = db_playlist d0 \<and> db_rating d = db_rating d0 \<and> db_credential d = db_credential d0"

lemma keepsRows_refl [simp]: "keepsRows gone xs xs"
  by (simp add: keepsRows_def)

lemma keepsRows_filter:
  "keepsRows gone xs ys \<Longrightarrow> (\<And>y. y \<in> set ys \<Longrightarrow> \<not> P y \<Longrightarrow> gone y) \<Longrightarrow> keepsRows gone xs (filter P ys)"
proof -
  assume a: "keepsRows gone xs ys" "\<And>y. y \<in> set ys \<Longrightarrow> \<not> P y \<Longrightarrow> gone y"
  have "filter (\<lambda>x. \<not> gone x) (filter P ys) = filter (\<lambda>x. \<not> gone x) ys"
    using a(2) by (induction ys) auto
  with a(1) show ?thesis by (auto simp: keepsRows_def)
qed

lemma sameSong_refl [simp]: "sameSong s s"
  by (simp add: sameSong_def)

lemma librarySafe_refl [simp]: "librarySafe d seen d"
  by (auto simp: librarySafe_def songsSafe_def goneIds_def) (metis sameSong_refl)

lemma librarySafe_library [simp]:
  "librarySafe d0 seen (d\<lparr>db_artist := x1\<rparr>) = librarySafe d0 seen d"
  "librarySafe d0 seen (d\<lparr>db_album := x2\<rparr>) = librarySafe d0 seen d"
  "librarySafe d0 seen (d\<lparr>db_fts := x3\<rparr>) = librarySafe d0 seen d"
  by (simp_all add: librarySafe_def)

lemma songsSafe_map:
  assumes "songsSafe d0 seen songs" "\<And>s. sameSong s (f s)"
  shows "songsSafe d0 seen (map f songs)"
proof -
  have "sameSong s s' \<Longrightarrow> sameSong s (f s')" for s s'
    using assms(2) [of s'] by (simp add: sameSong_def)
  then show ?thesis
    using assms by (fastforce simp: songsSafe_def sameSong_def)
qed

lemma songsSafe_append:
  "songsSafe d0 seen songs \<Longrightarrow> so_path s \<in> seen \<Longrightarrow> songsSafe d0 seen (songs @ [s])"
  by (auto simp: songsSafe_def)

lemma librarySafe_upsert:
  assumes "librarySafe d0 seen d" "ti_path t \<in> seen"
  shows "librarySafe d0 seen (if ti_path t \<in> so_path ` set (db_song d)
     then d\<lparr>db_song := map (\<lambda>s. if so_path s = ti_path t then updatedSong t a al s else s) (db_song d)\<rparr>
     else d\<lparr>db_song := db_song d @ [insertedSong n i now t a al]\<rparr>)"
proof -
  have "sameSong s (if so_path s = ti_path t then updatedSong t a al s else s)" for s
    by (simp add: sameSong_def updatedSong_def)
  moreover have "so_path (insertedSong n i now t a al) \<in> seen" using assms(2) by (simp add: insertedSong_def)
  ultimately show ?thesis
    using assms(1) by (simp add: librarySafe_def songsSafe_map songsSafe_append)
qed

lemma preserves_upserts [keep_intro]:
  "preserves (librarySafe d0 seen) (upsertArtistStmt i name)"
  "preserves (librarySafe d0 seen) (upsertAlbumStmt i artist name year genre)"
  "ti_path t \<in> seen \<Longrightarrow> preserves (librarySafe d0 seen) (upsertSongStmt i t artistID albumID)"
  unfolding upsertArtistStmt_def upsertAlbumStmt_def upsertSongStmt_def
  by (auto intro!: keep_intro librarySafe_upsert split: option.splits)

lemma keeps_insertTracks:
  assumes "\<And>i name. preserves K (upsertArtistStmt i name)"
    and "\<And>i artist name year genre. preserves K (upsertAlbumStmt i artist name year genre)"
    and "\<And>i t artistID albumID. t \<in> set ts \<Longrightarrow> preserves K (upsertSongStmt i t artistID albumID)"
  shows "keeps K (insertTracks env A B ts)"
  using assms(3)
proof (induction ts arbitrary: A B)
  case (Cons t ts)
  then show ?case
    by (auto intro!: keep_intro assms(1,2) simp: upsertArtist_def upsertAlbum_def upsertSong_def split: option.splits)
qed (simp add: keep_intro)

lemma librarySafe_deletes [keep_intro]:
  "set ids \<subseteq> goneIds d0 seen \<Longrightarrow> preserves (librarySafe d0 seen) (deletePlays ids)"
  "set ids \<subseteq> goneIds d0 seen \<Longrightarrow> preserves (librarySafe d0 seen) (deleteSongStars ids)"
  "set ids \<subseteq> goneIds d0 seen \<Longrightarrow> preserves (librarySafe d0 seen) (deletePlaylistSongs ids)"
  "set paths \<inter> seen = {} \<Longrightarrow> preserves (librarySafe d0 seen) (deleteSongRows paths)"
proof -
  assume i: "set ids \<subseteq> goneIds d0 seen"
  show "preserves (librarySafe d0 seen) (deletePlays ids)"
    unfolding deletePlays_def using i
    by (intro preserves_checked) (auto simp: librarySafe_def intro!: keepsRows_filter)
  show "preserves (librarySafe d0 seen) (deleteSongStars ids)"
    unfolding deleteSongStars_def using i
    by (intro preserves_checked) (auto simp: librarySafe_def intro!: keepsRows_filter)
  show "preserves (librarySafe d0 seen) (deletePlaylistSongs ids)"
    unfolding deletePlaylistSongs_def using i
    by (intro preserves_checked) (auto simp: librarySafe_def intro!: keepsRows_filter)
next
  assume p: "set paths \<inter> seen = {}"
  show "preserves (librarySafe d0 seen) (deleteSongRows paths)"
    unfolding deleteSongRows_def
  proof (rule preserves_checked)
    fix now :: stamp and d assume "librarySafe d0 seen d"
    with p show "librarySafe d0 seen (d\<lparr>db_song := filter (\<lambda>s. so_path s \<notin> set paths) (db_song d)\<rparr>)"
      by (fastforce simp: librarySafe_def songsSafe_def sameSong_def)
  qed
qed

lemma keeps_deleteChunkBody:
  assumes "set ps \<inter> seen = {}"
  shows "keeps (librarySafe d0 seen) (deleteChunkBody env ps)"
  unfolding deleteChunkBody_def
proof (rule keeps_select)
  fix now :: stamp and d assume d: "librarySafe d0 seen d"
  have "set (map so_id (filter (\<lambda>s. so_path s \<in> set ps) (db_song d))) \<subseteq> goneIds d0 seen"
    using assms d by (auto simp: librarySafe_def songsSafe_def)
  then show "keeps (librarySafe d0 seen)
     (tx_then (tx_when (map so_id (filter (\<lambda>s. so_path s \<in> set ps) (db_song d)) \<noteq> [])
        (tx_then (exec env (deletePlays (map so_id (filter (\<lambda>s. so_path s \<in> set ps) (db_song d)))))
          (tx_then (exec env (deleteSongStars (map so_id (filter (\<lambda>s. so_path s \<in> set ps) (db_song d)))))
            (exec env (deletePlaylistSongs (map so_id (filter (\<lambda>s. so_path s \<in> set ps) (db_song d))))))))
       (exec env (deleteSongRows ps)))"
    using assms by (intro keep_intro)
qed

lemma preserves_rest [keep_intro]:
  "preserves (librarySafe d0 seen) (setCover art i)" "keeps (librarySafe d0 seen) (updateAlbumStats env)"
  "keeps (librarySafe d0 seen) (deleteOrphans env)" "preserves (librarySafe d0 seen) (setFTS f)"
  unfolding setCover_def updateAlbumStats_def deleteOrphans_def deleteOrphanAlbums_def deleteOrphanArtists_def setFTS_def
  by (auto intro!: keep_intro)

text \<open>The walk's jobs are of paths it has seen.\<close>

lemma walkStep_jobs: "tj_path ` set (wk_jobs w) \<subseteq> wk_seen w \<Longrightarrow> tj_path ` set (wk_jobs (walkStep known e w)) \<subseteq> wk_seen (walkStep known e w)"
  by (auto simp: walkStep_def Let_def split: option.splits)

lemma walk_jobs: "tj_path ` set (wk_jobs (walk known es)) \<subseteq> wk_seen (walk known es)"
proof -
  have "tj_path ` set (wk_jobs (fold (walkStep known) es w)) \<subseteq> wk_seen (fold (walkStep known) es w)"
    if "tj_path ` set (wk_jobs w) \<subseteq> wk_seen w" for w
    using that
  proof (induction es arbitrary: w)
    case (Cons e es)
    from Cons.IH [OF walkStep_jobs [OF Cons.prems]] show ?case by simp
  qed simp
  from this [of emptyWalk] show ?thesis by (simp add: walk_def emptyWalk_def)
qed

text \<open>What the pipeline may deliver: at most one result for each of its jobs, in any order.\<close>

definition delivers :: "(trackJob list \<Rightarrow> trackInfo list) \<Rightarrow> bool" where
  "delivers deliver \<longleftrightarrow> (\<forall>jobs. mset (map ti_path (deliver jobs)) \<subseteq># mset (map tj_path jobs))"

lemma delivers_set: "delivers deliver \<Longrightarrow> ti_path ` set (deliver jobs) \<subseteq> tj_path ` set jobs"
  unfolding delivers_def using set_mset_mono by fastforce

lemma gonePaths_unseen: "set (gonePaths d w) \<inter> wk_seen w = {}"
  by (auto simp: gonePaths_def)

lemma keeps_schema_insertTracks: "keeps schemaOK (insertTracks env A B ts)"
  by (rule keeps_insertTracks)
    (simp_all add: stmtOK_preserves [symmetric] upsertArtistStmt_def upsertAlbumStmt_def upsertSongStmt_def tx_intro)

lemma scanBody_schema:
  assumes "connOK c"
  shows "connOK (snd (scanBody env es onDisk deliver c))"
  unfolding connOK_holds
proof (rule scanBody_holds)
  show "holds schemaOK c" using assms by (simp add: connOK_holds)
qed (auto intro!: keep_intro keeps_schema_insertTracks
    simp: deleteChunkBody_def updateAlbumStats_def deleteOrphans_def stmtOK_preserves [symmetric] tx_intro
      deletePlays_def deleteSongStars_def deletePlaylistSongs_def deleteSongRows_def setCover_def setFTS_def
      deleteOrphanAlbums_def deleteOrphanArtists_def)

lemma scanBody_safe:
  assumes "delivers deliver" "cn_saved c = None"
  shows "librarySafe (committed c) (wk_seen (walk (knownFiles (committed c)) es))
    (committed (snd (scanBody env es onDisk deliver c)))"
proof -
  let ?w = "walk (knownFiles (cn_db c)) es"
  let ?K = "librarySafe (cn_db c) (wk_seen ?w)"
  have "holds ?K (snd (scanBody env es onDisk deliver c))"
  proof (rule scanBody_holds)
    show "holds ?K c" using assms(2) by (simp add: holds_def committed_closed)
  next
    fix ts assume "set ts \<subseteq> set (deliver (wk_jobs ?w))"
    then have "ti_path ` set ts \<subseteq> wk_seen ?w"
      using delivers_set [OF assms(1), of "wk_jobs ?w"] walk_jobs [of "knownFiles (cn_db c)" es] by fastforce
    then show "keeps ?K (insertTracks env Map.empty Map.empty ts)"
      by (intro keeps_insertTracks preserves_upserts) auto
  next
    fix ps assume "set ps \<subseteq> set (gonePaths (cn_db c) ?w)"
    then show "keeps ?K (deleteChunkBody env ps)"
      using gonePaths_unseen [of "cn_db c" ?w] by (intro keeps_deleteChunkBody) auto
  qed (rule preserves_rest)+
  then show ?thesis using assms(2) by (simp add: holds_def committed_closed)
qed

section \<open>Loading tracks\<close>

text \<open>A song row stores a track: its fields, and the names of its artist and its album.\<close>

definition stores :: "db \<Rightarrow> trackInfo \<Rightarrow> song_row \<Rightarrow> bool" where
  "stores d t s \<longleftrightarrow> so_path s = ti_path t \<and> updatedSong t (so_artist_id s) (so_album_id s) s = s
     \<and> (\<exists>a \<in> set (db_artist d). ar_id a = so_artist_id s \<and> ar_name a = ti_artist t)
     \<and> (\<exists>al \<in> set (db_album d). al_id al = so_album_id s \<and> al_artist_id al = so_artist_id s \<and> al_name al = ti_album t)"

definition sameAlbum :: "album_row \<Rightarrow> album_row \<Rightarrow> bool" where
  "sameAlbum a b \<longleftrightarrow> al_id b = al_id a \<and> al_artist_id b = al_artist_id a \<and> al_name b = al_name a
     \<and> al_created b = al_created a"

definition libGrows :: "db \<Rightarrow> db \<Rightarrow> bool" where
  "libGrows d d' \<longleftrightarrow> set (db_artist d) \<subseteq> set (db_artist d')
     \<and> (\<forall>a \<in> set (db_album d). \<exists>b \<in> set (db_album d'). sameAlbum a b)"

definition sameRest :: "db \<Rightarrow> db \<Rightarrow> bool" where
  "sameRest d d' \<longleftrightarrow> db_star d' = db_star d \<and> db_play d' = db_play d \<and> db_plsong d' = db_plsong d
     \<and> db_playlist d' = db_playlist d \<and> db_rating d' = db_rating d \<and> db_credential d' = db_credential d
     \<and> db_fts d' = db_fts d"

definition loaded :: "db \<Rightarrow> trackInfo list \<Rightarrow> db \<Rightarrow> bool" where
  "loaded d ts d' \<longleftrightarrow>
     (\<forall>t \<in> set ts. \<exists>s \<in> set (db_song d'). stores d' t s)
     \<and> (\<forall>s \<in> set (db_song d). so_path s \<notin> ti_path ` set ts \<longrightarrow> s \<in> set (db_song d'))
     \<and> so_path ` set (db_song d') = so_path ` set (db_song d) \<union> ti_path ` set ts
     \<and> (\<forall>s \<in> set (db_song d). \<exists>s' \<in> set (db_song d'). sameSong s s')
     \<and> libGrows d d' \<and> sameRest d d'"

lemma sameAlbum_refl [simp]: "sameAlbum a a"
  by (simp add: sameAlbum_def)

lemma sameAlbum_trans: "sameAlbum a b \<Longrightarrow> sameAlbum b c \<Longrightarrow> sameAlbum a c"
  by (simp add: sameAlbum_def)

lemma sameSong_trans: "sameSong a b \<Longrightarrow> sameSong b c \<Longrightarrow> sameSong a c"
  by (simp add: sameSong_def)

lemma libGrows_same: "db_artist d' = db_artist d \<Longrightarrow> db_album d' = db_album d \<Longrightarrow> libGrows d d'"
  by (auto simp: libGrows_def intro: bexI sameAlbum_refl)

lemma libGrows_refl [simp]: "libGrows d d"
  by (simp add: libGrows_same)

lemma libGrows_trans: "libGrows d1 d2 \<Longrightarrow> libGrows d2 d3 \<Longrightarrow> libGrows d1 d3"
  unfolding libGrows_def by (meson sameAlbum_trans subset_trans)

lemma sameRest_refl [simp]: "sameRest d d"
  by (simp add: sameRest_def)

lemma sameRest_trans: "sameRest d1 d2 \<Longrightarrow> sameRest d2 d3 \<Longrightarrow> sameRest d1 d3"
  by (simp add: sameRest_def)

lemma stores_mono: "stores d t s \<Longrightarrow> libGrows d d' \<Longrightarrow> stores d' t s"
  by (fastforce simp: stores_def libGrows_def sameAlbum_def)

lemma loaded_Nil: "db_song d' = db_song d \<Longrightarrow> libGrows d d' \<Longrightarrow> sameRest d d' \<Longrightarrow> loaded d [] d'"
  unfolding loaded_def using sameSong_refl by (metis empty_iff image_empty list.set(1) sup_bot.right_neutral)

lemma loaded_trans:
  assumes "loaded d1 ts d2" "loaded d2 us d3" "ti_path ` set ts \<inter> ti_path ` set us = {}"
  shows "loaded d1 (ts @ us) d3"
proof -
  note a = assms(1) [unfolded loaded_def] and b = assms(2) [unfolded loaded_def]
  have "\<exists>s \<in> set (db_song d3). stores d3 t s" if t: "t \<in> set ts" for t
  proof -
    from a t obtain s where s: "s \<in> set (db_song d2)" "stores d2 t s" by blast
    then have "so_path s \<notin> ti_path ` set us" using assms(3) t by (auto simp: stores_def)
    with b s show ?thesis using stores_mono by blast
  qed
  moreover have "\<exists>s' \<in> set (db_song d3). sameSong s s'" if "s \<in> set (db_song d1)" for s
    using a b that sameSong_trans by meson
  ultimately show ?thesis
    unfolding loaded_def
    using a b libGrows_trans sameRest_trans by (auto simp: image_Un)
qed

lemma upsertArtist_effect:
  assumes "upsertArtist env n c = (Inr i, c')"
  shows "(\<exists>a \<in> set (db_artist (cn_db c')). ar_id a = i \<and> ar_name a = n) \<and> schemaOK (cn_db c')
    \<and> libGrows (cn_db c) (cn_db c') \<and> sameRest (cn_db c) (cn_db c') \<and> db_song (cn_db c') = db_song (cn_db c)
    \<and> cn_saved c' = cn_saved c"
  using assms
  by (auto simp: upsertArtist_def upsertArtistStmt_def libGrows_def sameRest_def sameAlbum_def
      dest: find_SomeD split: option.splits)

lemma upsertAlbum_effect:
  assumes "upsertAlbum env a n y g c = (Inr i, c')"
  shows "(\<exists>b \<in> set (db_album (cn_db c')). al_id b = i \<and> al_artist_id b = a \<and> al_name b = n) \<and> schemaOK (cn_db c')
    \<and> libGrows (cn_db c) (cn_db c') \<and> sameRest (cn_db c) (cn_db c') \<and> db_song (cn_db c') = db_song (cn_db c)
    \<and> cn_saved c' = cn_saved c"
proof -
  obtain k now where e: "upsertAlbumStmt k a n y g now (cn_db c) = Some (cn_db c', i)" "cn_saved c' = cn_saved c"
    using assms by (auto simp: upsertAlbum_def)
  show ?thesis
  proof (cases "find (isAlbum a n) (db_album (cn_db c))")
    case None
    define b where "b = \<lparr>al_id = k, al_artist_id = a, al_name = n, al_year = Some y, al_genre = Some g,
      al_cover_art = None, al_song_count = 0, al_duration = 0, al_created = now\<rparr>"
    have d: "cn_db c' = (cn_db c)\<lparr>db_album := db_album (cn_db c) @ [b]\<rparr>" "i = al_id b" "schemaOK (cn_db c')"
      using e(1) None by (auto simp: upsertAlbumStmt_def b_def)
    have "b \<in> set (db_album (cn_db c'))" "al_artist_id b = a" "al_name b = n" using d(1) by (simp_all add: b_def)
    moreover have "libGrows (cn_db c) (cn_db c')"
      unfolding libGrows_def d(1) by simp (meson sameAlbum_refl)
    ultimately show ?thesis using d e(2) by (auto simp: sameRest_def)
  next
    case (Some b)
    let ?f = "\<lambda>b. if isAlbum a n b then b\<lparr>al_year := Some y, al_genre := Some g\<rparr> else b"
    have f: "sameAlbum b (?f b)" for b by (simp add: sameAlbum_def)
    from Some have b: "b \<in> set (db_album (cn_db c))" "isAlbum a n b" by (auto dest: find_SomeD)
    have d: "cn_db c' = (cn_db c)\<lparr>db_album := map ?f (db_album (cn_db c))\<rparr>" "i = al_id b" "schemaOK (cn_db c')"
      using e Some by (auto simp: upsertAlbumStmt_def)
    have "?f b \<in> set (db_album (cn_db c'))" using b(1) d(1) by simp
    moreover have "al_id (?f b) = i \<and> al_artist_id (?f b) = a \<and> al_name (?f b) = n"
      using b(2) d(2) by (simp add: isAlbum_def)
    moreover have "\<exists>b \<in> set (db_album (cn_db c')). sameAlbum x b" if "x \<in> set (db_album (cn_db c))" for x
      unfolding d by (rule bexI [of _ "?f x"]) (use f that in simp_all)
    then have "libGrows (cn_db c) (cn_db c')" unfolding libGrows_def d(1) by simp
    ultimately show ?thesis using d e(2) by (auto simp: sameRest_def)
  qed
qed

lemma upsertSong_effect:
  assumes "upsertSong env t a al c = (Inr (), c')"
    and "\<exists>x \<in> set (db_artist (cn_db c)). ar_id x = a \<and> ar_name x = ti_artist t"
    and "\<exists>x \<in> set (db_album (cn_db c)). al_id x = al \<and> al_artist_id x = a \<and> al_name x = ti_album t"
  shows "loaded (cn_db c) [t] (cn_db c') \<and> schemaOK (cn_db c') \<and> cn_saved c' = cn_saved c"
proof -
  let ?d = "cn_db c"
  obtain k now where e: "upsertSongStmt k t a al now ?d = Some (cn_db c', ())" "cn_saved c' = cn_saved c"
    using assms(1) by (auto simp: upsertSong_def)
  let ?f = "\<lambda>s. if so_path s = ti_path t then updatedSong t a al s else s"
  let ?new = "insertedSong (nextRowid (map so_rowid (db_song ?d))) k now t a al"
  have lib: "libGrows ?d (cn_db c')" "sameRest ?d (cn_db c')" "schemaOK (cn_db c')"
    "db_artist (cn_db c') = db_artist ?d" "db_album (cn_db c') = db_album ?d"
    using e by (auto simp: upsertSongStmt_def sameRest_def intro!: libGrows_same split: if_splits)
  have st: "stores (cn_db c') t s" if "so_path s = ti_path t" "so_artist_id s = a" "so_album_id s = al"
    "updatedSong t a al s = s" for s
    using that assms(2,3) lib(4,5) by (simp add: stores_def)
  have f: "sameSong s (?f s)" "so_path (?f s) = so_path s" for s
    by (simp_all add: sameSong_def updatedSong_def)
  show ?thesis
  proof (cases "ti_path t \<in> so_path ` set (db_song ?d)")
    case True
    then have d: "db_song (cn_db c') = map ?f (db_song ?d)" using e by (auto simp: upsertSongStmt_def)
    from True obtain s where s: "s \<in> set (db_song ?d)" "so_path s = ti_path t" by auto
    then have "updatedSong t a al s \<in> set (db_song (cn_db c'))" unfolding d by force
    moreover have "stores (cn_db c') t (updatedSong t a al s)"
      by (rule st) (simp_all add: updatedSong_def s)
    moreover have "so_path ` set (db_song (cn_db c')) = so_path ` set (db_song ?d)"
      unfolding d set_map image_image f(2) ..
    moreover have "\<exists>s' \<in> set (db_song (cn_db c')). sameSong s s'" if "s \<in> set (db_song ?d)" for s
      unfolding d by (rule bexI [of _ "?f s"]) (use f(1) that in simp_all)
    moreover have "s \<in> set (db_song (cn_db c'))" if "s \<in> set (db_song ?d)" "so_path s \<noteq> ti_path t" for s
      unfolding d using that by force
    ultimately show ?thesis
      using lib e(2) True by (auto simp: loaded_def)
  next
    case False
    then have d: "db_song (cn_db c') = db_song ?d @ [?new]" using e by (auto simp: upsertSongStmt_def)
    have "stores (cn_db c') t ?new"
      by (rule st) (simp_all add: insertedSong_def updatedSong_def)
    moreover have "so_path ?new = ti_path t" by (simp add: insertedSong_def)
    ultimately show ?thesis
      using lib e(2) d by (auto simp: loaded_def intro: bexI sameSong_refl)
  qed
qed

text \<open>
  The caches of a batch: an artist's identifier under its name, an album's under its key. A key
  determines artist and album when the artist's name has no NUL byte.
\<close>

definition nulFree :: "trackInfo \<Rightarrow> bool" where
  "nulFree t \<longleftrightarrow> CHR 0x00 \<notin> set (ti_artist t)"

definition cached :: "db \<Rightarrow> (string \<Rightarrow> string option) \<Rightarrow> (string \<Rightarrow> string option) \<Rightarrow> bool" where
  "cached d A B \<longleftrightarrow>
     (\<forall>n i. A n = Some i \<longrightarrow> (\<exists>a \<in> set (db_artist d). ar_id a = i \<and> ar_name a = n))
     \<and> (\<forall>n m k. CHR 0x00 \<notin> set n \<longrightarrow> B (n @ [CHR 0x00] @ m) = Some k \<longrightarrow>
          (\<exists>i. A n = Some i \<and> (\<exists>b \<in> set (db_album d). al_id b = k \<and> al_artist_id b = i \<and> al_name b = m)))"

lemma cached_empty [simp]: "cached d Map.empty Map.empty"
  by (simp add: cached_def)

lemma cached_mono:
  assumes "cached d A B" "libGrows d d'"
  shows "cached d' A B"
proof -
  have "\<exists>a \<in> set (db_artist d'). ar_id a = i \<and> ar_name a = n" if "A n = Some i" for n i
    using that assms unfolding cached_def libGrows_def by blast
  moreover have "\<exists>i. A n = Some i \<and> (\<exists>b \<in> set (db_album d'). al_id b = k \<and> al_artist_id b = i \<and> al_name b = m)"
    if "CHR 0x00 \<notin> set n" "B (n @ [CHR 0x00] @ m) = Some k" for n m k
  proof -
    from assms(1) that obtain i b where "A n = Some i" "b \<in> set (db_album d)" "al_id b = k" "al_artist_id b = i"
        "al_name b = m"
      unfolding cached_def by blast
    with assms(2) show ?thesis by (fastforce simp: libGrows_def sameAlbum_def)
  qed
  ultimately show ?thesis unfolding cached_def by blast
qed

lemma key_inj:
  "x \<notin> set n \<Longrightarrow> x \<notin> set n' \<Longrightarrow> n @ [x] @ m = n' @ [x] @ m' \<Longrightarrow> n = n' \<and> m = m'"
proof (induction n arbitrary: n')
  case Nil then show ?case by (cases n') auto
next
  case (Cons y n) then show ?case by (cases n') auto
qed

lemma cached_insert:
  assumes "cached d A B" "nulFree t"
    and "\<exists>a \<in> set (db_artist d). ar_id a = i \<and> ar_name a = ti_artist t"
    and "\<exists>b \<in> set (db_album d). al_id b = k \<and> al_artist_id b = i \<and> al_name b = ti_album t"
    and "A (ti_artist t) = None \<or> A (ti_artist t) = Some i"
  shows "cached d (A(ti_artist t \<mapsto> i)) (B(albumKey t \<mapsto> k))"
proof -
  have "\<exists>j. (A(ti_artist t \<mapsto> i)) n = Some j
      \<and> (\<exists>b \<in> set (db_album d). al_id b = x \<and> al_artist_id b = j \<and> al_name b = m)"
    if n: "CHR 0x00 \<notin> set n" and x: "(B(albumKey t \<mapsto> k)) (n @ [CHR 0x00] @ m) = Some x" for n m x
  proof (cases "n @ [CHR 0x00] @ m = albumKey t")
    case True
    then have "n = ti_artist t \<and> m = ti_album t"
      using n assms(2) unfolding albumKey_def nulFree_def by (rule_tac key_inj)
    with assms(4) x True show ?thesis by auto
  next
    case False
    with x have "B (n @ [CHR 0x00] @ m) = Some x" by simp
    then obtain j where "A n = Some j" "\<exists>b \<in> set (db_album d). al_id b = x \<and> al_artist_id b = j \<and> al_name b = m"
      using assms(1) n unfolding cached_def by blast
    then show ?thesis using assms(5) by (cases "n = ti_artist t") auto
  qed
  moreover have "\<exists>a \<in> set (db_artist d). ar_id a = j \<and> ar_name a = n"
    if "(A(ti_artist t \<mapsto> i)) n = Some j" for n j
    using that assms(1,3) by (cases "n = ti_artist t") (auto simp: cached_def)
  ultimately show ?thesis unfolding cached_def by blast
qed

text \<open>One track: its artist, its album, its song.\<close>

lemma artistID_effect:
  assumes "(case A (ti_artist t) of Some i \<Rightarrow> tx_return i | None \<Rightarrow> upsertArtist env (ti_artist t)) c = (Inr i, c')"
    and "cached (cn_db c) A B"
  shows "cached (cn_db c') A B" "\<exists>a \<in> set (db_artist (cn_db c')). ar_id a = i \<and> ar_name a = ti_artist t"
    "A (ti_artist t) = None \<or> A (ti_artist t) = Some i"
    "loaded (cn_db c) [] (cn_db c')" "cn_saved c' = cn_saved c"
  using assms upsertArtist_effect [of env "ti_artist t" c i c'] cached_mono [of "cn_db c" A B "cn_db c'"]
  by (auto simp: cached_def loaded_Nil split: option.splits)

lemma albumID_effect:
  assumes "(case B (albumKey t) of Some k \<Rightarrow> tx_return k
      | None \<Rightarrow> upsertAlbum env i (ti_album t) (ti_year t) (ti_genre t)) c = (Inr k, c')"
    and "cached (cn_db c) A B" "nulFree t" "A (ti_artist t) = None \<or> A (ti_artist t) = Some i"
    and "\<exists>a \<in> set (db_artist (cn_db c)). ar_id a = i \<and> ar_name a = ti_artist t"
  shows "cached (cn_db c') (A(ti_artist t \<mapsto> i)) (B(albumKey t \<mapsto> k))"
    "\<exists>a \<in> set (db_artist (cn_db c')). ar_id a = i \<and> ar_name a = ti_artist t"
    "\<exists>b \<in> set (db_album (cn_db c')). al_id b = k \<and> al_artist_id b = i \<and> al_name b = ti_album t"
    "loaded (cn_db c) [] (cn_db c')" "cn_saved c' = cn_saved c"
proof -
  have e: "(\<exists>b \<in> set (db_album (cn_db c')). al_id b = k \<and> al_artist_id b = i \<and> al_name b = ti_album t)
      \<and> libGrows (cn_db c) (cn_db c') \<and> sameRest (cn_db c) (cn_db c') \<and> db_song (cn_db c') = db_song (cn_db c)
      \<and> cn_saved c' = cn_saved c"
  proof (cases "B (albumKey t)")
    case None
    with assms(1) show ?thesis
      using upsertAlbum_effect [of env i "ti_album t" "ti_year t" "ti_genre t" c k c'] by auto
  next
    case (Some x)
    with assms(1) have c': "c' = c" "k = x" by simp_all
    from Some assms(2,3) obtain j where "A (ti_artist t) = Some j"
        "\<exists>b \<in> set (db_album (cn_db c)). al_id b = x \<and> al_artist_id b = j \<and> al_name b = ti_album t"
      unfolding cached_def nulFree_def albumKey_def by blast
    with assms(4) c' show ?thesis by auto
  qed
  show "loaded (cn_db c) [] (cn_db c')" "cn_saved c' = cn_saved c"
    "\<exists>b \<in> set (db_album (cn_db c')). al_id b = k \<and> al_artist_id b = i \<and> al_name b = ti_album t"
    using e by (auto simp: loaded_Nil)
  show a: "\<exists>a \<in> set (db_artist (cn_db c')). ar_id a = i \<and> ar_name a = ti_artist t"
    using e assms(5) by (auto simp: libGrows_def)
  show "cached (cn_db c') (A(ti_artist t \<mapsto> i)) (B(albumKey t \<mapsto> k))"
    using cached_insert [OF cached_mono [OF assms(2)] assms(3) a _ assms(4)] e by blast
qed

lemma insertTracks_effect:
  assumes "insertTracks env A B ts c = (Inr (), c')" "cached (cn_db c) A B"
    and "distinct (map ti_path ts)" "\<forall>t \<in> set ts. nulFree t"
  shows "loaded (cn_db c) ts (cn_db c') \<and> cn_saved c' = cn_saved c"
  using assms
proof (induction ts arbitrary: A B c)
  case Nil
  then show ?case by (simp add: loaded_Nil)
next
  case (Cons t ts)
  from Cons.prems(1) obtain i c1 k c2 c3 where
    a: "(case A (ti_artist t) of Some i \<Rightarrow> tx_return i | None \<Rightarrow> upsertArtist env (ti_artist t)) c = (Inr i, c1)" and
    b: "(case B (albumKey t) of Some k \<Rightarrow> tx_return k
      | None \<Rightarrow> upsertAlbum env i (ti_album t) (ti_year t) (ti_genre t)) c1 = (Inr k, c2)" and
    s: "upsertSong env t i k c2 = (Inr (), c3)" and
    r: "insertTracks env (A(ti_artist t \<mapsto> i)) (B(albumKey t \<mapsto> k)) ts c3 = (Inr (), c')"
    by auto
  note a = artistID_effect [OF a Cons.prems(2)]
  have n: "nulFree t" using Cons.prems(4) by simp
  note b = albumID_effect [OF b a(1) n a(3) a(2)]
  note s = upsertSong_effect [OF s b(2,3)]
  have l: "libGrows (cn_db c2) (cn_db c3)" using s by (simp add: loaded_def)
  have r: "loaded (cn_db c3) ts (cn_db c') \<and> cn_saved c' = cn_saved c3"
    using Cons.prems(3,4) by (intro Cons.IH [OF r cached_mono [OF b(1) l]]) simp_all
  have "loaded (cn_db c2) ([t] @ ts) (cn_db c')"
    by (rule loaded_trans [of _ _ "cn_db c3"]) (use s r Cons.prems(3) in auto)
  then have "loaded (cn_db c1) ([] @ [t] @ ts) (cn_db c')"
    by (intro loaded_trans [OF b(4)]) simp_all
  then have "loaded (cn_db c) ([] @ [] @ [t] @ ts) (cn_db c')"
    by (intro loaded_trans [OF a(4)]) simp_all
  with a(5) b(5) s r show ?case by simp
qed

section \<open>Scans without faults\<close>

definition faultless :: "env \<Rightarrow> bool" where
  "faultless env \<longleftrightarrow> (\<forall>k. ev_fault env k = NoFault)"

lemma endTx_commits:
  "faultless env \<Longrightarrow> cn_saved c = Some d \<Longrightarrow> endTx env None c = (None, (ticked c)\<lparr>cn_saved := None\<rparr>)"
  by (auto simp: endTx_def faultless_def commitTx_def)

lemma insertBatch_effect:
  assumes "insertBatch env ts c = (Inr (), c')" "faultless env"
    and "distinct (map ti_path ts)" "\<forall>t \<in> set ts. nulFree t"
  shows "loaded (cn_db c) ts (cn_db c') \<and> cn_saved c' = None"
proof -
  from assms(1) obtain c1 c2 where
    b: "beginTx env c = (Inr (), c1)" and i: "insertTracks env Map.empty Map.empty ts c1 = (Inr (), c2)" and
    c': "c' = snd (endTx env None c2)"
    unfolding insertBatch_def by (auto split: prod.splits sum.splits simp del: beginTx_Inr)
  from b have c1: "cn_saved c1 = Some (cn_db c)" "cn_db c1 = cn_db c" by simp_all
  from insertTracks_effect [OF i cached_empty assms(3,4)] c1
  have "loaded (cn_db c) ts (cn_db c2)" "cn_saved c2 = Some (cn_db c)" by simp_all
  then show ?thesis unfolding c' using endTx_commits [OF assms(2)] by simp
qed

lemma writeResults_effect:
  assumes "writeResults env results c = (Inr (), c')" "faultless env" "cn_saved c = None"
    and "distinct (map ti_path results)" "\<forall>t \<in> set results. nulFree t"
  shows "loaded (cn_db c) results (cn_db c') \<and> cn_saved c' = None"
  using assms
proof (induction env results arbitrary: c rule: writeResults.induct)
  case (1 env results)
  show ?case
  proof (cases "results = []")
    case True
    with "1.prems"(1,3) show ?thesis by (simp add: writeResults.simps loaded_Nil)
  next
    case False
    with "1.prems"(1) obtain c1 where
      b: "insertBatch env (take batchSize results) c = (Inr (), c1)" and
      w: "writeResults env (drop batchSize results) c1 = (Inr (), c')"
      by (subst (asm) writeResults.simps) auto
    have app: "results = take batchSize results @ drop batchSize results" by simp
    then have d: "distinct (map ti_path (take batchSize results) @ map ti_path (drop batchSize results))"
      using "1.prems"(4) by (metis map_append)
    have t: "loaded (cn_db c) (take batchSize results) (cn_db c1) \<and> cn_saved c1 = None"
      using d "1.prems"(2,5) by (intro insertBatch_effect [OF b]) (auto dest: in_set_takeD)
    have r: "loaded (cn_db c1) (drop batchSize results) (cn_db c') \<and> cn_saved c' = None"
      using d t "1.prems"(2,5) by (intro "1.IH" [OF False w]) (auto dest: in_set_dropD)
    have "loaded (cn_db c) (take batchSize results @ drop batchSize results) (cn_db c')"
      using t r d by (intro loaded_trans [of _ _ "cn_db c1"]) auto
    with r show ?thesis by simp
  qed
qed

text \<open>Removing the songs of some paths, with what hangs on them.\<close>

definition idsOf :: "db \<Rightarrow> string set \<Rightarrow> string set" where
  "idsOf d P = so_id ` {s \<in> set (db_song d). so_path s \<in> P}"

definition removed :: "db \<Rightarrow> string set \<Rightarrow> db" where
  "removed d P = d\<lparr>db_song := filter (\<lambda>s. so_path s \<notin> P) (db_song d),
     db_play := filter (\<lambda>p. ph_song p \<notin> idsOf d P) (db_play d),
     db_star := filter (\<lambda>s. \<not> (st_item s \<in> idsOf d P \<and> st_type s = ''song'')) (db_star d),
     db_plsong := filter (\<lambda>e. ps_song e \<notin> idsOf d P) (db_plsong d)\<rparr>"

lemma idsOf_empty [simp]: "idsOf d {} = {}"
  by (simp add: idsOf_def)

lemma removed_empty [simp]: "removed d {} = d"
  by (simp add: removed_def)

lemma idsOf_removed: "idsOf d P \<union> idsOf (removed d P) Q = idsOf d (P \<union> Q)"
  by (auto simp: idsOf_def removed_def)

lemma removed_removed: "removed (removed d P) Q = removed d (P \<union> Q)"
proof -
  obtain I J where I: "I = idsOf d P" and J: "J = idsOf (removed d P) Q" by blast
  have IJ: "idsOf d (P \<union> Q) = I \<union> J" unfolding I J idsOf_removed ..
  have imp: "(A \<longrightarrow> B) \<and> (C \<longrightarrow> B) \<longleftrightarrow> \<not> A \<and> \<not> C \<or> B" for A B C by blast
  have P: "removed d P = d\<lparr>db_song := filter (\<lambda>s. so_path s \<notin> P) (db_song d),
     db_play := filter (\<lambda>p. ph_song p \<notin> I) (db_play d),
     db_star := filter (\<lambda>s. \<not> (st_item s \<in> I \<and> st_type s = ''song'')) (db_star d),
     db_plsong := filter (\<lambda>e. ps_song e \<notin> I) (db_plsong d)\<rparr>"
    unfolding removed_def I ..
  show ?thesis
    unfolding removed_def [of "removed d P" Q] removed_def [of d "P \<union> Q"] J [symmetric] IJ unfolding P
    by (simp add: imp)
qed

lemma deleteChunkBody_effect:
  assumes "deleteChunkBody env ps c = (Inr (), c')"
  shows "cn_db c' = removed (cn_db c) (set ps) \<and> cn_saved c' = cn_saved c"
proof -
  let ?ids = "map so_id (filter (\<lambda>s. so_path s \<in> set ps) (db_song (cn_db c)))"
  have ids: "set ?ids = idsOf (cn_db c) (set ps)" by (auto simp: idsOf_def)
  from assms obtain q c1 c2 where
    q: "exec env (selecting (\<lambda>now d. map so_id (filter (\<lambda>s. so_path s \<in> set ps) (db_song d)))) c = (Inr q, c1)" and
    w: "tx_when (q \<noteq> []) (tx_then (exec env (deletePlays q))
          (tx_then (exec env (deleteSongStars q)) (exec env (deletePlaylistSongs q)))) c1 = (Inr (), c2)" and
    s: "exec env (deleteSongRows ps) c2 = (Inr (), c')"
    unfolding deleteChunkBody_def tx_bind_Inr tx_then_Inr by (auto simp del: exec_Inr tx_when_Inr)
  from q have c1: "cn_db c1 = cn_db c" "cn_saved c1 = cn_saved c" and q: "q = ?ids" by auto
  have "cn_db c2 = (cn_db c)\<lparr>db_play := filter (\<lambda>p. ph_song p \<notin> set ?ids) (db_play (cn_db c)),
     db_star := filter (\<lambda>s. \<not> (st_item s \<in> set ?ids \<and> st_type s = ''song'')) (db_star (cn_db c)),
     db_plsong := filter (\<lambda>e. ps_song e \<notin> set ?ids) (db_plsong (cn_db c))\<rparr> \<and> cn_saved c2 = cn_saved c"
  proof (cases "?ids = []")
    case True
    then have "c2 = c1" using w q by simp
    with True c1 show ?thesis by simp
  next
    case False
    with w c1 q show ?thesis
      by (auto simp: deletePlays_def deleteSongStars_def deletePlaylistSongs_def simp del: set_map set_filter)
  qed
  with s show ?thesis
    unfolding ids by (auto simp: deleteSongRows_def removed_def)
qed

lemma deleteChunk_effect:
  assumes "deleteChunk env ps c = (Inr (), c')" "faultless env"
  shows "cn_db c' = removed (cn_db c) (set ps) \<and> cn_saved c' = None"
proof -
  from assms(1) obtain c1 c2 where
    b: "beginTx env c = (Inr (), c1)" and i: "deleteChunkBody env ps c1 = (Inr (), c2)" and
    c': "c' = snd (endTx env None c2)"
    unfolding deleteChunk_def by (auto split: prod.splits sum.splits option.splits simp del: beginTx_Inr)
  from b have c1: "cn_saved c1 = Some (cn_db c)" "cn_db c1 = cn_db c" by simp_all
  with deleteChunkBody_effect [OF i] show ?thesis
    unfolding c' using endTx_commits [OF assms(2), of c2] by simp
qed

lemma deleteSongs_effect:
  assumes "deleteSongs env ps c = (Inr (), c')" "faultless env" "cn_saved c = None"
  shows "cn_db c' = removed (cn_db c) (set ps) \<and> cn_saved c' = None"
  using assms
proof (induction env ps arbitrary: c rule: deleteSongs.induct)
  case (1 env ps)
  show ?case
  proof (cases "ps = []")
    case True
    with "1.prems"(1,3) show ?thesis by (simp add: deleteSongs.simps)
  next
    case False
    with "1.prems"(1) obtain c1 where
      b: "deleteChunk env (take chunkSize ps) c = (Inr (), c1)" and
      w: "deleteSongs env (drop chunkSize ps) c1 = (Inr (), c')"
      by (subst (asm) deleteSongs.simps) auto
    note t = deleteChunk_effect [OF b "1.prems"(2)]
    have "set ps = set (take chunkSize ps) \<union> set (drop chunkSize ps)"
      by (metis append_take_drop_id set_append)
    with t "1.IH" [OF False w "1.prems"(2)] show ?thesis by (simp add: removed_removed)
  qed
qed

text \<open>The covers.\<close>

definition coverOf :: "(string \<Rightarrow> bool) \<Rightarrow> (string \<Rightarrow> string option) \<Rightarrow> string \<Rightarrow> string option \<Rightarrow> string option" where
  "coverOf onDisk art dir cover =
     (if colText cover = '''' then (if art dir = None then cover else art dir)
      else if onDisk (colText cover) then cover
      else art dir)"

definition withCover :: "(string \<Rightarrow> bool) \<Rightarrow> (string \<Rightarrow> string option) \<Rightarrow> db \<Rightarrow> album_row \<Rightarrow> album_row" where
  "withCover onDisk art d a =
     (case map so_path (albumSongsOf d (al_id a)) of
        [] \<Rightarrow> a
      | p # ps \<Rightarrow> a\<lparr>al_cover_art := coverOf onDisk art (pathDir (Min (set (p # ps)))) (al_cover_art a)\<rparr>)"

text \<open>Statements that only touch derived columns of albums never violate the schema.\<close>

definition albumUpdate :: "(album_row \<Rightarrow> album_row) \<Rightarrow> bool" where
  "albumUpdate f \<longleftrightarrow> (\<forall>a. al_id (f a) = al_id a \<and> al_artist_id (f a) = al_artist_id a \<and> al_name (f a) = al_name a)"

lemma albumUpdate_schema:
  assumes "albumUpdate f"
  shows "schemaOK (d\<lparr>db_album := map f (db_album d)\<rparr>) = schemaOK d"
proof -
  have "\<And>a. al_id (f a) = al_id a" "\<And>a. al_artist_id (f a) = al_artist_id a"
    "\<And>a. al_name (f a) = al_name a" using assms by (simp_all add: albumUpdate_def)
  then show ?thesis
    by (simp add: schemaOK_def libraryOK_def refersTo_def comp_def list_all_iff image_image)
qed

lemma execChecked:
  assumes "faultless env" "\<And>now. schemaOK (f now (cn_db c))"
  shows "exec env (checked f) c = (Inr (), (ticked c)\<lparr>cn_db := f (ev_now env (cn_tick c)) (cn_db c)\<rparr>)"
  using assms by (simp add: faultless_def)

definition coverSet :: "string option \<Rightarrow> string \<Rightarrow> db \<Rightarrow> db" where
  "coverSet x i d = d\<lparr>db_album := map (\<lambda>a. if al_id a = i then a\<lparr>al_cover_art := x\<rparr> else a) (db_album d)\<rparr>"

lemma setCover_effect:
  assumes "faultless env" "schemaOK (cn_db c)"
  shows "tx_ignore (exec env (setCover x i)) c = (Inr (), (ticked c)\<lparr>cn_db := coverSet x i (cn_db c)\<rparr>)"
    "schemaOK (coverSet x i (cn_db c))"
proof -
  have "albumUpdate (\<lambda>a. if al_id a = i then a\<lparr>al_cover_art := x\<rparr> else a)" by (simp add: albumUpdate_def)
  from albumUpdate_schema [OF this] assms(2) show s: "schemaOK (coverSet x i (cn_db c))" by (simp add: coverSet_def)
  show "tx_ignore (exec env (setCover x i)) c = (Inr (), (ticked c)\<lparr>cn_db := coverSet x i (cn_db c)\<rparr>)"
    unfolding setCover_def tx_ignore_def using assms s
    by (subst execChecked) (simp_all add: coverSet_def)
qed

lemma coverSet_twice: "coverSet y i (coverSet x i d) = coverSet y i d"
  by (simp add: coverSet_def)

definition resolvedInfo :: "(string \<Rightarrow> bool) \<Rightarrow> (string \<Rightarrow> string option) \<Rightarrow> albumInfo \<Rightarrow> db \<Rightarrow> db" where
  "resolvedInfo onDisk art i d =
     (if ab_coverArt i = '''' then (if art (ab_songDir i) = None then d else coverSet (art (ab_songDir i)) (ab_id i) d)
      else if onDisk (ab_coverArt i) then d
      else coverSet (art (ab_songDir i)) (ab_id i) d)"

lemma resolveAlbum_effect:
  assumes "faultless env" "schemaOK (cn_db c)"
  shows "\<exists>c'. resolveAlbum env onDisk art i c = (Inr (), c') \<and> cn_db c' = resolvedInfo onDisk art i (cn_db c)
    \<and> cn_saved c' = cn_saved c \<and> schemaOK (cn_db c')"
  using assms
  by (cases "art (ab_songDir i)")
    (simp_all add: resolveAlbum_def resolvedInfo_def tx_then_def tx_bind_def tx_when_def tx_return_def
      setCover_effect coverSet_twice)

lemma resolveAlbums_effect:
  assumes "faultless env" "schemaOK (cn_db c)"
  shows "\<exists>c'. tx_each (resolveAlbum env onDisk art) is c = (Inr (), c')
    \<and> cn_db c' = fold (resolvedInfo onDisk art) is (cn_db c) \<and> cn_saved c' = cn_saved c \<and> schemaOK (cn_db c')"
  using assms(2)
proof (induction "is" arbitrary: c)
  case (Cons i "is")
  from resolveAlbum_effect [OF assms(1) Cons.prems] obtain c1 where
    "resolveAlbum env onDisk art i c = (Inr (), c1)" "cn_db c1 = resolvedInfo onDisk art i (cn_db c)"
    "cn_saved c1 = cn_saved c" "schemaOK (cn_db c1)" by blast
  with Cons.IH [OF this(4)] show ?case by auto
qed simp

text \<open>The fold over the albums' infos is one map over the albums.\<close>

lemma resolvedInfo_album:
  "resolvedInfo onDisk art i d = d\<lparr>db_album := db_album (resolvedInfo onDisk art i d)\<rparr>"
  "db_album (resolvedInfo onDisk art i d) = map (\<lambda>a. if al_id a = ab_id i
     then a\<lparr>al_cover_art := (if ab_coverArt i = '''' then (if art (ab_songDir i) = None then al_cover_art a else art (ab_songDir i))
       else if onDisk (ab_coverArt i) then al_cover_art a else art (ab_songDir i))\<rparr> else a) (db_album d)"
  by (auto simp: resolvedInfo_def coverSet_def intro!: map_idI [symmetric])

definition infosOf :: "db \<Rightarrow> album_row \<Rightarrow> albumInfo list" where
  "infosOf d a = (case map so_path (filter (\<lambda>s. so_album_id s = al_id a) (db_song d)) of
     [] \<Rightarrow> []
   | p # ps \<Rightarrow> [\<lparr>ab_id = al_id a, ab_coverArt = colText (al_cover_art a), ab_songDir = pathDir (Min (set (p # ps)))\<rparr>])"

lemma albumInfos_infosOf: "albumInfos d = concat (map (infosOf d) (db_album d))"
  unfolding albumInfos_def infosOf_def [abs_def] ..

lemma infosOf_step:
  assumes "\<And>b. b \<in> set (db_album d') \<Longrightarrow> al_id b = al_id a \<Longrightarrow> b = a"
  shows "fold (resolvedInfo onDisk art) (infosOf d a) d' = d'\<lparr>db_album := map (\<lambda>b. if al_id b = al_id a
     then withCover onDisk art d b else b) (db_album d')\<rparr>"
proof (cases "map so_path (filter (\<lambda>s. so_album_id s = al_id a) (db_song d))")
  case Nil
  then have "(if al_id b = al_id a then withCover onDisk art d b else b) = b" for b
    by (simp add: withCover_def albumSongsOf_def)
  moreover have "infosOf d a = []" unfolding infosOf_def Nil by simp
  ultimately show ?thesis by simp
next
  case (Cons p ps)
  let ?i = "\<lparr>ab_id = al_id a, ab_coverArt = colText (al_cover_art a), ab_songDir = pathDir (Min (set (p # ps)))\<rparr>"
  have i: "infosOf d a = [?i]" unfolding infosOf_def Cons by simp
  have "(if al_id b = ab_id ?i
     then b\<lparr>al_cover_art := (if ab_coverArt ?i = '''' then (if art (ab_songDir ?i) = None then al_cover_art b else art (ab_songDir ?i))
       else if onDisk (ab_coverArt ?i) then al_cover_art b else art (ab_songDir ?i))\<rparr> else b)
     = (if al_id b = al_id a then withCover onDisk art d b else b)" if b: "b \<in> set (db_album d')" for b
  proof (cases "al_id b = al_id a")
    case True
    with assms b have ba: "b = a" by blast
    have "withCover onDisk art d a = a\<lparr>al_cover_art := coverOf onDisk art (pathDir (Min (set (p # ps)))) (al_cover_art a)\<rparr>"
      unfolding withCover_def albumSongsOf_def Cons by simp
    then show ?thesis unfolding ba coverOf_def by simp
  qed simp
  then have "db_album (resolvedInfo onDisk art ?i d') = map (\<lambda>b. if al_id b = al_id a
     then withCover onDisk art d b else b) (db_album d')"
    unfolding resolvedInfo_album(2) by (rule map_cong [OF refl])
  then show ?thesis unfolding i using resolvedInfo_album(1) [of onDisk art ?i d'] by simp
qed

lemma withCover_id [simp]: "al_id (withCover onDisk art d a) = al_id a"
  by (simp add: withCover_def split: list.splits)

lemma infos_fold:
  assumes "distinct (map al_id as)" "\<And>b. b \<in> set (db_album d') \<Longrightarrow> al_id b \<in> al_id ` set as \<Longrightarrow> b \<in> set as"
  shows "fold (resolvedInfo onDisk art) (concat (map (infosOf d) as)) d' = d'\<lparr>db_album := map (\<lambda>b.
     if al_id b \<in> al_id ` set as then withCover onDisk art d b else b) (db_album d')\<rparr>"
  using assms
proof (induction as arbitrary: d')
  case (Cons a as)
  have a: "b = a" if "b \<in> set (db_album d')" "al_id b = al_id a" for b
    using that Cons.prems(1) Cons.prems(2) [OF that(1)] by (auto simp: image_iff)
  let ?f = "\<lambda>b. if al_id b = al_id a then withCover onDisk art d b else b"
  have b: "b \<in> set as" if "b \<in> set (map ?f (db_album d'))" "al_id b \<in> al_id ` set as" for b
  proof -
    from that(1) obtain x where x: "x \<in> set (db_album d')" "b = ?f x" by auto
    then have "al_id x = al_id b" by simp
    with that(2) Cons.prems(1) have n: "al_id x \<noteq> al_id a" by auto
    with x have "b = x" by simp
    with that(2) x(1) n Cons.prems(2) [of x] show ?thesis by auto
  qed
  have "fold (resolvedInfo onDisk art) (concat (map (infosOf d) (a # as))) d'
    = fold (resolvedInfo onDisk art) (concat (map (infosOf d) as)) (d'\<lparr>db_album := map ?f (db_album d')\<rparr>)"
    using infosOf_step [OF a, where onDisk = onDisk and art = art and d = d] by simp
  also have "\<dots> = d'\<lparr>db_album := map (\<lambda>b. if al_id b \<in> al_id ` set as then withCover onDisk art d b else b)
      (map ?f (db_album d'))\<rparr>"
    using Cons.prems(1) b by (subst Cons.IH) auto
  also have "map (\<lambda>b. if al_id b \<in> al_id ` set as then withCover onDisk art d b else b) (map ?f (db_album d'))
      = map (\<lambda>b. if al_id b \<in> al_id ` set (a # as) then withCover onDisk art d b else b) (db_album d')"
    using Cons.prems(1) by (auto simp: image_iff)
  finally show ?case .
qed simp

lemma resolveAlbumArt_effect:
  assumes "faultless env" "schemaOK (cn_db c)"
  shows "\<exists>c'. resolveAlbumArt env onDisk art c = (Inr (), c')
    \<and> cn_db c' = (cn_db c)\<lparr>db_album := map (withCover onDisk art (cn_db c)) (db_album (cn_db c))\<rparr>
    \<and> cn_saved c' = cn_saved c \<and> schemaOK (cn_db c')"
proof -
  have d: "distinct (map al_id (db_album (cn_db c)))"
    using assms(2) by (simp add: schemaOK_def libraryOK_def)
  from resolveAlbums_effect [OF assms(1), of "(ticked c)\<lparr>cn_db := cn_db c\<rparr>" onDisk art "albumInfos (cn_db c)"] assms(2)
  obtain c' where "tx_each (resolveAlbum env onDisk art) (albumInfos (cn_db c)) ((ticked c)\<lparr>cn_db := cn_db c\<rparr>) = (Inr (), c')"
    "cn_db c' = fold (resolvedInfo onDisk art) (albumInfos (cn_db c)) (cn_db c)" "cn_saved c' = cn_saved c"
    "schemaOK (cn_db c')" by auto
  moreover have "fold (resolvedInfo onDisk art) (albumInfos (cn_db c)) (cn_db c)
      = (cn_db c)\<lparr>db_album := map (withCover onDisk art (cn_db c)) (db_album (cn_db c))\<rparr>"
    unfolding albumInfos_infosOf using d by (subst infos_fold) (auto intro!: map_cong)
  ultimately show ?thesis
    using assms(1) by (simp add: resolveAlbumArt_def tx_bind_def exec_def faultless_def selecting_def)
qed

text \<open>The tables after the last steps of a scan.\<close>

definition finished :: "(string \<Rightarrow> bool) \<Rightarrow> (string \<Rightarrow> string option) \<Rightarrow> db \<Rightarrow> db" where
  "finished onDisk art d =
     (let albums = filter (\<lambda>a. al_id a \<in> so_album_id ` set (db_song d))
            (map (\<lambda>a. withStats d (withCover onDisk art d a)) (db_album d));
          d1 = d\<lparr>db_album := albums, db_artist := filter (\<lambda>a. ar_id a \<in> al_artist_id ` set albums) (db_artist d)\<rparr>
      in d1\<lparr>db_fts := Some (ftsRows d1)\<rparr>)"

lemma withStats_id [simp]: "al_id (withStats d a) = al_id a" "al_artist_id (withStats d a) = al_artist_id a"
  "al_name (withStats d a) = al_name a" "al_cover_art (withStats d a) = al_cover_art a"
  by (simp_all add: withStats_def Let_def)

lemma withCover_artist [simp]: "al_artist_id (withCover onDisk art d a) = al_artist_id a"
  "al_name (withCover onDisk art d a) = al_name a"
  by (simp_all add: withCover_def split: list.splits)

lemma sameSongs [simp]:
  "withStats (d\<lparr>db_album := x1\<rparr>) = withStats d" "withStats (d\<lparr>db_artist := x2\<rparr>) = withStats d"
  "withStats (d\<lparr>db_fts := x3\<rparr>) = withStats d"
  "withCover onDisk art (d\<lparr>db_album := x1\<rparr>) = withCover onDisk art d"
  "withCover onDisk art (d\<lparr>db_artist := x2\<rparr>) = withCover onDisk art d"
  "withCover onDisk art (d\<lparr>db_fts := x3\<rparr>) = withCover onDisk art d"
  by (rule ext, simp add: withStats_def withCover_def albumSongsOf_def)+

lemma ftsRows_fts [simp]: "ftsRows (d\<lparr>db_fts := x\<rparr>) = ftsRows d"
proof -
  have "artistOf (d\<lparr>db_fts := x\<rparr>) = artistOf d" "albumOf (d\<lparr>db_fts := x\<rparr>) = albumOf d"
    by (rule ext, simp add: artistOf_def albumOf_def)+
  then show ?thesis by (simp add: ftsRows_def)
qed

lemma rebuildFTS_effect:
  assumes "rebuildFTS env c = (Inr (), c')" "faultless env"
  shows "cn_db c' = (cn_db c)\<lparr>db_fts := Some (ftsRows (cn_db c))\<rparr> \<and> cn_saved c' = None"
proof -
  obtain c1 where b: "beginTx env c = (Inr (), c1)"
    using assms(1) unfolding rebuildFTS_def by (auto split: prod.splits sum.splits simp del: beginTx_Inr)
  obtain c2 where d: "exec env (setFTS (\<lambda>d. None)) c1 = (Inr (), c2)"
    using assms(1) b unfolding rebuildFTS_def by (auto split: prod.splits sum.splits simp del: beginTx_Inr exec_Inr)
  obtain c3 where n: "exec env (setFTS (\<lambda>d. Some [])) c2 = (Inr (), c3)"
    using assms(1) b d unfolding rebuildFTS_def by (auto split: prod.splits sum.splits simp del: beginTx_Inr exec_Inr)
  obtain c4 where i: "exec env (setFTS (\<lambda>d. Some (ftsRows d))) c3 = (Inr (), c4)"
    and c': "c' = snd (endTx env None c4)"
    using assms(1) b d n unfolding rebuildFTS_def by (auto split: prod.splits sum.splits simp del: beginTx_Inr exec_Inr)
  from b have c1: "cn_db c1 = cn_db c" "cn_saved c1 = Some (cn_db c)" by simp_all
  with d have c2: "cn_db c2 = (cn_db c)\<lparr>db_fts := None\<rparr>" "cn_saved c2 = Some (cn_db c)" by (auto simp: setFTS_def)
  with n have c3: "cn_db c3 = (cn_db c)\<lparr>db_fts := Some []\<rparr>" "cn_saved c3 = Some (cn_db c)" by (auto simp: setFTS_def)
  with i have c4: "cn_db c4 = (cn_db c)\<lparr>db_fts := Some (ftsRows (cn_db c))\<rparr>" "cn_saved c4 = Some (cn_db c)"
    by (auto simp: setFTS_def)
  then show ?thesis unfolding c' using endTx_commits [OF assms(2), of c4] by simp
qed

lemma scanStep_Inr:
  "scanStep err m f c = (Inr x, c') \<longleftrightarrow> (\<exists>y c1. m c = (Inr y, c1) \<and> f y c1 = (Inr x, c'))"
  by (auto simp: scanStep_def split: prod.splits sum.splits)

lemma scanBody_Inr:
  assumes "scanBody env es onDisk deliver c = (Inr (), c')"
  obtains c0 c1 c2 c3 c4 c5 c6 where "c0 = (ticked c)\<lparr>cn_db := cn_db c\<rparr>"
    "writeResults env (deliver (wk_jobs (walk (knownFiles (cn_db c)) es))) c0 = (Inr (), c1)"
    "deleteSongs env (gonePaths (cn_db c) (walk (knownFiles (cn_db c)) es)) c1 = (Inr (), c2)"
    "snd (resolveAlbumArt env onDisk (wk_art (walk (knownFiles (cn_db c)) es)) c2) = c3"
    "updateAlbumStats env c3 = (Inr (), c4)" "deleteOrphans env c4 = (Inr (), c5)" "rebuildFTS env c5 = (Inr (), c6)"
    "cn_db c' = cn_db c6" "cn_saved c' = cn_saved c6"
proof -
  let ?w = "walk (knownFiles (cn_db c)) es"
  from assms obtain d0 c0 where e: "exec env (selecting (\<lambda>now d. d)) c = (Inr d0, c0)"
    and r: "scanStep ScanInsert (writeResults env (deliver (wk_jobs (walk (knownFiles d0) es)))) (\<lambda>_.
     scanStep ScanDelete (deleteSongs env (gonePaths d0 (walk (knownFiles d0) es))) (\<lambda>_ c.
     (case resolveAlbumArt env onDisk (wk_art (walk (knownFiles d0) es)) c of (_, c) \<Rightarrow>
     scanStep ScanStats (updateAlbumStats env) (\<lambda>_.
     scanStep ScanOrphans (deleteOrphans env) (\<lambda>_.
     scanStep ScanFTS (rebuildFTS env) (\<lambda>_.
     scanStep ScanOptimize (exec env (selecting (\<lambda>now d. ()))) (\<lambda>_ c. (Inr (), c))))) c))) c0 = (Inr (), c')"
    unfolding scanBody_def Let_def scanStep_Inr [of ScanLoad] by blast
  from e have d0: "d0 = cn_db c" "c0 = (ticked c)\<lparr>cn_db := cn_db c\<rparr>" by simp_all
  obtain x c2 where s1: "writeResults env (deliver (wk_jobs ?w)) c0 = (Inr (), x)"
    and s2: "deleteSongs env (gonePaths (cn_db c) ?w) x = (Inr (), c2)"
    and r: "(case resolveAlbumArt env onDisk (wk_art ?w) c2 of (_, c) \<Rightarrow>
     scanStep ScanStats (updateAlbumStats env) (\<lambda>_.
     scanStep ScanOrphans (deleteOrphans env) (\<lambda>_.
     scanStep ScanFTS (rebuildFTS env) (\<lambda>_.
     scanStep ScanOptimize (exec env (selecting (\<lambda>now d. ()))) (\<lambda>_ c. (Inr (), c))))) c) = (Inr (), c')"
    using r unfolding d0(1) scanStep_Inr [of ScanInsert] scanStep_Inr [of ScanDelete] by auto
  obtain y c3 where s3: "resolveAlbumArt env onDisk (wk_art ?w) c2 = (y, c3)" by fastforce
  have r: "scanStep ScanStats (updateAlbumStats env) (\<lambda>_.
     scanStep ScanOrphans (deleteOrphans env) (\<lambda>_.
     scanStep ScanFTS (rebuildFTS env) (\<lambda>_.
     scanStep ScanOptimize (exec env (selecting (\<lambda>now d. ()))) (\<lambda>_ c. (Inr (), c))))) c3 = (Inr (), c')"
    using r unfolding s3 by simp
  obtain c4 c5 c6 where s4: "updateAlbumStats env c3 = (Inr (), c4)" "deleteOrphans env c4 = (Inr (), c5)"
      "rebuildFTS env c5 = (Inr (), c6)"
    and r: "scanStep ScanOptimize (exec env (selecting (\<lambda>now d. ()))) (\<lambda>_ c. (Inr (), c)) c6 = (Inr (), c')"
    using r unfolding scanStep_Inr [of ScanStats] scanStep_Inr [of ScanOrphans] scanStep_Inr [of ScanFTS] by auto
  have "cn_db c' = cn_db c6" "cn_saved c' = cn_saved c6"
    using r unfolding scanStep_Inr by auto
  from d0(2) s1 s2 _ s4 this show thesis
    by (rule that) (simp add: s3)
qed

lemma schema_step:
  assumes "m c = (r, c')" "keeps schemaOK m" "connOK c"
  shows "connOK c'"
  using keepsD [OF assms(2,1)] assms(3) by (simp add: connOK_holds)

lemma keeps_schema_deleteChunkBody: "keeps schemaOK (deleteChunkBody env ps)"
  by (auto intro!: keep_intro simp: deleteChunkBody_def stmtOK_preserves [symmetric] tx_intro
      deletePlays_def deleteSongStars_def deletePlaylistSongs_def deleteSongRows_def)

lemma orphans_effect:
  assumes "deleteOrphans env c = (Inr (), c')"
  shows "cn_saved c' = cn_saved c" "cn_db c' = (cn_db c)\<lparr>
     db_album := filter (\<lambda>a. al_id a \<in> so_album_id ` set (db_song (cn_db c))) (db_album (cn_db c)),
     db_artist := filter (\<lambda>a. ar_id a \<in> al_artist_id ` set (filter (\<lambda>a. al_id a \<in> so_album_id ` set (db_song (cn_db c)))
       (db_album (cn_db c)))) (db_artist (cn_db c))\<rparr>"
  using assms by (auto simp: deleteOrphans_def deleteOrphanAlbums_def deleteOrphanArtists_def simp del: set_filter)

lemma scanBody_effect:
  assumes run: "scanBody env es onDisk deliver c = (Inr (), c')" and env: "faultless env"
    and c: "connOK c" "cn_saved c = None"
    and w: "w = walk (knownFiles (cn_db c)) es"
    and results: "distinct (map ti_path (deliver (wk_jobs w)))" "\<forall>t \<in> set (deliver (wk_jobs w)). nulFree t"
  shows "\<exists>d1. loaded (cn_db c) (deliver (wk_jobs w)) d1 \<and> schemaOK d1 \<and> cn_saved c' = None
    \<and> cn_db c' = finished onDisk (wk_art w) (removed d1 (set (gonePaths (cn_db c) w)))"
proof -
  from run obtain c0 c1 c2 c3 c4 c5 c6 where c0: "c0 = (ticked c)\<lparr>cn_db := cn_db c\<rparr>" and
    s1: "writeResults env (deliver (wk_jobs w)) c0 = (Inr (), c1)" and
    s2: "deleteSongs env (gonePaths (cn_db c) w) c1 = (Inr (), c2)" and
    s3: "snd (resolveAlbumArt env onDisk (wk_art w) c2) = c3" and
    s4: "updateAlbumStats env c3 = (Inr (), c4)" and s5: "deleteOrphans env c4 = (Inr (), c5)" and
    s6: "rebuildFTS env c5 = (Inr (), c6)" and
    c': "cn_db c' = cn_db c6" "cn_saved c' = cn_saved c6"
    unfolding w by (rule scanBody_Inr)
  have c0: "cn_db c0 = cn_db c" "cn_saved c0 = None" "connOK c0" using c c0 by (simp_all add: connOK_def committed_def)
  note e1 = writeResults_effect [OF s1 env c0(2) results, unfolded c0(1)]
  have c1: "connOK c1"
    by (rule schema_step [OF s1 keeps_writeResults [OF keeps_schema_insertTracks] c0(3)])
  note e2 = deleteSongs_effect [OF s2 env conjunct2 [OF e1]]
  have c2: "connOK c2"
    by (rule schema_step [OF s2 keeps_deleteSongs [OF keeps_schema_deleteChunkBody] c1])
  define D where "D = removed (cn_db c1) (set (gonePaths (cn_db c) w))"
  have d: "cn_db c2 = D" "cn_saved c2 = None" "schemaOK (cn_db c2)" using e2 c2 unfolding D_def by (simp_all add: connOK_def)
  from resolveAlbumArt_effect [OF env d(3), of onDisk "wk_art w"] obtain x where
    x: "resolveAlbumArt env onDisk (wk_art w) c2 = (Inr (), x)"
    "cn_db x = (cn_db c2)\<lparr>db_album := map (withCover onDisk (wk_art w) (cn_db c2)) (db_album (cn_db c2))\<rparr>"
    "cn_saved x = cn_saved c2" by blast
  have c3: "c3 = x" using s3 unfolding x(1) by simp
  have e3: "cn_db c3 = D\<lparr>db_album := map (withCover onDisk (wk_art w) D) (db_album D)\<rparr>" "cn_saved c3 = None"
    unfolding c3 x(2,3) d(1,2) by (rule refl)+
  from s4 have e4: "cn_db c4 = (cn_db c3)\<lparr>db_album := map (withStats (cn_db c3)) (db_album (cn_db c3))\<rparr>"
    "cn_saved c4 = None"
    using e3(2) by (auto simp: updateAlbumStats_def)
  then have e4: "cn_db c4 = D\<lparr>db_album := map (\<lambda>a. withStats D (withCover onDisk (wk_art w) D a)) (db_album D)\<rparr>"
    "cn_saved c4 = None" unfolding e3 by (simp_all add: comp_def)
  note e5 = orphans_effect [OF s5]
  note e6 = rebuildFTS_effect [OF s6 env]
  have "cn_db c6 = finished onDisk (wk_art w) D"
    unfolding finished_def Let_def conjunct1 [OF e6] e5(2) e4(1) by (simp del: set_filter)
  then show ?thesis
    using e1 e6 c1 unfolding c' connOK_def D_def by blast
qed

end
