(* ===== verification/Scan_Correct.thy ===== *)
theory Scan_Correct
  imports Scan_Facts
begin

text \<open>
  The theorems about \<open>Run\<close>: what it never loses, what the library is after it, what it removes,
  the aggregates and the search index it leaves, and that a second scan of the same files changes
  nothing. The first holds for every failure of the database, the others for runs without one.
\<close>

section \<open>The finished tables\<close>

lemma finished_tables [simp]:
  "db_song (finished onDisk art d) = db_song d" "db_star (finished onDisk art d) = db_star d"
  "db_play (finished onDisk art d) = db_play d" "db_plsong (finished onDisk art d) = db_plsong d"
  "db_playlist (finished onDisk art d) = db_playlist d" "db_rating (finished onDisk art d) = db_rating d"
  "db_credential (finished onDisk art d) = db_credential d"
  by (simp_all add: finished_def Let_def)

lemma finished_albums:
  "db_album (finished onDisk art d) = filter (\<lambda>a. al_id a \<in> so_album_id ` set (db_song d))
     (map (\<lambda>a. withStats d (withCover onDisk art d a)) (db_album d))"
  "db_artist (finished onDisk art d) = filter (\<lambda>a. ar_id a \<in> al_artist_id ` set (db_album (finished onDisk art d))) (db_artist d)"
  "db_fts (finished onDisk art d) = Some (ftsRows (finished onDisk art d))"
  by (simp_all add: finished_def Let_def)

lemma removed_tables [simp]:
  "db_artist (removed d P) = db_artist d" "db_album (removed d P) = db_album d"
  "db_playlist (removed d P) = db_playlist d" "db_rating (removed d P) = db_rating d"
  "db_credential (removed d P) = db_credential d"
  "db_song (removed d P) = filter (\<lambda>s. so_path s \<notin> P) (db_song d)"
  by (simp_all add: removed_def)

text \<open>A stored song keeps its artist and its album.\<close>

lemma finished_stores:
  assumes "stores d t s" "s \<in> set (db_song d)"
  shows "stores (finished onDisk art d) t s"
proof -
  from assms(1) obtain a al where a: "a \<in> set (db_artist d)" "ar_id a = so_artist_id s" "ar_name a = ti_artist t"
    and al: "al \<in> set (db_album d)" "al_id al = so_album_id s" "al_artist_id al = so_artist_id s" "al_name al = ti_album t"
    and s: "so_path s = ti_path t" "updatedSong t (so_artist_id s) (so_album_id s) s = s"
    by (auto simp: stores_def)
  let ?al = "withStats d (withCover onDisk art d al)"
  have al': "?al \<in> set (db_album (finished onDisk art d))"
    using al assms(2) by (auto simp: finished_albums)
  moreover have "al_artist_id ?al = so_artist_id s" using al by simp
  then have "ar_id a \<in> al_artist_id ` set (db_album (finished onDisk art d))"
    using al' a(2) by (metis imageI)
  then have "a \<in> set (db_artist (finished onDisk art d))"
    using a(1) by (simp add: finished_albums(2))
  ultimately show ?thesis
    unfolding stores_def using s a(2,3) al(2-4) by (metis withStats_id(1-3) withCover_artist withCover_id)
qed

lemma stores_removed [simp]: "stores (removed d P) t s = stores d t s"
  by (simp add: stores_def)

lemma finished_counts:
  assumes "a \<in> set (db_album (finished onDisk art d))"
  shows "albumSongsOf d (al_id a) \<noteq> []" "al_song_count a = int (length (albumSongsOf d (al_id a)))"
    "al_duration a = sum_list (map so_duration (albumSongsOf d (al_id a)))"
proof -
  from assms obtain b where a: "a = withStats d b" and i: "al_id a \<in> so_album_id ` set (db_song d)"
    by (auto simp: finished_albums)
  from i show ne: "albumSongsOf d (al_id a) \<noteq> []" by (auto simp: albumSongsOf_def filter_empty_conv)
  then have "albumSongsOf d (al_id b) \<noteq> []" by (simp add: a)
  then show "al_song_count a = int (length (albumSongsOf d (al_id a)))"
    "al_duration a = sum_list (map so_duration (albumSongsOf d (al_id a)))"
    unfolding a by (simp_all add: withStats_def Let_def)
qed

section \<open>Runs\<close>

lemma receivedResults_all:
  assumes "writeResults env results c = (Inr (), c')"
  shows "receivedResults env results c = length results"
  using assms
proof (induction env results c rule: receivedResults.induct)
  case (1 env results c)
  show ?case
  proof (cases "results = []")
    case False
    with "1.prems" obtain c1 where b: "insertBatch env (take batchSize results) c = (Inr (), c1)"
      and "writeResults env (drop batchSize results) c1 = (Inr (), c')"
      by (subst (asm) writeResults.simps) auto
    then have "receivedResults env (drop batchSize results) c1 = length (drop batchSize results)"
      using "1.IH" [OF False b [symmetric]] by simp
    with b False show ?thesis by (subst receivedResults.simps) simp
  qed (simp add: receivedResults.simps)
qed

lemma Run_Inr:
  assumes "Run env es onDisk deliver s c = (Inr (), s', c')"
  shows "scanBody env es onDisk deliver c = (Inr (), c')"
    "s' = \<lparr>sc_scanning = False, sc_count = wk_skipped (walk (knownFiles (cn_db c)) es)
       + int (length (deliver (wk_jobs (walk (knownFiles (cn_db c)) es))))\<rparr>"
    "\<not> sc_scanning s" "ev_pool env"
proof -
  show s: "scanBody env es onDisk deliver c = (Inr (), c')" "\<not> sc_scanning s" "ev_pool env"
    using assms by (auto simp: Run_def split: if_splits prod.splits)
  have s': "s' = \<lparr>sc_scanning = False, sc_count = scanCount env es deliver c\<rparr>"
    using assms by (auto simp: Run_def split: if_splits prod.splits)
  from s(1) obtain c0 c1 where c0: "exec env (selecting (\<lambda>now d. d)) c = (Inr (cn_db c), c0)" and
    "writeResults env (deliver (wk_jobs (walk (knownFiles (cn_db c)) es))) c0 = (Inr (), c1)"
    unfolding scanBody_def Let_def scanStep_Inr [of ScanLoad] scanStep_Inr [of ScanInsert] by fastforce
  then show "s' = \<lparr>sc_scanning = False, sc_count = wk_skipped (walk (knownFiles (cn_db c)) es)
       + int (length (deliver (wk_jobs (walk (knownFiles (cn_db c)) es))))\<rparr>"
    unfolding s' scanCount_def c0 by (simp add: Let_def receivedResults_all)
qed

section \<open>The walk in closed form\<close>

definition isTrack :: "walkEntry \<Rightarrow> bool" where
  "isTrack e \<longleftrightarrow> \<not> we_err e \<and> \<not> we_dir e \<and> \<not> we_symlink e
     \<and> map_of supportedExts (toLower (pathExt (we_path e))) \<noteq> None \<and> we_info e \<noteq> None"

definition jobOf :: "walkEntry \<Rightarrow> trackJob" where
  "jobOf e = \<lparr>tj_path = we_path e, tj_ext = toLower (pathExt (we_path e)),
     tj_contentType = the (map_of supportedExts (toLower (pathExt (we_path e))))\<rparr>"

definition isArt :: "walkEntry \<Rightarrow> bool" where
  "isArt e \<longleftrightarrow> \<not> we_err e \<and> \<not> we_dir e \<and> \<not> we_symlink e
     \<and> map_of supportedExts (toLower (pathExt (we_path e))) = None \<and> toLower (we_name e) \<in> set folderArtNames"

definition artOf :: "walkEntry list \<Rightarrow> string \<Rightarrow> string option" where
  "artOf es dir = map_option we_path (find (\<lambda>e. isArt e \<and> pathDir (we_path e) = dir) es)"

lemma walkStep_track:
  "isTrack e \<Longrightarrow> walkStep known e w = (if known (we_path e) = we_info e
     then w\<lparr>wk_seen := insert (we_path e) (wk_seen w), wk_skipped := wk_skipped w + 1\<rparr>
     else w\<lparr>wk_seen := insert (we_path e) (wk_seen w), wk_jobs := wk_jobs w @ [jobOf e]\<rparr>)"
  by (auto simp: isTrack_def walkStep_def jobOf_def Let_def)

lemma walkStep_other:
  "\<not> isTrack e \<Longrightarrow> walkStep known e w = (if isArt e \<and> wk_art w (pathDir (we_path e)) = None
     then w\<lparr>wk_art := (wk_art w)(pathDir (we_path e) \<mapsto> we_path e)\<rparr> else w)"
  by (auto simp: isTrack_def isArt_def walkStep_def Let_def split: option.splits)

lemma walk_fold:
  "fold (walkStep known) es w = w\<lparr>
     wk_seen := wk_seen w \<union> we_path ` set (filter isTrack es),
     wk_art := (\<lambda>dir. if wk_art w dir = None then artOf es dir else wk_art w dir),
     wk_jobs := wk_jobs w @ map jobOf (filter (\<lambda>e. isTrack e \<and> known (we_path e) \<noteq> we_info e) es),
     wk_skipped := wk_skipped w + int (length (filter (\<lambda>e. isTrack e \<and> known (we_path e) = we_info e) es))\<rparr>"
proof (induction es arbitrary: w)
  case Nil
  show ?case by (cases w) (auto simp: artOf_def)
next
  case (Cons e es)
  have art: "artOf (e # es) dir = (if isArt e \<and> pathDir (we_path e) = dir then Some (we_path e) else artOf es dir)" for dir
    by (simp add: artOf_def)
  have excl: "isTrack e \<Longrightarrow> \<not> isArt e" by (auto simp: isTrack_def isArt_def)
  show ?case
  proof (cases "isTrack e")
    case True
    then show ?thesis
      by (intro walkState.equality) (auto simp: Cons.IH walkStep_track art excl)
  next
    case False
    then show ?thesis
      by (intro walkState.equality) (auto simp: Cons.IH walkStep_other art fun_eq_iff)
  qed
qed

lemma walk_closed:
  "wk_seen (walk known es) = we_path ` set (filter isTrack es)"
  "wk_art (walk known es) = artOf es"
  "wk_jobs (walk known es) = map jobOf (filter (\<lambda>e. isTrack e \<and> known (we_path e) \<noteq> we_info e) es)"
  "wk_skipped (walk known es) = int (length (filter (\<lambda>e. isTrack e \<and> known (we_path e) = we_info e) es))"
  by (simp_all add: walk_def walk_fold emptyWalk_def)

lemma jobOf_path [simp]: "tj_path (jobOf e) = we_path e"
  by (simp add: jobOf_def)

lemma walk_jobs_distinct: "distinct (map we_path es) \<Longrightarrow> distinct (map tj_path (wk_jobs (walk known es)))"
  by (simp add: walk_closed comp_def distinct_map_filter)

lemma walk_jobs_seen: "tj_path ` set (wk_jobs (walk known es)) \<subseteq> wk_seen (walk known es)"
  by (auto simp: walk_closed)

text \<open>What the pipeline delivers: at most one result for each job.\<close>

lemma delivers_paths:
  assumes "delivers deliver"
  shows "ti_path ` set (deliver jobs) \<subseteq> tj_path ` set jobs"
    "distinct (map tj_path jobs) \<Longrightarrow> distinct (map ti_path (deliver jobs))"
proof -
  have m: "mset (map ti_path (deliver jobs)) \<subseteq># mset (map tj_path jobs)"
    using assms by (simp add: delivers_def)
  from set_mset_mono [OF m] show "ti_path ` set (deliver jobs) \<subseteq> tj_path ` set jobs" by simp
  obtain zs where "mset (map tj_path jobs) = mset (map ti_path (deliver jobs) @ zs)"
    using m by (metis ex_mset mset_append subset_mset.le_iff_add)
  then show "distinct (map ti_path (deliver jobs))" if "distinct (map tj_path jobs)"
    using that mset_eq_imp_distinct_iff distinct_append by blast
qed




section \<open>Successful runs\<close>

lemma Run_loaded:
  assumes "Run env es onDisk deliver s c = (Inr (), s', c')" "faultless env" "connOK c" "cn_saved c = None"
    and "delivers deliver" "distinct (map we_path es)" "\<forall>t \<in> set (deliver (wk_jobs w)). nulFree t"
    and "w = walk (knownFiles (cn_db c)) es"
  obtains d1 where "loaded (cn_db c) (deliver (wk_jobs w)) d1" "schemaOK d1" "cn_saved c' = None"
    "cn_db c' = finished onDisk (wk_art w) (removed d1 (set (gonePaths (cn_db c) w)))"
    "ti_path ` set (deliver (wk_jobs w)) \<subseteq> wk_seen w"
proof -
  have "distinct (map ti_path (deliver (wk_jobs w)))"
    using delivers_paths(2) [OF assms(5)] walk_jobs_distinct [OF assms(6)] assms(8) by simp
  moreover have "ti_path ` set (deliver (wk_jobs w)) \<subseteq> wk_seen w"
    using delivers_paths(1) [OF assms(5), of "wk_jobs w"] walk_jobs_seen assms(8) by blast
  ultimately show thesis
    using that scanBody_effect [OF Run_Inr(1) [OF assms(1)] assms(2-4,8) _ assms(7)] by blast
qed

lemma goneIds_loaded:
  assumes "loaded d ts d1" "schemaOK d1" "ti_path ` set ts \<subseteq> wk_seen w"
  shows "idsOf d1 (set (gonePaths d w)) = goneIds d (wk_seen w)"
proof -
  have same: "s = s'" if "s \<in> set (db_song d1)" "s' \<in> set (db_song d1)" "so_path s = so_path s'" for s s'
  proof -
    have "distinct (map so_path (db_song d1))" using assms(2) unfolding schemaOK_def libraryOK_def by blast
    then show ?thesis using that by (auto simp: distinct_map dest: inj_onD)
  qed
  have old: "s \<in> set (db_song d)" if s: "s \<in> set (db_song d1)" and g: "so_path s \<in> set (gonePaths d w)" for s
  proof -
    from g have "so_path s \<in> so_path ` set (db_song d)" and n: "so_path s \<notin> wk_seen w"
      by (simp_all add: gonePaths_def)
    then obtain s0 where s0: "s0 \<in> set (db_song d)" "so_path s0 = so_path s" by (metis imageE)
    with n assms(1,3) have "s0 \<in> set (db_song d1)" unfolding loaded_def by fastforce
    with same [OF s this] s0 show ?thesis by simp
  qed
  have keep: "s \<in> set (db_song d1)" if "s \<in> set (db_song d)" "so_path s \<notin> wk_seen w" for s
    using assms(1,3) that unfolding loaded_def by blast
  have "{s \<in> set (db_song d1). so_path s \<in> set (gonePaths d w)} = {s \<in> set (db_song d). so_path s \<notin> wk_seen w}"
  proof (intro set_eqI iffI)
    fix s assume s: "s \<in> {s \<in> set (db_song d1). so_path s \<in> set (gonePaths d w)}"
    then show "s \<in> {s \<in> set (db_song d). so_path s \<notin> wk_seen w}"
      using old [of s] by (auto simp: gonePaths_def)
  next
    fix s assume s: "s \<in> {s \<in> set (db_song d). so_path s \<notin> wk_seen w}"
    then show "s \<in> {s \<in> set (db_song d1). so_path s \<in> set (gonePaths d w)}"
      using keep [of s] by (auto simp: gonePaths_def)
  qed
  then show ?thesis unfolding idsOf_def goneIds_def by (rule arg_cong)
qed

lemma Run_safe_facts:
  assumes "delivers deliver" "cn_saved c = None"
    and "Run env es onDisk deliver s c = (r, s', c')"
  shows "librarySafe (committed c) (wk_seen (walk (knownFiles (committed c)) es)) (committed c')"
    and "connOK c \<Longrightarrow> connOK c'"
    and "sc_scanning s' = (sc_scanning s \<and> r = Inl ScanInProgress)"
proof -
  have c': "c' = c \<or> c' = snd (scanBody env es onDisk deliver c)"
    using assms(3) by (auto simp: Run_def Let_def split: if_splits prod.splits)
  with scanBody_safe [OF assms(1,2)]
  show "librarySafe (committed c) (wk_seen (walk (knownFiles (committed c)) es)) (committed c')" by auto
  show "connOK c'" if "connOK c" using c' that scanBody_schema by auto
  show "sc_scanning s' = (sc_scanning s \<and> r = Inl ScanInProgress)"
    using assms(3) by (auto simp: Run_def Let_def split: if_splits prod.splits)
qed

text \<open>
  Claim C7. Whatever statement of a scan fails, and however the scan ends: the schema still holds;
  every song whose file the walk saw keeps its identifier, its row number and its creation time;
  and only stars, plays and playlist entries of songs whose files it did not see are gone. No
  playlist, rating or credential changes. A scan that ran resets its flag.
\<close>

theorem Run_safe:
  assumes "delivers deliver" "cn_saved c = None"
    and "Run env es onDisk deliver s c = (r, s', c')"
  shows "librarySafe (committed c) (wk_seen (walk (knownFiles (committed c)) es)) (committed c')
    \<and> (connOK c \<longrightarrow> connOK c')
    \<and> sc_scanning s' = (sc_scanning s \<and> r = Inl ScanInProgress)"
  using Run_safe_facts [OF assms] by blast

lemma Run_songs:
  assumes "Run env es onDisk deliver s c = (Inr (), s', c')" "faultless env" "connOK c" "cn_saved c = None"
    and "delivers deliver" "distinct (map we_path es)" "\<forall>t \<in> set (deliver (wk_jobs w)). nulFree t"
    and "w = walk (knownFiles (cn_db c)) es"
  shows "so_path ` set (db_song (cn_db c')) =
      {p \<in> so_path ` set (db_song (cn_db c)). p \<in> wk_seen w} \<union> ti_path ` set (deliver (wk_jobs w))"
    and "\<forall>t \<in> set (deliver (wk_jobs w)). \<exists>x \<in> set (db_song (cn_db c')). stores (cn_db c') t x"
    and "\<forall>x \<in> set (db_song (cn_db c)). so_path x \<in> wk_seen w - ti_path ` set (deliver (wk_jobs w))
      \<longrightarrow> x \<in> set (db_song (cn_db c'))"
    and "s' = \<lparr>sc_scanning = False, sc_count = wk_skipped w + int (length (deliver (wk_jobs w)))\<rparr>"
proof -
  let ?results = "deliver (wk_jobs w)"
  obtain d1 where d1: "loaded (cn_db c) ?results d1"
    "cn_db c' = finished onDisk (wk_art w) (removed d1 (set (gonePaths (cn_db c) w)))"
    "ti_path ` set ?results \<subseteq> wk_seen w" using Run_loaded [OF assms] .
  let ?gone = "set (gonePaths (cn_db c) w)"
  have songs: "db_song (cn_db c') = filter (\<lambda>s. so_path s \<notin> ?gone) (db_song d1)" unfolding d1(2) by simp
  have paths: "so_path ` set (db_song d1) = so_path ` set (db_song (cn_db c)) \<union> ti_path ` set ?results"
    using d1(1) by (simp add: loaded_def)
  have gone: "?gone = {p \<in> so_path ` set (db_song (cn_db c)). p \<notin> wk_seen w}" by (auto simp: gonePaths_def)
  have "so_path ` set (db_song (cn_db c')) = so_path ` set (db_song d1) - ?gone" unfolding songs by auto
  then show "so_path ` set (db_song (cn_db c')) =
      {p \<in> so_path ` set (db_song (cn_db c)). p \<in> wk_seen w} \<union> ti_path ` set ?results"
    unfolding paths gone using d1(3) by blast
  show "\<forall>t \<in> set ?results. \<exists>x \<in> set (db_song (cn_db c')). stores (cn_db c') t x"
  proof
    fix t assume t: "t \<in> set ?results"
    with d1(1) obtain x where x: "x \<in> set (db_song d1)" "stores d1 t x" unfolding loaded_def by blast
    then have "so_path x \<in> wk_seen w" using t d1(3) by (auto simp: stores_def)
    with x have x': "x \<in> set (db_song (removed d1 ?gone))" by (auto simp: gonePaths_def)
    with x(2) show "\<exists>x \<in> set (db_song (cn_db c')). stores (cn_db c') t x"
      unfolding d1(2) by (intro bexI [of _ x]) (simp_all add: finished_stores)
  qed
  show "\<forall>x \<in> set (db_song (cn_db c)). so_path x \<in> wk_seen w - ti_path ` set ?results
      \<longrightarrow> x \<in> set (db_song (cn_db c'))"
    using d1(1) unfolding songs gone loaded_def by auto
  show "s' = \<lparr>sc_scanning = False, sc_count = wk_skipped w + int (length ?results)\<rparr>"
    using Run_Inr(2) [OF assms(1)] assms(8) by simp
qed

text \<open>
  Claim C6. After a scan without faults the songs are those of the files the walk saw that were
  known or could be read: every result is stored with its tags, its artist and its album; a song
  whose file did not change, or could not be read, keeps its row; and the counter is the number
  of unchanged and of read files.
\<close>

theorem Run_library:
  assumes "Run env es onDisk deliver s c = (Inr (), s', c')" "faultless env" "connOK c" "cn_saved c = None"
    and "delivers deliver" "distinct (map we_path es)" "\<forall>t \<in> set (deliver (wk_jobs w)). nulFree t"
    and "w = walk (knownFiles (cn_db c)) es"
  shows "so_path ` set (db_song (cn_db c')) =
      {p \<in> so_path ` set (db_song (cn_db c)). p \<in> wk_seen w} \<union> ti_path ` set (deliver (wk_jobs w))
    \<and> (\<forall>t \<in> set (deliver (wk_jobs w)). \<exists>x \<in> set (db_song (cn_db c')). stores (cn_db c') t x)
    \<and> (\<forall>x \<in> set (db_song (cn_db c)). so_path x \<in> wk_seen w - ti_path ` set (deliver (wk_jobs w))
      \<longrightarrow> x \<in> set (db_song (cn_db c')))
    \<and> s' = \<lparr>sc_scanning = False, sc_count = wk_skipped w + int (length (deliver (wk_jobs w)))\<rparr>"
  using Run_songs [OF assms] by blast

lemma Run_forgets_facts:
  assumes "Run env es onDisk deliver s c = (Inr (), s', c')" "faultless env" "connOK c" "cn_saved c = None"
    and "delivers deliver" "distinct (map we_path es)" "\<forall>t \<in> set (deliver (wk_jobs w)). nulFree t"
    and "w = walk (knownFiles (cn_db c)) es"
  shows "db_play (cn_db c') = filter (\<lambda>p. ph_song p \<notin> goneIds (cn_db c) (wk_seen w)) (db_play (cn_db c))"
    and "db_star (cn_db c') = filter (\<lambda>x. st_type x = ''song'' \<longrightarrow> st_item x \<notin> goneIds (cn_db c) (wk_seen w)) (db_star (cn_db c))"
    and "db_plsong (cn_db c') = filter (\<lambda>e. ps_song e \<notin> goneIds (cn_db c) (wk_seen w)) (db_plsong (cn_db c))"
    and "db_playlist (cn_db c') = db_playlist (cn_db c)"
    and "db_rating (cn_db c') = db_rating (cn_db c)" "db_credential (cn_db c') = db_credential (cn_db c)"
proof -
  obtain d1 where d1: "loaded (cn_db c) (deliver (wk_jobs w)) d1" "schemaOK d1"
    "cn_db c' = finished onDisk (wk_art w) (removed d1 (set (gonePaths (cn_db c) w)))"
    "ti_path ` set (deliver (wk_jobs w)) \<subseteq> wk_seen w" using Run_loaded [OF assms] .
  have rest: "sameRest (cn_db c) d1" using d1(1) by (simp add: loaded_def)
  note ids = goneIds_loaded [OF d1(1,2,4)]
  show "db_play (cn_db c') = filter (\<lambda>p. ph_song p \<notin> goneIds (cn_db c) (wk_seen w)) (db_play (cn_db c))"
    "db_star (cn_db c') = filter (\<lambda>x. st_type x = ''song'' \<longrightarrow> st_item x \<notin> goneIds (cn_db c) (wk_seen w)) (db_star (cn_db c))"
    "db_plsong (cn_db c') = filter (\<lambda>e. ps_song e \<notin> goneIds (cn_db c) (wk_seen w)) (db_plsong (cn_db c))"
    "db_playlist (cn_db c') = db_playlist (cn_db c)"
    "db_rating (cn_db c') = db_rating (cn_db c)" "db_credential (cn_db c') = db_credential (cn_db c)"
    using rest unfolding d1(3) finished_tables removed_def ids
    by (auto simp: sameRest_def intro: filter_cong)
qed

text \<open>
  Claim C19. A scan without faults removes exactly what hangs on the songs it removes: their plays,
  their stars (not those of an album or an artist with the same identifier) and their playlist
  entries, the others staying in their order. Their ratings stay behind.
\<close>

theorem Run_forgets:
  assumes "Run env es onDisk deliver s c = (Inr (), s', c')" "faultless env" "connOK c" "cn_saved c = None"
    and "delivers deliver" "distinct (map we_path es)" "\<forall>t \<in> set (deliver (wk_jobs w)). nulFree t"
    and "w = walk (knownFiles (cn_db c)) es"
  shows "db_play (cn_db c') = filter (\<lambda>p. ph_song p \<notin> goneIds (cn_db c) (wk_seen w)) (db_play (cn_db c))
    \<and> db_star (cn_db c') = filter (\<lambda>x. st_type x = ''song'' \<longrightarrow> st_item x \<notin> goneIds (cn_db c) (wk_seen w)) (db_star (cn_db c))
    \<and> db_plsong (cn_db c') = filter (\<lambda>e. ps_song e \<notin> goneIds (cn_db c) (wk_seen w)) (db_plsong (cn_db c))
    \<and> db_playlist (cn_db c') = db_playlist (cn_db c)
    \<and> db_rating (cn_db c') = db_rating (cn_db c)
    \<and> db_credential (cn_db c') = db_credential (cn_db c)"
  using Run_forgets_facts [OF assms] by blast

lemma Run_derived_facts:
  assumes "Run env es onDisk deliver s c = (Inr (), s', c')" "faultless env" "connOK c" "cn_saved c = None"
    and "delivers deliver" "distinct (map we_path es)" "\<forall>t \<in> set (deliver (wk_jobs w)). nulFree t"
    and "w = walk (knownFiles (cn_db c)) es"
  shows "\<forall>a \<in> set (db_album (cn_db c')). albumSongsOf (cn_db c') (al_id a) \<noteq> []
      \<and> al_song_count a = int (length (albumSongsOf (cn_db c') (al_id a)))
      \<and> al_duration a = sum_list (map so_duration (albumSongsOf (cn_db c') (al_id a)))"
    and "\<forall>x \<in> set (db_artist (cn_db c')). \<exists>a \<in> set (db_album (cn_db c')). al_artist_id a = ar_id x"
    and "db_fts (cn_db c') = Some (ftsRows (cn_db c'))"
proof -
  obtain d1 where
    d: "cn_db c' = finished onDisk (wk_art w) (removed d1 (set (gonePaths (cn_db c) w)))" using Run_loaded [OF assms] .
  let ?d = "removed d1 (set (gonePaths (cn_db c) w))"
  have songs: "albumSongsOf (cn_db c') i = albumSongsOf ?d i" for i unfolding d albumSongsOf_def by simp
  show "\<forall>a \<in> set (db_album (cn_db c')). albumSongsOf (cn_db c') (al_id a) \<noteq> []
      \<and> al_song_count a = int (length (albumSongsOf (cn_db c') (al_id a)))
      \<and> al_duration a = sum_list (map so_duration (albumSongsOf (cn_db c') (al_id a)))"
    unfolding songs unfolding d using finished_counts by blast
  show "\<forall>x \<in> set (db_artist (cn_db c')). \<exists>a \<in> set (db_album (cn_db c')). al_artist_id a = ar_id x"
    unfolding d finished_albums(2) by auto
  show "db_fts (cn_db c') = Some (ftsRows (cn_db c'))" unfolding d by (rule finished_albums(3))
qed

text \<open>
  Claim C18. What a scan without faults derives is consistent with the songs it leaves: every album
  has songs, its count is their number and its duration their sum; every artist has an album; and
  the search index holds exactly the songs joined with their artists and albums.
\<close>

theorem Run_derived:
  assumes "Run env es onDisk deliver s c = (Inr (), s', c')" "faultless env" "connOK c" "cn_saved c = None"
    and "delivers deliver" "distinct (map we_path es)" "\<forall>t \<in> set (deliver (wk_jobs w)). nulFree t"
    and "w = walk (knownFiles (cn_db c)) es"
  shows "(\<forall>a \<in> set (db_album (cn_db c')). albumSongsOf (cn_db c') (al_id a) \<noteq> []
      \<and> al_song_count a = int (length (albumSongsOf (cn_db c') (al_id a)))
      \<and> al_duration a = sum_list (map so_duration (albumSongsOf (cn_db c') (al_id a))))
    \<and> (\<forall>x \<in> set (db_artist (cn_db c')). \<exists>a \<in> set (db_album (cn_db c')). al_artist_id a = ar_id x)
    \<and> db_fts (cn_db c') = Some (ftsRows (cn_db c'))"
  using Run_derived_facts [OF assms] by blast

section \<open>A second scan\<close>

lemma coverOf_twice: "coverOf onDisk art dir (coverOf onDisk art dir x) = coverOf onDisk art dir x"
  by (auto simp: coverOf_def colText_def split: option.splits)

lemma withCover_shape: "withCover onDisk art d a = a\<lparr>al_cover_art := al_cover_art (withCover onDisk art d a)\<rparr>"
  by (simp add: withCover_def split: list.splits)

lemma withCover_twice [simp]: "withCover onDisk art d (withCover onDisk art d a) = withCover onDisk art d a"
  by (simp add: withCover_def coverOf_twice split: list.splits)

lemma withStats_twice [simp]: "withStats d (withStats d a) = withStats d a"
  by (simp add: withStats_def Let_def)

lemma cover_stats: "withCover onDisk art d (withStats d a) = withStats d (withCover onDisk art d a)"
  by (simp add: withCover_def withStats_def Let_def split: list.splits)

lemma finished_twice: "finished onDisk art (finished onDisk art d) = finished onDisk art d"
proof -
  let ?d = "finished onDisk art d"
  have same: "withStats ?d = withStats d" "withCover onDisk art ?d = withCover onDisk art d"
    by (rule ext, simp add: withStats_def withCover_def albumSongsOf_def)+
  have "db_album (finished onDisk art ?d) = db_album ?d"
    unfolding finished_albums(1) [of onDisk art ?d] same
    unfolding finished_albums(1) finished_tables filter_map comp_def
    by (auto simp: cover_stats comp_def intro!: map_idI filter_cong)
  moreover from this have "db_artist (finished onDisk art ?d) = db_artist ?d"
    unfolding finished_albums(2) [of onDisk art ?d] using finished_albums(2) [of onDisk art d] by simp
  ultimately have "finished onDisk art ?d = ?d\<lparr>db_fts := Some (ftsRows ?d)\<rparr>"
    using finished_albums(3) [of onDisk art ?d] unfolding ftsRows_def artistOf_def albumOf_def
    by (intro db.equality) simp_all
  then show ?thesis using finished_albums(3) [of onDisk art d] by (intro db.equality) simp_all
qed

text \<open>The last steps of a scan of finished tables succeed and change nothing.\<close>

lemma finished_fixed:
  assumes "finished onDisk art d = d"
  shows "map (withCover onDisk art d) (db_album d) = db_album d" "map (withStats d) (db_album d) = db_album d"
    "filter (\<lambda>a. al_id a \<in> so_album_id ` set (db_song d)) (db_album d) = db_album d"
    "filter (\<lambda>a. ar_id a \<in> al_artist_id ` set (db_album d)) (db_artist d) = db_artist d"
    "db_fts d = Some (ftsRows d)"
proof -
  have a: "filter (\<lambda>a. al_id a \<in> so_album_id ` set (db_song d))
     (map (\<lambda>a. withStats d (withCover onDisk art d a)) (db_album d)) = db_album d"
    using finished_albums(1) [of onDisk art d] assms by simp
  then have m: "map (\<lambda>a. withStats d (withCover onDisk art d a)) (db_album d) = db_album d"
    by (metis (no_types, lifting) length_filter_map length_map filter_True length_filter_less nat_neq_iff set_filter)
  then have each: "withStats d (withCover onDisk art d b) = b" if "b \<in> set (db_album d)" for b
  proof -
    have "map (\<lambda>a. withStats d (withCover onDisk art d a)) (db_album d) = map id (db_album d)" using m by simp
    with that show ?thesis by (simp only: map_eq_conv) simp
  qed
  have cover: "withCover onDisk art d b = b" if "b \<in> set (db_album d)" for b
    using withCover_twice each [OF that] cover_stats by metis
  show "map (withCover onDisk art d) (db_album d) = db_album d" using cover by (intro map_idI)
  show "map (withStats d) (db_album d) = db_album d" using each cover by (intro map_idI) simp
  show "filter (\<lambda>a. al_id a \<in> so_album_id ` set (db_song d)) (db_album d) = db_album d" using a m by simp
  show "filter (\<lambda>a. ar_id a \<in> al_artist_id ` set (db_album d)) (db_artist d) = db_artist d"
    "db_fts d = Some (ftsRows d)"
    using finished_albums(2,3) [of onDisk art d] assms by simp_all
qed

lemma execSetFTS:
  "faultless env \<Longrightarrow> schemaOK (cn_db c) \<Longrightarrow>
    exec env (setFTS f) c = (Inr (), (ticked c)\<lparr>cn_db := (cn_db c)\<lparr>db_fts := f (cn_db c)\<rparr>\<rparr>)"
  unfolding setFTS_def by (subst execChecked) simp_all

lemma rebuildFTS_succeeds:
  assumes "faultless env" "schemaOK (cn_db c)" "cn_saved c = None"
  shows "\<exists>c'. rebuildFTS env c = (Inr (), c') \<and> cn_db c' = (cn_db c)\<lparr>db_fts := Some (ftsRows (cn_db c))\<rparr>
    \<and> cn_saved c' = None"
proof -
  have "beginTx env c = (Inr (), (ticked c)\<lparr>cn_saved := Some (cn_db c)\<rparr>)"
    using assms by (simp add: faultless_def)
  then show ?thesis
    using assms endTx_commits [OF assms(1)] by (simp add: rebuildFTS_def execSetFTS del: beginTx_Inr exec_Inr)
qed

lemma orphans_fixed:
  assumes "finished onDisk art (cn_db c) = cn_db c" "faultless env" "schemaOK (cn_db c)"
  shows "\<exists>c'. deleteOrphans env c = (Inr (), c') \<and> cn_db c' = cn_db c \<and> cn_saved c' = cn_saved c"
proof -
  note f = finished_fixed [OF assms(1)]
  have a: "exec env deleteOrphanAlbums c = (Inr (), (ticked c)\<lparr>cn_db := cn_db c\<rparr>)"
    unfolding deleteOrphanAlbums_def using assms(2,3) f(3) by (subst execChecked) simp_all
  have "exec env deleteOrphanArtists ((ticked c)\<lparr>cn_db := cn_db c\<rparr>)
      = (Inr (), (ticked ((ticked c)\<lparr>cn_db := cn_db c\<rparr>))\<lparr>cn_db := cn_db c\<rparr>)"
    unfolding deleteOrphanArtists_def using assms(2,3) f(4) by (subst execChecked) simp_all
  with a show ?thesis by (simp add: deleteOrphans_def tx_then_def tx_bind_def del: exec_Inr)
qed

lemma scanBody_fixed:
  assumes "faultless env" "schemaOK (cn_db c)" "cn_saved c = None"
    and "w = walk (knownFiles (cn_db c)) es" "wk_jobs w = []" "gonePaths (cn_db c) w = []" "deliver [] = []"
    and fixed: "finished onDisk (wk_art w) (cn_db c) = cn_db c"
  shows "\<exists>c'. scanBody env es onDisk deliver c = (Inr (), c') \<and> cn_db c' = cn_db c"
proof -
  note f = finished_fixed [OF fixed]
  let ?d = "cn_db c"
  define c0 where "c0 = (ticked c)\<lparr>cn_db := ?d\<rparr>"
  have c0: "cn_db c0 = ?d" "cn_saved c0 = None" using assms(3) by (simp_all add: c0_def)
  have load: "exec env (selecting (\<lambda>now d. d)) c = (Inr ?d, c0)"
    using assms(1) by (simp add: faultless_def c0_def)
  have wr: "writeResults env (deliver (wk_jobs w)) c0 = (Inr (), c0)"
    by (simp add: assms(5,7) writeResults.simps tx_return_def)
  have delete: "deleteSongs env (gonePaths ?d w) c0 = (Inr (), c0)"
    by (simp add: assms(6) deleteSongs.simps tx_return_def)
  from resolveAlbumArt_effect [OF assms(1), of c0 onDisk "wk_art w"] assms(2) c0 obtain c1 where
    art: "resolveAlbumArt env onDisk (wk_art w) c0 = (Inr (), c1)" and c1: "cn_db c1 = ?d" "cn_saved c1 = None"
    using f(1) by auto
  define c2 where "c2 = (ticked c1)\<lparr>cn_db := ?d\<rparr>"
  have c2: "cn_db c2 = ?d" "cn_saved c2 = None" using c1 by (simp_all add: c2_def)
  have stats: "updateAlbumStats env c1 = (Inr (), c2)"
    unfolding updateAlbumStats_def c2_def using assms(1,2) c1 f(2) by (subst execChecked) simp_all
  from orphans_fixed [of onDisk "wk_art w" c2 env] fixed c2 assms(1,2) obtain c3 where
    orphans: "deleteOrphans env c2 = (Inr (), c3)" and c3: "cn_db c3 = ?d" "cn_saved c3 = None" by auto
  from rebuildFTS_succeeds [OF assms(1), of c3] assms(2) c3 obtain c4 where
    fts: "rebuildFTS env c3 = (Inr (), c4)" and c4: "cn_db c4 = ?d\<lparr>db_fts := Some (ftsRows ?d)\<rparr>" by auto
  have "?d\<lparr>db_fts := Some (ftsRows ?d)\<rparr> = ?d" by (subst f(5) [symmetric]) simp
  with c4 have c4: "cn_db c4 = ?d" by simp
  have opt: "exec env (selecting (\<lambda>now d. ())) c4 = (Inr (), (ticked c4)\<lparr>cn_db := ?d\<rparr>)"
    using assms(1) c4 by (simp add: faultless_def)
  have "scanBody env es onDisk deliver c = (Inr (), (ticked c4)\<lparr>cn_db := ?d\<rparr>)"
    unfolding scanBody_def scanStep_def Let_def
    by (simp add: load wr delete art stats orphans fts opt assms(4) [symmetric] del: exec_Inr)
  then show ?thesis by simp
qed

lemma find_distinct: "distinct (map f xs) \<Longrightarrow> x \<in> set xs \<Longrightarrow> find (\<lambda>s. f s = f x) xs = Some x"
  by (induction xs) (auto simp: image_iff)

lemma knownFiles_Some:
  assumes "schemaOK d" "x \<in> set (db_song d)"
  shows "knownFiles d (so_path x) = Some (so_mtime x, so_size x)"
proof -
  have "distinct (map so_path (db_song d))" using assms(1) unfolding schemaOK_def libraryOK_def by blast
  from find_distinct [OF this assms(2)] show ?thesis by (simp add: knownFiles_def)
qed

lemma stores_info: "stores d t x \<Longrightarrow> so_path x = ti_path t \<and> so_mtime x = ti_fileMtime t \<and> so_size x = ti_size t"
  by (cases x) (auto simp: stores_def updatedSong_def)

lemma delivers_Nil: "delivers deliver \<Longrightarrow> deliver [] = []"
  by (metis delivers_def list.simps(8) map_is_Nil_conv mset.simps(1) mset_zero_iff subset_mset.le_zero_eq)

lemma rescan_unchanged_facts:
  assumes run: "Run env es onDisk deliver s c = (Inr (), s', c')" "faultless env" "connOK c" "cn_saved c = None"
    "delivers deliver" "distinct (map we_path es)" "\<forall>t \<in> set (deliver (wk_jobs w)). nulFree t"
    "w = walk (knownFiles (cn_db c)) es"
    and all: "ti_path ` set (deliver (wk_jobs w)) = tj_path ` set (wk_jobs w)"
    and files: "\<forall>e \<in> set es. \<forall>t \<in> set (deliver (wk_jobs w)). ti_path t = we_path e
      \<longrightarrow> we_info e = Some (ti_fileMtime t, ti_size t)"
    and env': "faultless env'" "ev_pool env'" "delivers deliver'"
  shows "wk_jobs (walk (knownFiles (cn_db c')) es) = []"
    and "\<exists>s2 c2. Run env' es onDisk deliver' s' c' = (Inr (), s2, c2) \<and> cn_db c2 = cn_db c'"
proof -
  note songs = Run_songs [OF run]
  have ok: "schemaOK (cn_db c')"
    using scanBody_schema [OF run(3), of env es onDisk deliver] Run_Inr(1) [OF run(1)] by (simp add: connOK_def)
  have known: "knownFiles (cn_db c') (we_path e) = we_info e" if e: "e \<in> set es" "isTrack e" for e
  proof (cases "knownFiles (cn_db c) (we_path e) = we_info e")
    case True
    from e(2) obtain i where i: "we_info e = Some i" by (auto simp: isTrack_def)
    with True obtain x where x: "x \<in> set (db_song (cn_db c))" "so_path x = we_path e" "i = (so_mtime x, so_size x)"
      by (auto simp: knownFiles_def dest: find_SomeD)
    have "we_path e \<in> wk_seen w" using e by (simp add: run(8) walk_closed)
    moreover have "we_path e \<notin> tj_path ` set (wk_jobs w)"
      using run(6) e(1) True unfolding run(8) walk_closed by (auto simp: distinct_map dest: inj_onD)
    ultimately have "x \<in> set (db_song (cn_db c'))" using songs(3) x all by auto
    from knownFiles_Some [OF ok this] x i show ?thesis by simp
  next
    case False
    then have "we_path e \<in> tj_path ` set (wk_jobs w)"
      using e by (auto simp: run(8) walk_closed image_iff)
    then obtain t where t: "t \<in> set (deliver (wk_jobs w))" "ti_path t = we_path e" unfolding all [symmetric] by force
    with songs(2) obtain x where "x \<in> set (db_song (cn_db c'))" "stores (cn_db c') t x" by blast
    with knownFiles_Some [OF ok this(1)] stores_info [OF this(2)] t files e(1) show ?thesis by auto
  qed
  let ?w = "walk (knownFiles (cn_db c')) es"
  show jobs: "wk_jobs ?w = []" using known by (auto simp: walk_closed filter_empty_conv)
  obtain d1 where saved: "cn_saved c' = None" and "cn_db c' = finished onDisk (wk_art w) (removed d1 (set (gonePaths (cn_db c) w)))"
    and seen: "ti_path ` set (deliver (wk_jobs w)) \<subseteq> wk_seen w"
    using Run_loaded [OF run] .
  then have fixed: "finished onDisk (wk_art ?w) (cn_db c') = cn_db c'"
    by (simp add: run(8) walk_closed finished_twice)
  have "so_path ` set (db_song (cn_db c')) \<subseteq> wk_seen ?w"
    using songs(1) seen by (auto simp: run(8) walk_closed)
  then have "gonePaths (cn_db c') ?w = []" by (auto simp: gonePaths_def filter_empty_conv)
  then have "\<exists>c2. scanBody env' es onDisk deliver' c' = (Inr (), c2) \<and> cn_db c2 = cn_db c'"
    using jobs fixed delivers_Nil [OF env'(3)]
    by (intro scanBody_fixed [where w = ?w] env'(1) ok saved refl) simp_all
  with songs(4) env'(2) show "\<exists>s2 c2. Run env' es onDisk deliver' s' c' = (Inr (), s2, c2) \<and> cn_db c2 = cn_db c'"
    by (auto simp: Run_def)
qed

text \<open>
  Claim C21. A second scan of the same files, after a scan that could read them all, succeeds, has
  nothing to parse, and leaves the tables as they are.
\<close>

theorem rescan_unchanged:
  assumes run: "Run env es onDisk deliver s c = (Inr (), s', c')" "faultless env" "connOK c" "cn_saved c = None"
    "delivers deliver" "distinct (map we_path es)" "\<forall>t \<in> set (deliver (wk_jobs w)). nulFree t"
    "w = walk (knownFiles (cn_db c)) es"
    and all: "ti_path ` set (deliver (wk_jobs w)) = tj_path ` set (wk_jobs w)"
    and files: "\<forall>e \<in> set es. \<forall>t \<in> set (deliver (wk_jobs w)). ti_path t = we_path e
      \<longrightarrow> we_info e = Some (ti_fileMtime t, ti_size t)"
    and env': "faultless env'" "ev_pool env'" "delivers deliver'"
  shows "wk_jobs (walk (knownFiles (cn_db c')) es) = []
    \<and> (\<exists>s2 c2. Run env' es onDisk deliver' s' c' = (Inr (), s2, c2) \<and> cn_db c2 = cn_db c')"
  using rescan_unchanged_facts [OF assms] by blast

end
