(* ===== verification/Scan_Success.thy ===== *)
theory Scan_Success
  imports Scan_Correct
begin

text \<open>
  A scan without faults succeeds, provided the identifiers it draws are new and every song's
  artist is its album's. With it, a concrete scan at which the theorems of \<open>Scan_Correct\<close> apply.
\<close>

section \<open>Fresh identifiers\<close>

definition usedIDs :: "db \<Rightarrow> string set" where
  "usedIDs d = ar_id ` set (db_artist d) \<union> al_id ` set (db_album d) \<union> so_id ` set (db_song d)"

definition drawn :: "env \<Rightarrow> nat \<Rightarrow> string" where
  "drawn env k = newIDOf (ev_rnd env k) (ev_rnd env (Suc k))"

text \<open>The next \<open>n\<close> words give identifiers that differ from each other and from those in use.\<close>

definition drawsFresh :: "env \<Rightarrow> nat \<Rightarrow> conn \<Rightarrow> bool" where
  "drawsFresh env n c \<longleftrightarrow>
     (\<forall>j < n. drawn env (cn_rnd c + j) \<notin> usedIDs (cn_db c)
        \<and> (\<forall>k < j. drawn env (cn_rnd c + j) \<noteq> drawn env (cn_rnd c + k)))"

lemma drawsFresh_step:
  assumes "drawsFresh env (Suc (Suc n)) c" "cn_rnd c' = cn_rnd c + 2"
    and "usedIDs (cn_db c') \<subseteq> insert (drawn env (cn_rnd c)) (usedIDs (cn_db c))"
  shows "drawsFresh env n c'"
  unfolding drawsFresh_def
proof (intro allI impI)
  fix j assume j: "j < n"
  have f: "drawn env (cn_rnd c + i) \<notin> usedIDs (cn_db c)" "k < i \<Longrightarrow> drawn env (cn_rnd c + i) \<noteq> drawn env (cn_rnd c + k)"
    if "i < Suc (Suc n)" for i k
    using assms(1) that unfolding drawsFresh_def by blast+
  have e: "cn_rnd c' + i = cn_rnd c + Suc (Suc i)" for i using assms(2) by simp
  from j f(1) [of "Suc (Suc j)"] f(2) [of "Suc (Suc j)" 0] assms(3)
  show "drawn env (cn_rnd c' + j) \<notin> usedIDs (cn_db c')
      \<and> (\<forall>k < j. drawn env (cn_rnd c' + j) \<noteq> drawn env (cn_rnd c' + k))"
    unfolding e using f(2) [of "Suc (Suc j)" "Suc (Suc k)" for k] by auto
qed

lemma drawsFresh_same:
  "drawsFresh env n c \<Longrightarrow> m \<le> n \<Longrightarrow> cn_rnd c' = cn_rnd c \<Longrightarrow> usedIDs (cn_db c') = usedIDs (cn_db c) \<Longrightarrow> drawsFresh env m c'"
  by (auto simp: drawsFresh_def)

lemma drawsFresh_head: "drawsFresh env (Suc (Suc n)) c \<Longrightarrow> drawn env (cn_rnd c) \<notin> usedIDs (cn_db c)"
  unfolding drawsFresh_def by (metis add.right_neutral zero_less_Suc)

section \<open>Inserts succeed\<close>

text \<open>Every song's artist is its album's.\<close>

definition artistsMatch :: "db \<Rightarrow> bool" where
  "artistsMatch d \<longleftrightarrow> (\<forall>s \<in> set (db_song d). \<exists>a \<in> set (db_album d). al_id a = so_album_id s \<and> al_artist_id a = so_artist_id s)"

lemma artist_schema:
  assumes "schemaOK d" "i \<notin> usedIDs d" "\<forall>a \<in> set (db_artist d). ar_name a \<noteq> n"
  shows "schemaOK (d\<lparr>db_artist := db_artist d @ [\<lparr>ar_id = i, ar_name = n\<rparr>]\<rparr>)"
  using assms by (auto simp: schemaOK_def libraryOK_def usedIDs_def refersTo_def list_all_iff)

lemma album_schema:
  assumes "schemaOK d" "al_id b \<notin> usedIDs d" "\<forall>a \<in> set (db_album d). \<not> isAlbum (al_artist_id b) (al_name b) a"
    and "al_artist_id b \<in> ar_id ` set (db_artist d)"
  shows "schemaOK (d\<lparr>db_album := db_album d @ [b]\<rparr>)"
  using assms by (auto simp: schemaOK_def libraryOK_def usedIDs_def refersTo_def list_all_iff isAlbum_def)

text \<open>Tables of songs with the same or more identifiers keep the plays and the playlists valid.\<close>

lemma songs_schema:
  assumes "schemaOK d" "libraryOK (db_artist d) (db_album d) songs" "so_id ` set (db_song d) \<subseteq> so_id ` set songs"
  shows "schemaOK (d\<lparr>db_song := songs\<rparr>)"
proof -
  have "refersTo ph_song (db_play d) so_id songs"
    by (rule refersTo_mono [of _ _ so_id "db_song d"]) (use assms in \<open>simp_all add: schemaOK_def playOK_def\<close>)
  moreover have "refersTo ps_song (db_plsong d) so_id songs"
    by (rule refersTo_mono [of _ _ so_id "db_song d"]) (use assms in \<open>simp_all add: schemaOK_def playlistOK_def\<close>)
  ultimately have "playOK songs (db_play d)" "playlistOK songs (db_playlist d) (db_plsong d)"
    using assms(1) by (simp_all add: schemaOK_def playOK_def playlistOK_def)
  then show ?thesis using assms(1,2) by (simp add: schemaOK_def)
qed

lemma song_schema:
  assumes "schemaOK d" "so_id s \<notin> usedIDs d" "so_path s \<notin> so_path ` set (db_song d)"
    and "so_rowid s = nextRowid (map so_rowid (db_song d))"
    and "so_album_id s \<in> al_id ` set (db_album d)" "so_artist_id s \<in> ar_id ` set (db_artist d)"
  shows "schemaOK (d\<lparr>db_song := db_song d @ [s]\<rparr>)"
proof (rule songs_schema [OF assms(1)])
  have "so_rowid s \<notin> so_rowid ` set (db_song d)"
    using nextRowid_fresh [of _ "map so_rowid (db_song d)"] assms(4) by fastforce
  then show "libraryOK (db_artist d) (db_album d) (db_song d @ [s])"
    using assms by (simp add: schemaOK_def libraryOK_def usedIDs_def)
qed auto

lemma songMap_schema:
  assumes "schemaOK d" "\<And>s. so_id (f s) = so_id s" "\<And>s. so_path (f s) = so_path s" "\<And>s. so_rowid (f s) = so_rowid s"
    and "\<And>s. s \<in> set (db_song d) \<Longrightarrow> so_album_id (f s) \<in> al_id ` set (db_album d)"
    and "\<And>s. s \<in> set (db_song d) \<Longrightarrow> so_artist_id (f s) \<in> ar_id ` set (db_artist d)"
  shows "schemaOK (d\<lparr>db_song := map f (db_song d)\<rparr>)"
  by (rule songs_schema [OF assms(1)])
    (use assms in \<open>simp_all add: schemaOK_def libraryOK_def refersTo_def list_all_iff comp_def image_image\<close>)

lemma songUpdate_schema:
  assumes "schemaOK d" "al \<in> al_id ` set (db_album d)" "a \<in> ar_id ` set (db_artist d)"
  shows "schemaOK (d\<lparr>db_song := map (\<lambda>s. if so_path s = ti_path t then updatedSong t a al s else s) (db_song d)\<rparr>)"
proof (rule songMap_schema [OF assms(1)])
  have "refersTo so_album_id (db_song d) al_id (db_album d)" "refersTo so_artist_id (db_song d) ar_id (db_artist d)"
    using assms(1) unfolding schemaOK_def libraryOK_def by blast+
  then show "so_album_id (if so_path s = ti_path t then updatedSong t a al s else s) \<in> al_id ` set (db_album d)"
    "so_artist_id (if so_path s = ti_path t then updatedSong t a al s else s) \<in> ar_id ` set (db_artist d)"
    if "s \<in> set (db_song d)" for s
    using assms(2,3) refersToD that by (fastforce simp: updatedSong_def)+
qed (simp_all add: updatedSong_def)

lemma execSome:
  "faultless env \<Longrightarrow> s (ev_now env (cn_tick c)) (cn_db c) = Some (d, x) \<Longrightarrow> exec env s c = (Inr x, (ticked c)\<lparr>cn_db := d\<rparr>)"
  by (simp add: faultless_def)

text \<open>A statement that succeeds on the tables, uses no identifier but the drawn one, and keeps \<open>artistsMatch\<close>.\<close>

definition goesOn :: "string \<Rightarrow> db \<Rightarrow> (db \<times> 'a) option \<Rightarrow> bool" where
  "goesOn i d r \<longleftrightarrow> (\<exists>d' x. r = Some (d', x) \<and> usedIDs d' \<subseteq> insert i (usedIDs d) \<and> artistsMatch d')"

lemma drawStep:
  assumes "faultless env" "drawsFresh env (Suc (Suc n)) c"
    and "\<And>now. drawn env (cn_rnd c) \<notin> usedIDs (cn_db c) \<Longrightarrow> goesOn (drawn env (cn_rnd c)) (cn_db c) (s (drawn env (cn_rnd c)) now (cn_db c))"
  shows "\<exists>x c'. tx_bind (NewID env) (\<lambda>i. exec env (s i)) c = (Inr x, c') \<and> drawsFresh env n c' \<and> artistsMatch (cn_db c')"
proof -
  let ?i = "drawn env (cn_rnd c)" and ?c = "c\<lparr>cn_rnd := cn_rnd c + 2\<rparr>"
  from assms(3) [OF drawsFresh_head [OF assms(2)]] obtain d x where
    d: "s ?i (ev_now env (cn_tick c)) (cn_db c) = Some (d, x)" "usedIDs d \<subseteq> insert ?i (usedIDs (cn_db c))" "artistsMatch d"
    unfolding goesOn_def by blast
  then have "exec env (s ?i) ?c = (Inr x, (ticked ?c)\<lparr>cn_db := d\<rparr>)"
    by (intro execSome [OF assms(1)]) simp
  then have "tx_bind (NewID env) (\<lambda>i. exec env (s i)) c = (Inr x, (ticked ?c)\<lparr>cn_db := d\<rparr>)"
    by (simp add: tx_bind_def NewID_def drawn_def del: exec_Inr)
  moreover have "drawsFresh env n ((ticked ?c)\<lparr>cn_db := d\<rparr>)"
    by (rule drawsFresh_step [OF assms(2)]) (use d(2) in simp_all)
  ultimately show ?thesis using d(3) by (intro exI conjI) (assumption | simp)+
qed

lemma artist_goesOn:
  assumes "schemaOK d" "artistsMatch d" "i \<notin> usedIDs d"
  shows "goesOn i d (upsertArtistStmt i name now d)"
proof (cases "find (\<lambda>a. ar_name a = name) (db_artist d)")
  case None
  then have "schemaOK (d\<lparr>db_artist := db_artist d @ [\<lparr>ar_id = i, ar_name = name\<rparr>]\<rparr>)"
    using assms by (intro artist_schema) (simp_all add: find_None_iff)
  with None assms(2) show ?thesis
    by (auto simp: goesOn_def upsertArtistStmt_def checkedRet_def usedIDs_def artistsMatch_def)
next
  case (Some a)
  with assms show ?thesis by (auto simp: goesOn_def upsertArtistStmt_def checkedRet_def)
qed

lemma album_goesOn:
  assumes "schemaOK d" "artistsMatch d" "i \<notin> usedIDs d" "a \<in> ar_id ` set (db_artist d)"
  shows "goesOn i d (upsertAlbumStmt i a name y g now d)"
proof (cases "find (isAlbum a name) (db_album d)")
  case None
  let ?b = "\<lparr>al_id = i, al_artist_id = a, al_name = name, al_year = Some y, al_genre = Some g,
    al_cover_art = None, al_song_count = 0, al_duration = 0, al_created = now\<rparr>"
  have "schemaOK (d\<lparr>db_album := db_album d @ [?b]\<rparr>)"
    using assms None by (intro album_schema) (simp_all add: find_None_iff)
  with None assms(2) show ?thesis
    by (auto simp: goesOn_def upsertAlbumStmt_def checkedRet_def usedIDs_def artistsMatch_def)
next
  case (Some b)
  let ?f = "\<lambda>b. if isAlbum a name b then b\<lparr>al_year := Some y, al_genre := Some g\<rparr> else b"
  have up: "albumUpdate ?f" by (simp add: albumUpdate_def)
  then have ids: "al_id (?f b) = al_id b" "al_artist_id (?f b) = al_artist_id b" for b by (simp_all add: albumUpdate_def)
  have "schemaOK (d\<lparr>db_album := map ?f (db_album d)\<rparr>)" using albumUpdate_schema [OF up] assms(1) by simp
  moreover have "usedIDs (d\<lparr>db_album := map ?f (db_album d)\<rparr>) = usedIDs d"
  proof -
    have "al_id ` set (map ?f (db_album d)) = al_id ` set (db_album d)" unfolding set_map image_image ids ..
    then show ?thesis unfolding usedIDs_def by simp
  qed
  moreover have "artistsMatch (d\<lparr>db_album := map ?f (db_album d)\<rparr>)"
    unfolding artistsMatch_def
  proof
    fix s assume "s \<in> set (db_song (d\<lparr>db_album := map ?f (db_album d)\<rparr>))"
    with assms(2) obtain x where "x \<in> set (db_album d)" "al_id x = so_album_id s" "al_artist_id x = so_artist_id s"
      by (auto simp: artistsMatch_def)
    with ids [of x] show "\<exists>a \<in> set (db_album (d\<lparr>db_album := map ?f (db_album d)\<rparr>)). al_id a = so_album_id s \<and> al_artist_id a = so_artist_id s"
      by (intro bexI [of _ "?f x"]) auto
  qed
  ultimately show ?thesis using Some by (simp add: goesOn_def upsertAlbumStmt_def checkedRet_def subset_insertI)
qed

lemma song_goesOn:
  assumes "schemaOK d" "artistsMatch d" "i \<notin> usedIDs d" "a \<in> ar_id ` set (db_artist d)"
    and "x \<in> set (db_album d)" "al_id x = al" "al_artist_id x = a"
  shows "goesOn i d (upsertSongStmt i t a al now d)"
proof (cases "ti_path t \<in> so_path ` set (db_song d)")
  case True
  let ?f = "\<lambda>s. if so_path s = ti_path t then updatedSong t a al s else s"
  let ?d = "d\<lparr>db_song := map ?f (db_song d)\<rparr>"
  have "schemaOK ?d" using assms by (intro songUpdate_schema) auto
  moreover have "usedIDs ?d = usedIDs d"
  proof -
    have "so_id (?f s) = so_id s" for s by (simp add: updatedSong_def)
    then have "so_id ` set (map ?f (db_song d)) = so_id ` set (db_song d)" unfolding set_map image_image by (rule image_cong [OF refl])
    then show ?thesis unfolding usedIDs_def by simp
  qed
  moreover have "artistsMatch ?d"
    unfolding artistsMatch_def
  proof
    fix s assume "s \<in> set (db_song ?d)"
    then obtain s0 where s0: "s0 \<in> set (db_song d)" "s = ?f s0" by auto
    show "\<exists>b \<in> set (db_album ?d). al_id b = so_album_id s \<and> al_artist_id b = so_artist_id s"
    proof (cases "so_path s0 = ti_path t")
      case True
      with s0 assms(5-7) show ?thesis by (intro bexI [of _ x]) (simp_all add: updatedSong_def)
    next
      case False
      with s0 assms(2) show ?thesis by (auto simp: artistsMatch_def)
    qed
  qed
  ultimately show ?thesis using True by (simp add: goesOn_def upsertSongStmt_def checked_def subset_insertI)
next
  case False
  let ?s = "insertedSong (nextRowid (map so_rowid (db_song d))) i now t a al"
  have "schemaOK (d\<lparr>db_song := db_song d @ [?s]\<rparr>)"
    using assms False by (intro song_schema) (auto simp: insertedSong_def)
  moreover have "artistsMatch (d\<lparr>db_song := db_song d @ [?s]\<rparr>)"
    using assms(2,5-7) by (auto simp: artistsMatch_def insertedSong_def)
  moreover have "usedIDs (d\<lparr>db_song := db_song d @ [?s]\<rparr>) = insert i (usedIDs d)"
    by (auto simp: usedIDs_def insertedSong_def)
  ultimately show ?thesis using False by (simp add: goesOn_def upsertSongStmt_def checked_def)
qed

lemma insertTracks_succeeds:
  assumes "faultless env" "schemaOK (cn_db c)" "artistsMatch (cn_db c)" "drawsFresh env (6 * length ts + n) c"
    and "cached (cn_db c) A B" "\<forall>t \<in> set ts. nulFree t"
  shows "\<exists>c'. insertTracks env A B ts c = (Inr (), c') \<and> schemaOK (cn_db c') \<and> artistsMatch (cn_db c')
    \<and> drawsFresh env n c' \<and> cn_saved c' = cn_saved c"
  using assms(2-6)
proof (induction ts arbitrary: A B c)
  case Nil
  then show ?case by (simp add: tx_return_def)
next
  case (Cons t ts)
  let ?n = "6 * length ts + n"
  let ?artist = "case A (ti_artist t) of Some i \<Rightarrow> tx_return i | None \<Rightarrow> upsertArtist env (ti_artist t)"
  have fresh: "drawsFresh env (Suc (Suc (?n + 4))) c" using Cons.prems(3) by (rule drawsFresh_same) simp_all
  have t: "nulFree t" using Cons.prems(5) by simp
  obtain i c1 where a: "?artist c = (Inr i, c1)" and a': "drawsFresh env (?n + 4) c1" "artistsMatch (cn_db c1)" "schemaOK (cn_db c1)"
  proof (cases "A (ti_artist t)")
    case None
    with drawStep [OF assms(1) fresh, of "\<lambda>i. upsertArtistStmt i (ti_artist t)"] Cons.prems(1,2) that
      upsertArtist_effect [of env "ti_artist t" c]
    show thesis by (auto simp: artist_goesOn upsertArtist_def [symmetric] simp del: tx_bind_Inr)
  next
    case (Some i)
    with that [of i c] drawsFresh_same [OF fresh] Cons.prems(1,2) show thesis by (simp add: tx_return_def)
  qed
  note ae = artistID_effect [OF a Cons.prems(4)]
  then have ai: "i \<in> ar_id ` set (db_artist (cn_db c1))" by auto
  let ?album = "case B (albumKey t) of Some k \<Rightarrow> tx_return k | None \<Rightarrow> upsertAlbum env i (ti_album t) (ti_year t) (ti_genre t)"
  obtain k c2 where b: "?album c1 = (Inr k, c2)" and b': "drawsFresh env (?n + 2) c2" "artistsMatch (cn_db c2)" "schemaOK (cn_db c2)"
  proof (cases "B (albumKey t)")
    case None
    have "drawsFresh env (Suc (Suc (?n + 2))) c1" using a'(1) by (rule drawsFresh_same) simp_all
    from drawStep [OF assms(1) this, of "\<lambda>x. upsertAlbumStmt x i (ti_album t) (ti_year t) (ti_genre t)"] None a'(2,3) ai that
      upsertAlbum_effect [of env i "ti_album t" "ti_year t" "ti_genre t" c1]
    show thesis by (auto simp: album_goesOn upsertAlbum_def [symmetric] simp del: tx_bind_Inr)
  next
    case (Some k)
    with that [of k c1] drawsFresh_same [OF a'(1)] a' show thesis by (simp add: tx_return_def)
  qed
  note be = albumID_effect [OF b ae(1) t ae(3,2)]
  from be(3) obtain x where x: "x \<in> set (db_album (cn_db c2))" "al_id x = k" "al_artist_id x = i" by blast
  have ai2: "i \<in> ar_id ` set (db_artist (cn_db c2))" using be(2) by auto
  have "drawsFresh env (Suc (Suc ?n)) c2" using b'(1) by (rule drawsFresh_same) simp_all
  from drawStep [OF assms(1) this, of "\<lambda>j. upsertSongStmt j t i k"] song_goesOn [OF b'(3,2) _ ai2 x]
  obtain c3 where s: "upsertSong env t i k c2 = (Inr (), c3)" and s': "drawsFresh env ?n c3" "artistsMatch (cn_db c3)"
    by (auto simp: upsertSong_def [symmetric] simp del: tx_bind_Inr)
  note se = upsertSong_effect [OF s be(2,3)]
  then have "cached (cn_db c3) (A(ti_artist t \<mapsto> i)) (B(albumKey t \<mapsto> k))"
    by (intro cached_mono [OF be(1)]) (simp add: loaded_def)
  moreover have "schemaOK (cn_db c3)" "\<forall>t \<in> set ts. nulFree t" using se Cons.prems(5) by simp_all
  ultimately obtain c' where "insertTracks env (A(ti_artist t \<mapsto> i)) (B(albumKey t \<mapsto> k)) ts c3 = (Inr (), c')"
    "schemaOK (cn_db c')" "artistsMatch (cn_db c')" "drawsFresh env n c'" "cn_saved c' = cn_saved c3"
    using Cons.IH [OF _ s'(2,1)] by blast
  moreover have "cn_saved c3 = cn_saved c" using ae(5) be(5) se by simp
  ultimately show ?case using a b s by (auto simp del: tx_bind_Inr tx_then_Inr simp: tx_bind_def tx_then_def)
qed

lemma insertBatch_succeeds:
  assumes "faultless env" "schemaOK (cn_db c)" "cn_saved c = None" "artistsMatch (cn_db c)"
    and "drawsFresh env (6 * length ts + n) c" "\<forall>t \<in> set ts. nulFree t"
  shows "\<exists>c'. insertBatch env ts c = (Inr (), c') \<and> cn_saved c' = None \<and> schemaOK (cn_db c')
    \<and> artistsMatch (cn_db c') \<and> drawsFresh env n c'"
proof -
  let ?c = "(ticked c)\<lparr>cn_saved := Some (cn_db c)\<rparr>"
  have b: "beginTx env c = (Inr (), ?c)" using assms(1,3) by (simp add: faultless_def)
  have "drawsFresh env (6 * length ts + n) ?c" using assms(5) by (rule drawsFresh_same) simp_all
  with insertTracks_succeeds [OF assms(1), of ?c ts n Map.empty Map.empty] assms(2,4,6) obtain c1 where
    i: "insertTracks env Map.empty Map.empty ts ?c = (Inr (), c1)" and
    c1: "schemaOK (cn_db c1)" "artistsMatch (cn_db c1)" "drawsFresh env n c1" "cn_saved c1 = Some (cn_db c)" by auto
  from b i have "insertBatch env ts c = (Inr (), snd (endTx env None c1))"
    by (simp add: insertBatch_def del: beginTx_Inr)
  moreover have "drawsFresh env n ((ticked c1)\<lparr>cn_saved := None\<rparr>)" using c1(3) by (rule drawsFresh_same) simp_all
  ultimately show ?thesis using c1 endTx_commits [OF assms(1) c1(4)] by auto
qed

lemma writeResults_succeeds:
  assumes "faultless env" "schemaOK (cn_db c)" "cn_saved c = None" "artistsMatch (cn_db c)"
    and "drawsFresh env (6 * length results) c" "\<forall>t \<in> set results. nulFree t"
  shows "\<exists>c'. writeResults env results c = (Inr (), c') \<and> cn_saved c' = None \<and> schemaOK (cn_db c') \<and> artistsMatch (cn_db c')"
  using assms
proof (induction env results arbitrary: c rule: writeResults.induct)
  case (1 env results)
  show ?case
  proof (cases "results = []")
    case True
    with "1.prems" show ?thesis by (simp add: writeResults.simps tx_return_def)
  next
    case False
    have n: "6 * length results = 6 * length (take batchSize results) + 6 * length (drop batchSize results)"
      by simp
    from "1.prems" obtain c1 where
      b: "insertBatch env (take batchSize results) c = (Inr (), c1)" and
      c1: "cn_saved c1 = None" "schemaOK (cn_db c1)" "artistsMatch (cn_db c1)"
      "drawsFresh env (6 * length (drop batchSize results)) c1"
      using insertBatch_succeeds [of env c "take batchSize results" "6 * length (drop batchSize results)"]
      unfolding n by (auto dest: in_set_takeD)
    from "1.IH" [OF False "1.prems"(1) c1(2,1,3,4)] "1.prems"(6) obtain c' where
      "writeResults env (drop batchSize results) c1 = (Inr (), c')" "cn_saved c' = None" "schemaOK (cn_db c')"
      "artistsMatch (cn_db c')" by (auto dest: in_set_dropD)
    with b False show ?thesis
      by (subst writeResults.simps) (auto simp: tx_then_def tx_bind_def)
  qed
qed

section \<open>The rest of a scan succeeds\<close>

lemma filter_schema:
  assumes "schemaOK d"
  shows "schemaOK (d\<lparr>db_play := filter P (db_play d)\<rparr>)" "schemaOK (d\<lparr>db_star := filter Q (db_star d)\<rparr>)"
    "schemaOK (d\<lparr>db_plsong := filter R (db_plsong d)\<rparr>)"
  using assms by (auto simp: schemaOK_def playOK_def starOK_def playlistOK_def distinct_map_filter)

lemma refersTo_kept:
  assumes "refersTo f xs so_id (db_song d)"
  shows "refersTo f (filter (\<lambda>x. f x \<notin> idsOf d P) xs) so_id (filter (\<lambda>s. so_path s \<notin> P) (db_song d))"
proof -
  have kept: "so_id ` set (db_song d) \<subseteq> idsOf d P \<union> so_id ` set (filter (\<lambda>s. so_path s \<notin> P) (db_song d))"
    by (auto simp: idsOf_def)
  have "f x \<in> so_id ` set (filter (\<lambda>s. so_path s \<notin> P) (db_song d))" if "x \<in> set (filter (\<lambda>x. f x \<notin> idsOf d P) xs)" for x
    using refersToD [OF assms, of x] kept that by auto
  then show ?thesis by (simp add: refersTo_def list_all_iff)
qed

lemma removed_schema:
  assumes "schemaOK d"
  shows "schemaOK (removed d P)"
proof -
  have "libraryOK (db_artist d) (db_album d) (filter (\<lambda>s. so_path s \<notin> P) (db_song d))"
    using assms by (auto simp: schemaOK_def libraryOK_def distinct_map_filter)
  moreover have "refersTo ph_song (filter (\<lambda>p. ph_song p \<notin> idsOf d P) (db_play d)) so_id (filter (\<lambda>s. so_path s \<notin> P) (db_song d))"
    "refersTo ps_song (filter (\<lambda>e. ps_song e \<notin> idsOf d P) (db_plsong d)) so_id (filter (\<lambda>s. so_path s \<notin> P) (db_song d))"
    using assms by (auto simp: schemaOK_def playOK_def playlistOK_def intro!: refersTo_kept)
  ultimately show ?thesis
    using assms by (auto simp: removed_def schemaOK_def playOK_def starOK_def playlistOK_def distinct_map_filter)
qed

lemma deleteChunkBody_succeeds:
  assumes "faultless env" "schemaOK (cn_db c)"
  shows "\<exists>c'. deleteChunkBody env ps c = (Inr (), c')"
proof -
  let ?ids = "map so_id (filter (\<lambda>s. so_path s \<in> set ps) (db_song (cn_db c)))"
  let ?d1 = "(cn_db c)\<lparr>db_play := filter (\<lambda>p. ph_song p \<notin> set ?ids) (db_play (cn_db c))\<rparr>"
  let ?d2 = "?d1\<lparr>db_star := filter (\<lambda>s. \<not> (st_item s \<in> set ?ids \<and> st_type s = ''song'')) (db_star ?d1)\<rparr>"
  let ?d3 = "?d2\<lparr>db_plsong := filter (\<lambda>e. ps_song e \<notin> set ?ids) (db_plsong ?d2)\<rparr>"
  have ids: "set ?ids = idsOf (cn_db c) (set ps)" by (auto simp: idsOf_def)
  have ok: "schemaOK ?d1" "schemaOK ?d2" "schemaOK ?d3"
    using filter_schema assms(2) by blast+
  have r: "?d3\<lparr>db_song := filter (\<lambda>s. so_path s \<notin> set ps) (db_song ?d3)\<rparr> = removed (cn_db c) (set ps)"
    unfolding ids removed_def by simp
  then have ok': "schemaOK (?d3\<lparr>db_song := filter (\<lambda>s. so_path s \<notin> set ps) (db_song ?d3)\<rparr>)"
    using removed_schema [OF assms(2)] by simp
  define c0 where "c0 = (ticked c)\<lparr>cn_db := cn_db c\<rparr>"
  have q: "exec env (selecting (\<lambda>now d. map so_id (filter (\<lambda>s. so_path s \<in> set ps) (db_song d)))) c = (Inr ?ids, c0)"
    using assms(1) by (simp add: faultless_def c0_def)
  have rows: "\<exists>c'. exec env (deleteSongRows ps) c1 = (Inr (), c')" if "cn_db c1 = ?d3 \<or> cn_db c1 = cn_db c \<and> ?ids = []" for c1
  proof -
    have "schemaOK ((cn_db c1)\<lparr>db_song := filter (\<lambda>s. so_path s \<notin> set ps) (db_song (cn_db c1))\<rparr>)"
      using that ok' by (elim disjE) (simp_all del: set_map set_filter)
    then show ?thesis unfolding deleteSongRows_def by (subst execChecked [OF assms(1)]) simp_all
  qed
  show ?thesis
  proof (cases "?ids = []")
    case True
    with q rows [of c0] show ?thesis
      by (simp add: deleteChunkBody_def tx_bind_def tx_then_def tx_when_def tx_return_def c0_def del: exec_Inr)
  next
    case False
    have p: "exec env (deletePlays ?ids) c0 = (Inr (), (ticked c0)\<lparr>cn_db := ?d1\<rparr>)"
      unfolding deletePlays_def using ok(1) by (subst execChecked [OF assms(1)]) (simp_all add: c0_def del: set_map set_filter)
    define c1 where "c1 = (ticked c0)\<lparr>cn_db := ?d1\<rparr>"
    have s: "exec env (deleteSongStars ?ids) c1 = (Inr (), (ticked c1)\<lparr>cn_db := ?d2\<rparr>)"
      unfolding deleteSongStars_def using ok(2) by (subst execChecked [OF assms(1)]) (simp_all add: c1_def del: set_map set_filter)
    define c2 where "c2 = (ticked c1)\<lparr>cn_db := ?d2\<rparr>"
    have e: "exec env (deletePlaylistSongs ?ids) c2 = (Inr (), (ticked c2)\<lparr>cn_db := ?d3\<rparr>)"
      unfolding deletePlaylistSongs_def using ok(3) by (subst execChecked [OF assms(1)]) (simp_all add: c2_def del: set_map set_filter)
    from rows [of "(ticked c2)\<lparr>cn_db := ?d3\<rparr>"] q p s e False show ?thesis
      unfolding c1_def [symmetric] c2_def [symmetric]
      by (simp add: deleteChunkBody_def tx_bind_def tx_then_def tx_when_def del: exec_Inr)
  qed
qed

lemma deleteChunk_succeeds:
  assumes "faultless env" "schemaOK (cn_db c)" "cn_saved c = None"
  shows "\<exists>c'. deleteChunk env ps c = (Inr (), c')"
proof -
  let ?c = "(ticked c)\<lparr>cn_saved := Some (cn_db c)\<rparr>"
  have b: "beginTx env c = (Inr (), ?c)" using assms(1,3) by (simp add: faultless_def)
  from deleteChunkBody_succeeds [OF assms(1), of ?c ps] assms(2) obtain c1 where
    i: "deleteChunkBody env ps ?c = (Inr (), c1)" by auto
  then have "cn_saved c1 = Some (cn_db c)" using deleteChunkBody_effect by fastforce
  from endTx_commits [OF assms(1) this] b i show ?thesis
    by (simp add: deleteChunk_def del: beginTx_Inr)
qed

lemma deleteSongs_succeeds:
  assumes "faultless env" "schemaOK (cn_db c)" "cn_saved c = None"
  shows "\<exists>c'. deleteSongs env ps c = (Inr (), c')"
  using assms
proof (induction env ps arbitrary: c rule: deleteSongs.induct)
  case (1 env ps)
  show ?case
  proof (cases "ps = []")
    case False
    from deleteChunk_succeeds [OF "1.prems"] obtain c1 where b: "deleteChunk env (take chunkSize ps) c = (Inr (), c1)" by blast
    note e = deleteChunk_effect [OF b "1.prems"(1)]
    with "1.IH" [OF False "1.prems"(1), of c1] removed_schema [OF "1.prems"(2)] obtain c' where
      "deleteSongs env (drop chunkSize ps) c1 = (Inr (), c')" by auto
    with b False show ?thesis by (subst deleteSongs.simps) (auto simp: tx_then_def tx_bind_def)
  qed (simp add: deleteSongs.simps tx_return_def)
qed

lemma artistsMatch_removed: "artistsMatch d \<Longrightarrow> artistsMatch (removed d P)"
  by (auto simp: artistsMatch_def)

lemma artistsMatch_albums:
  assumes "artistsMatch d" "albumUpdate f"
  shows "artistsMatch (d\<lparr>db_album := map f (db_album d)\<rparr>)"
  using assms unfolding artistsMatch_def albumUpdate_def by fastforce

lemma refersTo_used:
  "refersTo f rows key ps \<Longrightarrow> f ` set rows \<subseteq> X \<Longrightarrow> refersTo f rows key (filter (\<lambda>a. key a \<in> X) ps)"
  unfolding refersTo_def list_all_iff by fastforce

lemma deleteOrphans_succeeds:
  assumes "faultless env" "schemaOK (cn_db c)" "artistsMatch (cn_db c)"
  shows "\<exists>c'. deleteOrphans env c = (Inr (), c') \<and> schemaOK (cn_db c') \<and> artistsMatch (cn_db c')"
proof -
  let ?d = "cn_db c"
  let ?d1 = "?d\<lparr>db_album := filter (\<lambda>a. al_id a \<in> so_album_id ` set (db_song ?d)) (db_album ?d)\<rparr>"
  let ?d2 = "?d1\<lparr>db_artist := filter (\<lambda>a. ar_id a \<in> al_artist_id ` set (db_album ?d1)) (db_artist ?d1)\<rparr>"
  have "\<exists>a \<in> set (db_album ?d1). al_id a = so_album_id s \<and> al_artist_id a = so_artist_id s" if "s \<in> set (db_song ?d)" for s
    using assms(3) that unfolding artistsMatch_def by fastforce
  then have match: "artistsMatch ?d1" "artistsMatch ?d2" by (simp_all add: artistsMatch_def)
  have ok1: "schemaOK ?d1"
    using assms(2) by (auto simp: schemaOK_def libraryOK_def distinct_map_filter intro!: refersTo_used)
  have "so_artist_id ` set (db_song ?d1) \<subseteq> al_artist_id ` set (db_album ?d1)"
    using match(1) unfolding artistsMatch_def by force
  with ok1 have "refersTo so_artist_id (db_song ?d1) ar_id (db_artist ?d2)" "refersTo al_artist_id (db_album ?d1) ar_id (db_artist ?d2)"
    by (simp_all add: schemaOK_def libraryOK_def refersTo_used)
  with ok1 have ok2: "schemaOK ?d2"
    by (simp add: schemaOK_def libraryOK_def distinct_map_filter)
  have a: "exec env deleteOrphanAlbums c = (Inr (), (ticked c)\<lparr>cn_db := ?d1\<rparr>)"
    unfolding deleteOrphanAlbums_def using ok1 by (subst execChecked [OF assms(1)]) simp_all
  have "exec env deleteOrphanArtists ((ticked c)\<lparr>cn_db := ?d1\<rparr>) = (Inr (), (ticked ((ticked c)\<lparr>cn_db := ?d1\<rparr>))\<lparr>cn_db := ?d2\<rparr>)"
    unfolding deleteOrphanArtists_def using ok2 by (subst execChecked [OF assms(1)]) simp_all
  with a ok2 match(2) show ?thesis by (simp add: deleteOrphans_def tx_then_def tx_bind_def del: exec_Inr)
qed

lemma albumUpdate_cover: "albumUpdate (withCover onDisk art d)"
  by (simp add: albumUpdate_def)

lemma albumUpdate_stats: "albumUpdate (withStats d)"
  by (simp add: albumUpdate_def)

lemma scanBody_succeeds:
  assumes "faultless env" "schemaOK (cn_db c)" "cn_saved c = None" "artistsMatch (cn_db c)"
    and "w = walk (knownFiles (cn_db c)) es" "results = deliver (wk_jobs w)" "\<forall>t \<in> set results. nulFree t"
    and "drawsFresh env (6 * length results) c" "distinct (map ti_path results)"
  shows "\<exists>c'. scanBody env es onDisk deliver c = (Inr (), c') \<and> artistsMatch (cn_db c')"
proof -
  let ?d = "cn_db c"
  define c0 where "c0 = (ticked c)\<lparr>cn_db := ?d\<rparr>"
  have c0: "cn_db c0 = ?d" "cn_saved c0 = None" "drawsFresh env (6 * length results) c0"
    using assms(3) drawsFresh_same [OF assms(8)] by (simp_all add: c0_def)
  have load: "exec env (selecting (\<lambda>now d. d)) c = (Inr ?d, c0)"
    using assms(1) by (simp add: faultless_def c0_def)
  from writeResults_succeeds [OF assms(1), of c0 results] c0 assms(2,4,7) obtain c1 where
    wr: "writeResults env results c0 = (Inr (), c1)" and c1: "cn_saved c1 = None" "schemaOK (cn_db c1)" "artistsMatch (cn_db c1)"
    by auto
  from deleteSongs_succeeds [OF assms(1) c1(2,1)] obtain c2 where
    delete: "deleteSongs env (gonePaths ?d w) c1 = (Inr (), c2)" by blast
  from deleteSongs_effect [OF delete assms(1) c1(1)] c1 have c2: "schemaOK (cn_db c2)" "cn_saved c2 = None" "artistsMatch (cn_db c2)"
    by (simp_all add: removed_schema artistsMatch_removed)
  from resolveAlbumArt_effect [OF assms(1) c2(1), of onDisk "wk_art w"] c2(2) obtain c3 where
    art: "resolveAlbumArt env onDisk (wk_art w) c2 = (Inr (), c3)" and
    d3: "cn_db c3 = (cn_db c2)\<lparr>db_album := map (withCover onDisk (wk_art w) (cn_db c2)) (db_album (cn_db c2))\<rparr>"
    and c3: "cn_saved c3 = None" "schemaOK (cn_db c3)" by auto
  have m3: "artistsMatch (cn_db c3)" unfolding d3 by (rule artistsMatch_albums [OF c2(3) albumUpdate_cover])
  define d4 where "d4 = (cn_db c3)\<lparr>db_album := map (withStats (cn_db c3)) (db_album (cn_db c3))\<rparr>"
  have d4: "schemaOK d4" "artistsMatch d4"
    unfolding d4_def using albumUpdate_schema [OF albumUpdate_stats] c3(2) artistsMatch_albums [OF m3 albumUpdate_stats] by simp_all
  define c4 where "c4 = (ticked c3)\<lparr>cn_db := d4\<rparr>"
  have stats: "updateAlbumStats env c3 = (Inr (), c4)"
    unfolding updateAlbumStats_def c4_def using d4(1) by (subst execChecked [OF assms(1)]) (simp_all add: d4_def)
  have c4: "cn_db c4 = d4" "cn_saved c4 = None" using c3(1) by (simp_all add: c4_def)
  from deleteOrphans_succeeds [OF assms(1), of c4] d4 c4(1) obtain c5 where
    orphans: "deleteOrphans env c4 = (Inr (), c5)" and c5: "schemaOK (cn_db c5)" "artistsMatch (cn_db c5)" by auto
  have "cn_saved c5 = None" using orphans_effect(1) [OF orphans] c4(2) by simp
  from rebuildFTS_succeeds [OF assms(1) c5(1) this] obtain c6 where
    fts: "rebuildFTS env c5 = (Inr (), c6)" and c6: "cn_db c6 = (cn_db c5)\<lparr>db_fts := Some (ftsRows (cn_db c5))\<rparr>" by blast
  have opt: "exec env (selecting (\<lambda>now d. ())) c6 = (Inr (), (ticked c6)\<lparr>cn_db := cn_db c6\<rparr>)"
    using assms(1) by (simp add: faultless_def)
  have "scanBody env es onDisk deliver c = (Inr (), (ticked c6)\<lparr>cn_db := cn_db c6\<rparr>)"
    unfolding scanBody_def scanStep_def Let_def
    by (simp add: load wr delete art stats orphans fts opt assms(5,6) [symmetric] del: exec_Inr)
  moreover have "artistsMatch (cn_db c6)" using c5(2) unfolding c6 artistsMatch_def by simp
  ultimately show ?thesis by simp
qed

lemma Run_returns:
  assumes "faultless env" "ev_pool env" "\<not> sc_scanning s" "connOK c" "cn_saved c = None" "artistsMatch (cn_db c)"
    and "w = walk (knownFiles (cn_db c)) es" "\<forall>t \<in> set (deliver (wk_jobs w)). nulFree t"
    and "delivers deliver" "distinct (map we_path es)"
    and "drawsFresh env (6 * length (deliver (wk_jobs w))) c"
  shows "\<exists>s' c'. Run env es onDisk deliver s c = (Inr (), s', c') \<and> artistsMatch (cn_db c')"
proof -
  have "distinct (map ti_path (deliver (wk_jobs w)))"
    using delivers_paths(2) [OF assms(9)] walk_jobs_distinct [OF assms(10)] assms(7) by simp
  moreover have "schemaOK (cn_db c)" using assms(4) by (simp add: connOK_def)
  ultimately have "\<exists>c'. scanBody env es onDisk deliver c = (Inr (), c') \<and> artistsMatch (cn_db c')"
    by (intro scanBody_succeeds [where results = "deliver (wk_jobs w)" and w = w] assms refl)
  then obtain c' where "scanBody env es onDisk deliver c = (Inr (), c') \<and> artistsMatch (cn_db c')" by blast
  with assms(2,3) show ?thesis by (auto simp: Run_def)
qed

text \<open>
  Claim C20. A scan that no fault disturbs succeeds, when every song's artist is its album's and the
  identifiers it draws are new; and it leaves every song's artist its album's again, so that the
  next one succeeds as well.
\<close>

theorem Run_succeeds:
  assumes "faultless env" "ev_pool env" "\<not> sc_scanning s" "connOK c" "cn_saved c = None" "artistsMatch (cn_db c)"
    and "w = walk (knownFiles (cn_db c)) es" "\<forall>t \<in> set (deliver (wk_jobs w)). nulFree t"
    and "delivers deliver" "distinct (map we_path es)"
    and "drawsFresh env (6 * length (deliver (wk_jobs w))) c"
  shows "\<exists>s' c'. Run env es onDisk deliver s c = (Inr (), s', c') \<and> artistsMatch (cn_db c')"
  by (rule Run_returns [OF assms])

section \<open>A concrete scan\<close>

text \<open>A library of two songs of which one is still on disk, unchanged; a new file beside it.\<close>

definition scanDb :: db where
  "scanDb = emptyDb\<lparr>
     db_artist := [\<lparr>ar_id = ''ar1'', ar_name = ''Artist''\<rparr>],
     db_album := [\<lparr>al_id = ''al1'', al_artist_id = ''ar1'', al_name = ''Album'', al_year = Some 1999,
                   al_genre = Some ''Rock'', al_cover_art = None, al_song_count = 2,
                   al_duration = 363, al_created = 1600000000\<rparr>],
     db_song := [(sampleSong 1 ''a'')\<lparr>so_path := ''/m/a.mp3''\<rparr>, (sampleSong 2 ''b'')\<lparr>so_path := ''/m/b.mp3''\<rparr>],
     db_star := [\<lparr>st_id = ''x'', st_user = ''ann'', st_item = ''b'', st_type = ''song'', st_created = 1600000000\<rparr>]\<rparr>"

definition scanFile :: "string \<Rightarrow> string \<Rightarrow> int \<Rightarrow> int \<Rightarrow> walkEntry" where
  "scanFile dir name mtime sz = \<lparr>we_path = dir @ name, we_err = False, we_dir = False, we_symlink = False,
     we_info = Some (mtime, sz), we_name = name\<rparr>"

definition scanEntries :: "walkEntry list" where
  "scanEntries = [scanFile ''/m/'' ''a.mp3'' 7 5000, scanFile ''/m/'' ''c.mp3'' 9 1000]"

definition scanDeliver :: "trackJob list \<Rightarrow> trackInfo list" where
  "scanDeliver = map (\<lambda>j. \<lparr>ti_path = tj_path j, ti_ext = ''mp3'', ti_contentType = tj_contentType j,
     ti_size = 1000, ti_fileMtime = 9, ti_title = ''C'', ti_artist = ''Artist'', ti_album = ''New'', ti_genre = ''Rock'',
     ti_year = 2001, ti_track = 1, ti_disc = 1, ti_duration = 60, ti_bitrate = 128\<rparr>)"

abbreviation idleScanner :: Scanner where
  "idleScanner \<equiv> \<lparr>sc_scanning = False, sc_count = 0\<rparr>"

lemma scanDb_ok: "schemaOK scanDb" "artistsMatch scanDb"
  by code_simp+

lemma scanDeliver_delivers: "delivers scanDeliver"
  by (simp add: delivers_def scanDeliver_def comp_def)

lemma scanEntries_walk:
  "wk_jobs (walk (knownFiles scanDb) scanEntries) = [\<lparr>tj_path = ''/m/c.mp3'', tj_ext = ''.mp3'', tj_contentType = ''audio/mpeg''\<rparr>]"
  "wk_seen (walk (knownFiles scanDb) scanEntries) = {''/m/a.mp3'', ''/m/c.mp3''}"
  by code_simp+

lemma drawn_sample:
  assumes "j < 6"
  shows "take 2 (drawn quietEnv j) = [char_of (48 :: nat), char_of (48 + j)]"
proof -
  have j: "unat (of_nat j :: 64 word) = j" "unat (of_nat j :: 8 word) = j"
    using assms by (simp_all add: unat_of_nat take_bit_nat_eq_self)
  have "take 2 (drawn quietEnv j) = [hexChar (j div 16), hexChar (j mod 16)]"
    using leBytes.simps(2) [of 7 "unat (of_nat j :: 64 word)"]
    by (simp add: drawn_def quietEnv_def newIDOf_def j numeral_2_eq_2)
  with assms show ?thesis by (simp add: hexChar_def)
qed

lemma length_hexEncode: "length (hexEncode bs) = 2 * length bs"
  by (induction bs) auto

lemma length_drawn: "length (drawn env j) = 32"
  by (simp add: drawn_def newIDOf_def length_hexEncode)

lemma scanDraws: "drawsFresh quietEnv 6 (connOf scanDb)"
  unfolding drawsFresh_def
proof (intro allI impI conjI)
  fix j :: nat assume j: "j < 6"
  have "\<forall>x \<in> usedIDs scanDb. length x \<noteq> 32" by code_simp
  then show "drawn quietEnv (cn_rnd (connOf scanDb) + j) \<notin> usedIDs (cn_db (connOf scanDb))"
    using length_drawn [of quietEnv j] by auto
  fix k assume k: "k < j"
  then have "char_of (48 + j) \<noteq> (char_of (48 + k) :: char)" using j by (auto simp: char_of_eq_iff take_bit_nat_eq_self)
  then have "take 2 (drawn quietEnv j) \<noteq> take 2 (drawn quietEnv k)" using j k by (simp add: drawn_sample)
  then show "drawn quietEnv (cn_rnd (connOf scanDb) + j) \<noteq> drawn quietEnv (cn_rnd (connOf scanDb) + k)" by auto
qed

lemma scanSample_run:
  obtains s' c' where "Run quietEnv scanEntries (\<lambda>_. False) scanDeliver idleScanner (connOf scanDb) = (Inr (), s', c')"
    "artistsMatch (cn_db c')"
proof -
  have f: "faultless quietEnv" by (simp add: faultless_def)
  have "drawsFresh quietEnv (6 * length (scanDeliver (wk_jobs (walk (knownFiles (cn_db (connOf scanDb))) scanEntries)))) (connOf scanDb)"
    using scanDraws by (simp add: scanEntries_walk scanDeliver_def)
  moreover have "\<forall>t \<in> set (scanDeliver (wk_jobs (walk (knownFiles (cn_db (connOf scanDb))) scanEntries))). nulFree t"
    by (simp add: scanEntries_walk scanDeliver_def nulFree_def)
  moreover have "distinct (map we_path scanEntries)" by (simp add: scanEntries_def scanFile_def)
  ultimately show thesis
    using that scanDb_ok f Run_returns [OF f _ _ _ _ _ refl _ scanDeliver_delivers]
    by (metis connOK_connOf connOf_simps(1,2) sampleEnv_simps(2) Scanner.select_convs(1))
qed

lemma scanSample_hyps:
  "faultless quietEnv" "connOK (connOf scanDb)" "cn_saved (connOf scanDb) = None"
  "distinct (map we_path scanEntries)"
  "\<forall>t \<in> set (scanDeliver (wk_jobs (walk (knownFiles (cn_db (connOf scanDb))) scanEntries))). nulFree t"
  by (simp_all add: faultless_def scanDb_ok scanEntries_walk scanDeliver_def nulFree_def scanEntries_def scanFile_def)

lemma scanSample_facts:
  "wk_skipped (walk (knownFiles scanDb) scanEntries) = 1" "goneIds scanDb {''/m/a.mp3'', ''/m/c.mp3''} = {''b''}"
  "so_path ` set (db_song scanDb) = {''/m/a.mp3'', ''/m/b.mp3''}" "db_playlist scanDb = []"
  "map st_item (db_star scanDb) = [''b'']" "map st_type (db_star scanDb) = [''song'']"
  by code_simp+

text \<open>The witnesses of the claims, at this scan.\<close>

theorem Run_succeeds_witness:
  "\<exists>s' c'. Run quietEnv scanEntries (\<lambda>_. False) scanDeliver idleScanner (connOf scanDb) = (Inr (), s', c')
    \<and> artistsMatch (cn_db c')"
  using Run_succeeds [where env = quietEnv and s = idleScanner and c = "connOf scanDb" and es = scanEntries
      and deliver = scanDeliver and onDisk = "\<lambda>_. False", OF scanSample_hyps(1) _ _ scanSample_hyps(2,3) _ refl
      _ scanDeliver_delivers scanSample_hyps(4)] scanSample_hyps(5) scanDb_ok(2) scanDraws
  by (simp add: scanEntries_walk scanDeliver_def)

theorem Run_safe_witness:
  "\<exists>r s' c'. Run quietEnv scanEntries (\<lambda>_. False) scanDeliver idleScanner (connOf scanDb) = (r, s', c')
    \<and> connOK c' \<and> \<not> sc_scanning s' \<and> librarySafe scanDb {''/m/a.mp3'', ''/m/c.mp3''} (committed c')"
proof -
  obtain r s' c' where e: "Run quietEnv scanEntries (\<lambda>_. False) scanDeliver idleScanner (connOf scanDb) = (r, s', c')"
    using prod_cases3 by blast
  from Run_safe [OF scanDeliver_delivers _ e] show ?thesis
    using e scanDb_ok(1) by (simp add: scanEntries_walk)
qed

theorem Run_library_witness:
  "\<exists>s' c'. Run quietEnv scanEntries (\<lambda>_. False) scanDeliver idleScanner (connOf scanDb) = (Inr (), s', c')
    \<and> so_path ` set (db_song (cn_db c')) = {''/m/a.mp3'', ''/m/c.mp3''} \<and> sc_count s' = 2"
proof -
  obtain s' c' where e: "Run quietEnv scanEntries (\<lambda>_. False) scanDeliver idleScanner (connOf scanDb) = (Inr (), s', c')"
    by (rule scanSample_run)
  note lib = Run_library [OF e scanSample_hyps(1-3) scanDeliver_delivers scanSample_hyps(4,5) refl]
  from conjunct1 [OF lib] have "so_path ` set (db_song (cn_db c')) = {''/m/a.mp3'', ''/m/c.mp3''}"
    by (simp only: connOf_simps scanEntries_walk scanSample_facts) (auto simp: scanDeliver_def)
  moreover from conjunct2 [OF conjunct2 [OF conjunct2 [OF lib]]] have "sc_count s' = 2"
    by (simp add: scanEntries_walk scanSample_facts scanDeliver_def)
  ultimately show ?thesis using e by blast
qed

theorem Run_forgets_witness:
  "\<exists>s' c'. Run quietEnv scanEntries (\<lambda>_. False) scanDeliver idleScanner (connOf scanDb) = (Inr (), s', c')
    \<and> db_star (cn_db c') = [] \<and> db_playlist (cn_db c') = []"
proof -
  obtain s' c' where e: "Run quietEnv scanEntries (\<lambda>_. False) scanDeliver idleScanner (connOf scanDb) = (Inr (), s', c')"
    by (rule scanSample_run)
  note forgets = Run_forgets [OF e scanSample_hyps(1-3) scanDeliver_delivers scanSample_hyps(4,5) refl]
  have "filter (\<lambda>x. st_type x = ''song'' \<longrightarrow> st_item x \<notin> {''b''}) (db_star scanDb) = []" by code_simp
  with forgets have "db_star (cn_db c') = [] \<and> db_playlist (cn_db c') = []"
    unfolding connOf_simps scanEntries_walk scanSample_facts by metis
  with e show ?thesis by blast
qed

theorem Run_derived_witness:
  "\<exists>s' c'. Run quietEnv scanEntries (\<lambda>_. False) scanDeliver idleScanner (connOf scanDb) = (Inr (), s', c')
    \<and> db_fts (cn_db c') = Some (ftsRows (cn_db c'))"
proof -
  obtain s' c' where e: "Run quietEnv scanEntries (\<lambda>_. False) scanDeliver idleScanner (connOf scanDb) = (Inr (), s', c')"
    by (rule scanSample_run)
  with Run_derived [OF e scanSample_hyps(1-3) scanDeliver_delivers scanSample_hyps(4,5) refl] show ?thesis by blast
qed

theorem rescan_unchanged_witness:
  "\<exists>s' c' s2 c2. Run quietEnv scanEntries (\<lambda>_. False) scanDeliver idleScanner (connOf scanDb) = (Inr (), s', c')
    \<and> Run quietEnv scanEntries (\<lambda>_. False) scanDeliver s' c' = (Inr (), s2, c2) \<and> cn_db c2 = cn_db c'"
proof -
  obtain s' c' where e: "Run quietEnv scanEntries (\<lambda>_. False) scanDeliver idleScanner (connOf scanDb) = (Inr (), s', c')"
    by (rule scanSample_run)
  have "ti_path ` set (scanDeliver (wk_jobs (walk (knownFiles (cn_db (connOf scanDb))) scanEntries)))
      = tj_path ` set (wk_jobs (walk (knownFiles (cn_db (connOf scanDb))) scanEntries))"
    by (simp add: scanDeliver_def image_image)
  moreover have "\<forall>e \<in> set scanEntries. \<forall>t \<in> set (scanDeliver (wk_jobs (walk (knownFiles (cn_db (connOf scanDb))) scanEntries))).
      ti_path t = we_path e \<longrightarrow> we_info e = Some (ti_fileMtime t, ti_size t)"
    by (simp only: connOf_simps scanEntries_walk) (simp add: scanDeliver_def scanEntries_def scanFile_def)
  ultimately show ?thesis
    using rescan_unchanged [OF e scanSample_hyps(1-3) scanDeliver_delivers scanSample_hyps(4,5) refl _ _ scanSample_hyps(1)
        sampleEnv_simps(2) scanDeliver_delivers] e by blast
qed

end
