(* ===== verification/Scan_Pipeline.thy ===== *)
theory Scan_Pipeline
  imports Scan_Facts
begin

text \<open>
  The concurrency of \<open>Run\<close> in \<open>internal/scanner/scanner.go\<close>: the walker sends its jobs on a
  channel, \<open>scanWorkers\<close> goroutines parse them and send the results on another, one goroutine
  receives these. A step is one communication or one parse; which goroutine moves next is open. A
  full channel blocks its sender, an empty open one its receiver. \<open>parse\<close> is \<open>readTrack\<close> on the
  file of a job, \<^const>\<open>None\<close> its error.
\<close>

definition scanWorkers :: nat where "scanWorkers = 32"

definition jobsBuffer :: nat where "jobsBuffer = 100"

definition resultsBuffer :: nat where "resultsBuffer = 500"

datatype worker = Waiting | Reading trackJob | Sending trackInfo | Finished

text \<open>The writer receives, or drains after a failed batch, or has ended, with an error or without.\<close>

datatype writer = Receiving | Draining | Ended bool

record pipeline =
  pp_walk :: "trackJob list"
  pp_jobs :: "trackJob list"
  pp_jobsClosed :: bool
  pp_workers :: "worker list"
  pp_results :: "trackInfo list"
  pp_resultsClosed :: bool
  pp_writer :: writer
  pp_received :: "trackInfo list"

definition startPipeline :: "trackJob list \<Rightarrow> pipeline" where
  "startPipeline js = \<lparr>pp_walk = js, pp_jobs = [], pp_jobsClosed = False,
     pp_workers = replicate scanWorkers Waiting, pp_results = [], pp_resultsClosed = False,
     pp_writer = Receiving, pp_received = []\<rparr>"

datatype pipeEvent =
    SendJob
  | CloseJobs
  | TakeJob nat
  | Quit nat
  | Parse nat
  | SendResult nat
  | CloseResults
  | Receive
  | BatchFails
  | Flush bool

definition workerAt :: "pipeline \<Rightarrow> nat \<Rightarrow> worker" where
  "workerAt s i = (if i < length (pp_workers s) then pp_workers s ! i else Finished)"

definition setWorker :: "nat \<Rightarrow> worker \<Rightarrow> pipeline \<Rightarrow> pipeline" where
  "setWorker i x s = s\<lparr>pp_workers := (pp_workers s)[i := x]\<rparr>"

text \<open>One step, \<^const>\<open>None\<close> when the goroutine concerned is blocked or has nothing to do.\<close>

fun pipeStep :: "(trackJob \<Rightarrow> trackInfo option) \<Rightarrow> pipeEvent \<Rightarrow> pipeline \<Rightarrow> pipeline option" where
  "pipeStep parse SendJob s =
     (case pp_walk s of
        j # js \<Rightarrow> if length (pp_jobs s) < jobsBuffer then Some (s\<lparr>pp_walk := js, pp_jobs := pp_jobs s @ [j]\<rparr>) else None
      | [] \<Rightarrow> None)"
| "pipeStep parse CloseJobs s =
     (if pp_walk s = [] \<and> \<not> pp_jobsClosed s then Some (s\<lparr>pp_jobsClosed := True\<rparr>) else None)"
| "pipeStep parse (TakeJob i) s =
     (case (workerAt s i, pp_jobs s) of
        (Waiting, j # js) \<Rightarrow> Some (setWorker i (Reading j) (s\<lparr>pp_jobs := js\<rparr>))
      | _ \<Rightarrow> None)"
| "pipeStep parse (Quit i) s =
     (if workerAt s i = Waiting \<and> pp_jobs s = [] \<and> pp_jobsClosed s then Some (setWorker i Finished s) else None)"
| "pipeStep parse (Parse i) s =
     (case workerAt s i of
        Reading j \<Rightarrow> Some (setWorker i (case parse j of Some t \<Rightarrow> Sending t | None \<Rightarrow> Waiting) s)
      | _ \<Rightarrow> None)"
| "pipeStep parse (SendResult i) s =
     (case workerAt s i of
        Sending t \<Rightarrow> if length (pp_results s) < resultsBuffer
          then Some (setWorker i Waiting (s\<lparr>pp_results := pp_results s @ [t]\<rparr>)) else None
      | _ \<Rightarrow> None)"
| "pipeStep parse CloseResults s =
     (if list_all (\<lambda>w. w = Finished) (pp_workers s) \<and> \<not> pp_resultsClosed s
      then Some (s\<lparr>pp_resultsClosed := True\<rparr>) else None)"
| "pipeStep parse Receive s =
     (case (pp_results s, pp_writer s) of
        (t # ts, Receiving) \<Rightarrow> Some (s\<lparr>pp_results := ts, pp_received := pp_received s @ [t]\<rparr>)
      | (t # ts, Draining) \<Rightarrow> Some (s\<lparr>pp_results := ts\<rparr>)
      | _ \<Rightarrow> None)"
| "pipeStep parse BatchFails s =
     (if pp_writer s = Receiving \<and> pp_received s \<noteq> [] \<and> length (pp_received s) mod batchSize = 0
      then Some (s\<lparr>pp_writer := Draining\<rparr>) else None)"
| "pipeStep parse (Flush err) s =
     (if pp_results s = [] \<and> pp_resultsClosed s then
        (case pp_writer s of
           Receiving \<Rightarrow> if err \<and> length (pp_received s) mod batchSize = 0 then None
             else Some (s\<lparr>pp_writer := Ended err\<rparr>)
         | Draining \<Rightarrow> Some (s\<lparr>pp_writer := Ended True\<rparr>)
         | Ended b \<Rightarrow> None)
      else None)"

text \<open>A run of \<open>n\<close> steps. \<open>Run\<close> goes on when the writer has ended.\<close>

inductive pipeRun :: "(trackJob \<Rightarrow> trackInfo option) \<Rightarrow> trackJob list \<Rightarrow> nat \<Rightarrow> pipeline \<Rightarrow> bool"
  for parse js where
  start: "pipeRun parse js 0 (startPipeline js)"
| step: "pipeRun parse js n s \<Longrightarrow> pipeStep parse e s = Some s' \<Longrightarrow> pipeRun parse js (Suc n) s'"

definition pipeEnded :: "pipeline \<Rightarrow> bool" where
  "pipeEnded s = (case pp_writer s of Ended b \<Rightarrow> True | _ \<Rightarrow> False)"

inductive_cases pipeRun_SucE: "pipeRun parse js (Suc n) s"

lemma workerAt_active: "workerAt s i \<noteq> Finished \<Longrightarrow> i < length (pp_workers s) \<and> pp_workers s ! i = workerAt s i"
  by (auto simp: workerAt_def split: if_splits)

lemma setWorker_simps [simp]:
  "pp_walk (setWorker i x s) = pp_walk s" "pp_jobs (setWorker i x s) = pp_jobs s"
  "pp_jobsClosed (setWorker i x s) = pp_jobsClosed s" "pp_workers (setWorker i x s) = (pp_workers s)[i := x]"
  "pp_results (setWorker i x s) = pp_results s" "pp_resultsClosed (setWorker i x s) = pp_resultsClosed s"
  "pp_writer (setWorker i x s) = pp_writer s" "pp_received (setWorker i x s) = pp_received s"
  by (simp_all add: setWorker_def)

section \<open>No run goes on for ever\<close>

fun workerWeight :: "worker \<Rightarrow> nat" where
  "workerWeight Waiting = 1"
| "workerWeight (Reading j) = 4"
| "workerWeight (Sending t) = 3"
| "workerWeight Finished = 0"

fun writerWeight :: "writer \<Rightarrow> nat" where
  "writerWeight Receiving = 2"
| "writerWeight Draining = 1"
| "writerWeight (Ended b) = 0"

definition weight :: "pipeline \<Rightarrow> nat" where
  "weight s = 5 * length (pp_walk s) + 4 * length (pp_jobs s) + sum_list (map workerWeight (pp_workers s))
     + length (pp_results s) + of_bool (\<not> pp_jobsClosed s) + of_bool (\<not> pp_resultsClosed s) + writerWeight (pp_writer s)"

lemma sum_list_set:
  "i < length ws \<Longrightarrow> sum_list (map f (ws[i := x])) + (f (ws ! i) :: nat) = sum_list (map f ws) + f x"
proof (induction ws arbitrary: i)
  case (Cons w ws)
  then show ?case by (cases i) auto
qed simp

lemma weight_step: "pipeStep parse e s = Some s' \<Longrightarrow> weight s' < weight s"
proof (cases e)
  case (TakeJob i)
  assume "pipeStep parse e s = Some s'"
  with TakeJob obtain j js where "workerAt s i = Waiting" "pp_jobs s = j # js" "s' = setWorker i (Reading j) (s\<lparr>pp_jobs := js\<rparr>)"
    by (auto split: worker.splits list.splits)
  then show ?thesis
    using workerAt_active [of s i] sum_list_set [of i "pp_workers s" workerWeight "Reading j"] by (simp add: weight_def)
next
  case (Quit i)
  assume "pipeStep parse e s = Some s'"
  with Quit show ?thesis
    using workerAt_active [of s i] sum_list_set [of i "pp_workers s" workerWeight Finished]
    by (auto simp: weight_def split: if_splits)
next
  case (Parse i)
  assume "pipeStep parse e s = Some s'"
  with Parse obtain j where "workerAt s i = Reading j" "s' = setWorker i (case parse j of Some t \<Rightarrow> Sending t | None \<Rightarrow> Waiting) s"
    by (auto split: worker.splits)
  then show ?thesis
    using workerAt_active [of s i] sum_list_set [of i "pp_workers s" workerWeight "case parse j of Some t \<Rightarrow> Sending t | None \<Rightarrow> Waiting"]
    by (cases "parse j") (simp_all add: weight_def)
next
  case (SendResult i)
  assume "pipeStep parse e s = Some s'"
  with SendResult obtain t where "workerAt s i = Sending t" "s' = setWorker i Waiting (s\<lparr>pp_results := pp_results s @ [t]\<rparr>)"
    by (auto split: worker.splits if_splits)
  then show ?thesis
    using workerAt_active [of s i] sum_list_set [of i "pp_workers s" workerWeight Waiting] by (simp add: weight_def)
qed (auto simp: weight_def split: list.splits writer.splits if_splits)

lemma weight_run: "pipeRun parse js n s \<Longrightarrow> n + weight s \<le> 5 * length js + 36"
proof (induction rule: pipeRun.induct)
  case start
  then show ?case by (simp add: weight_def startPipeline_def scanWorkers_def sum_list_replicate)
next
  case (step n s e s')
  with weight_step [OF step.hyps(2)] show ?case by simp
qed

section \<open>No run gets stuck\<close>

lemma not_stuck:
  assumes "\<not> pipeEnded s"
  shows "\<exists>e s'. pipeStep parse e s = Some s'"
proof (cases "pp_results s")
  case (Cons t ts)
  with assms have "\<exists>s'. pipeStep parse Receive s = Some s'" by (cases "pp_writer s") (simp_all add: pipeEnded_def)
  then show ?thesis by blast
next
  case Nil
  show ?thesis
  proof (cases "list_all (\<lambda>w. w = Finished) (pp_workers s)")
    case True
    show ?thesis
    proof (cases "pp_resultsClosed s")
      case True
      with Nil assms have "\<exists>s'. pipeStep parse (Flush False) s = Some s'" by (cases "pp_writer s") (simp_all add: pipeEnded_def)
      then show ?thesis by blast
    next
      case False
      with True have "pipeStep parse CloseResults s = Some (s\<lparr>pp_resultsClosed := True\<rparr>)" by simp
      then show ?thesis by blast
    qed
  next
    case False
    then obtain i where i: "i < length (pp_workers s)" "pp_workers s ! i \<noteq> Finished"
      by (auto simp: list_all_length)
    then have w: "workerAt s i = pp_workers s ! i" by (simp add: workerAt_def)
    show ?thesis
    proof (cases "workerAt s i")
      case Waiting
      show ?thesis
      proof (cases "pp_jobs s")
        case (Cons j js)
        with Waiting have "\<exists>s'. pipeStep parse (TakeJob i) s = Some s'" by simp
        then show ?thesis by blast
      next
        case Nil
        show ?thesis
        proof (cases "pp_jobsClosed s")
          case True
          with Waiting Nil have "\<exists>s'. pipeStep parse (Quit i) s = Some s'" by simp
          then show ?thesis by blast
        next
          case False
          with Nil have "(\<exists>s'. pipeStep parse SendJob s = Some s') \<or> (\<exists>s'. pipeStep parse CloseJobs s = Some s')"
            by (cases "pp_walk s") (simp_all add: jobsBuffer_def)
          then show ?thesis by blast
        qed
      qed
    next
      case (Reading j)
      then have "\<exists>s'. pipeStep parse (Parse i) s = Some s'" by simp
      then show ?thesis by blast
    next
      case (Sending t)
      with Nil have "\<exists>s'. pipeStep parse (SendResult i) s = Some s'" by (simp add: resultsBuffer_def)
      then show ?thesis by blast
    next
      case Finished
      with i w show ?thesis by simp
    qed
  qed
qed

section \<open>Nothing is lost or received twice\<close>

text \<open>The results a worker still has to send, and all results on their way or received.\<close>

fun workerResults :: "(trackJob \<Rightarrow> trackInfo option) \<Rightarrow> worker \<Rightarrow> trackInfo list" where
  "workerResults parse (Reading j) = (case parse j of Some t \<Rightarrow> [t] | None \<Rightarrow> [])"
| "workerResults parse (Sending t) = [t]"
| "workerResults parse _ = []"

definition onTheWay :: "(trackJob \<Rightarrow> trackInfo option) \<Rightarrow> pipeline \<Rightarrow> trackInfo multiset" where
  "onTheWay parse s = mset (List.map_filter parse (pp_walk s)) + mset (List.map_filter parse (pp_jobs s))
     + mset (concat (map (workerResults parse) (pp_workers s))) + mset (pp_results s) + mset (pp_received s)"

lemma concat_set:
  "i < length ws \<Longrightarrow> mset (concat (map f (ws[i := x]))) + mset (f (ws ! i)) = mset (concat (map f ws)) + mset (f x)"
proof (induction ws arbitrary: i)
  case (Cons w ws)
  then show ?case by (cases i) (auto simp: ac_simps)
qed simp

definition failed :: "pipeline \<Rightarrow> bool" where
  "failed s \<longleftrightarrow> pp_writer s = Draining \<or> pp_writer s = Ended True"

lemma onTheWay_step:
  assumes "pipeStep parse e s = Some s'"
  shows "onTheWay parse s' \<subseteq># onTheWay parse s \<and> (pp_writer s \<noteq> Draining \<longrightarrow> onTheWay parse s' = onTheWay parse s)"
proof (cases e)
  case (TakeJob i)
  with assms obtain j js where "workerAt s i = Waiting" "pp_jobs s = j # js" "s' = setWorker i (Reading j) (s\<lparr>pp_jobs := js\<rparr>)"
    by (auto split: worker.splits list.splits)
  then show ?thesis
    using workerAt_active [of s i] concat_set [of i "pp_workers s" "workerResults parse" "Reading j"]
    by (simp add: onTheWay_def map_filter_simps split: option.splits)
next
  case (Quit i)
  with assms show ?thesis
    using workerAt_active [of s i] concat_set [of i "pp_workers s" "workerResults parse" Finished]
    by (auto simp: onTheWay_def split: if_splits)
next
  case (Parse i)
  with assms obtain j where "workerAt s i = Reading j" "s' = setWorker i (case parse j of Some t \<Rightarrow> Sending t | None \<Rightarrow> Waiting) s"
    by (auto split: worker.splits)
  then show ?thesis
    using workerAt_active [of s i] concat_set [of i "pp_workers s" "workerResults parse" "case parse j of Some t \<Rightarrow> Sending t | None \<Rightarrow> Waiting"]
    by (cases "parse j") (simp_all add: onTheWay_def)
next
  case (SendResult i)
  with assms obtain t where "workerAt s i = Sending t" "s' = setWorker i Waiting (s\<lparr>pp_results := pp_results s @ [t]\<rparr>)"
    by (auto split: worker.splits if_splits)
  then show ?thesis
    using workerAt_active [of s i] concat_set [of i "pp_workers s" "workerResults parse" Waiting] by (simp add: onTheWay_def)
qed (use assms in \<open>auto simp: onTheWay_def map_filter_def map_filter_simps split: list.splits writer.splits if_splits\<close>)

definition parsed :: "(trackJob \<Rightarrow> trackInfo option) \<Rightarrow> trackJob list \<Rightarrow> trackInfo multiset" where
  "parsed parse js = mset (List.map_filter parse js)"

lemma onTheWay_run:
  "pipeRun parse js n s \<Longrightarrow> onTheWay parse s \<subseteq># parsed parse js \<and> (failed s \<or> onTheWay parse s = parsed parse js)"
proof (induction rule: pipeRun.induct)
  case start
  have "concat (map (workerResults parse) (replicate scanWorkers Waiting)) = []"
    by (simp add: concat_eq_Nil_conv)
  then show ?case by (simp add: onTheWay_def startPipeline_def parsed_def map_filter_simps)
next
  case (step n s e s')
  have "failed s \<Longrightarrow> failed s'"
    using step.hyps(2) by (cases e) (auto simp: failed_def split: list.splits writer.splits worker.splits if_splits option.splits)
  moreover have "pp_writer s = Draining \<Longrightarrow> failed s" by (simp add: failed_def)
  ultimately show ?case
    using onTheWay_step [OF step.hyps(2)] step.IH by (metis subset_mset.order_trans)
qed

text \<open>The order in which channels are closed and goroutines end.\<close>

definition inOrder :: "pipeline \<Rightarrow> bool" where
  "inOrder s \<longleftrightarrow> length (pp_workers s) = scanWorkers
     \<and> (pp_jobsClosed s \<longrightarrow> pp_walk s = [])
     \<and> (Finished \<in> set (pp_workers s) \<longrightarrow> pp_jobsClosed s \<and> pp_jobs s = [])
     \<and> (pp_resultsClosed s \<longrightarrow> set (pp_workers s) = {Finished})
     \<and> (pipeEnded s \<longrightarrow> pp_resultsClosed s \<and> pp_results s = [])
     \<and> length (pp_jobs s) \<le> jobsBuffer \<and> length (pp_results s) \<le> resultsBuffer"

lemma active_worker:
  assumes "inOrder s" "workerAt s i \<noteq> Finished"
  shows "\<not> pp_resultsClosed s" "\<not> pipeEnded s"
    "x \<noteq> Finished \<Longrightarrow> Finished \<in> set ((pp_workers s)[i := x]) \<Longrightarrow> Finished \<in> set (pp_workers s)"
proof -
  have "workerAt s i \<in> set (pp_workers s)" using workerAt_active [OF assms(2)] nth_mem by metis
  then have "set (pp_workers s) \<noteq> {Finished}" using assms(2) by blast
  then show "\<not> pp_resultsClosed s" using assms(1) by (auto simp: inOrder_def)
  then show "\<not> pipeEnded s" using assms(1) by (auto simp: inOrder_def)
  show "Finished \<in> set (pp_workers s)" if "x \<noteq> Finished" "Finished \<in> set ((pp_workers s)[i := x])"
    using that set_update_subset_insert by fastforce
qed

lemma ended_simps [simp]:
  "pipeEnded (s\<lparr>pp_walk := x1\<rparr>) = pipeEnded s" "pipeEnded (s\<lparr>pp_jobs := x2\<rparr>) = pipeEnded s"
  "pipeEnded (s\<lparr>pp_jobsClosed := x3\<rparr>) = pipeEnded s" "pipeEnded (s\<lparr>pp_workers := x4\<rparr>) = pipeEnded s"
  "pipeEnded (s\<lparr>pp_results := x5\<rparr>) = pipeEnded s" "pipeEnded (s\<lparr>pp_resultsClosed := x6\<rparr>) = pipeEnded s"
  "pipeEnded (s\<lparr>pp_received := x7\<rparr>) = pipeEnded s" "pipeEnded (setWorker i x s) = pipeEnded s"
  by (simp_all add: pipeEnded_def)

lemma inOrder_writer:
  "inOrder s \<Longrightarrow> (pipeEnded (s\<lparr>pp_writer := x\<rparr>) \<Longrightarrow> pp_resultsClosed s \<and> pp_results s = [])
    \<Longrightarrow> inOrder (s\<lparr>pp_writer := x\<rparr>)"
  unfolding inOrder_def by simp

lemma closeResults_Some:
  assumes "pipeStep parse CloseResults s = Some s'"
  shows "list_all (\<lambda>w. w = Finished) (pp_workers s)" "s' = s\<lparr>pp_resultsClosed := True\<rparr>"
proof -
  let ?all = "list_all (\<lambda>w. w = Finished) (pp_workers s)"
  show "?all" using assms by (cases ?all) (simp_all only: pipeStep.simps simp_thms if_False option.distinct)
  with assms show "s' = s\<lparr>pp_resultsClosed := True\<rparr>" 
    by (cases "pp_resultsClosed s") simp_all
qed

lemma inOrder_step:
  assumes "inOrder s" "pipeStep parse e s = Some s'"
  shows "inOrder s'"
proof (cases e)
  case SendJob
  with assms show ?thesis by (auto simp: inOrder_def split: list.splits if_splits)
next
  case CloseJobs
  with assms show ?thesis by (auto simp: inOrder_def split: if_splits)
next
  case (TakeJob i)
  with assms(2) obtain j js where s': "workerAt s i = Waiting" "pp_jobs s = j # js" "s' = setWorker i (Reading j) (s\<lparr>pp_jobs := js\<rparr>)"
    by (auto split: worker.splits list.splits)
  then show ?thesis
    using assms(1) active_worker(1,2) [OF assms(1), of i] active_worker(3) [OF assms(1), of i "Reading j"] by (auto simp: inOrder_def)
next
  case (Quit i)
  with assms(2) have s': "workerAt s i = Waiting" "pp_jobs s = []" "pp_jobsClosed s" "s' = setWorker i Finished s"
    by (auto split: if_splits)
  then show ?thesis using assms(1) active_worker(1,2) [OF assms(1), of i] by (simp add: inOrder_def)
next
  case (Parse i)
  with assms(2) obtain j where s': "workerAt s i = Reading j" "s' = setWorker i (case parse j of Some t \<Rightarrow> Sending t | None \<Rightarrow> Waiting) s"
    by (auto split: worker.splits)
  then show ?thesis
    using assms(1) active_worker(1,2) [OF assms(1), of i] active_worker(3) [OF assms(1), of i "case parse j of Some t \<Rightarrow> Sending t | None \<Rightarrow> Waiting"]
    by (cases "parse j") (auto simp: inOrder_def)
next
  case (SendResult i)
  with assms(2) obtain t where s': "workerAt s i = Sending t" "length (pp_results s) < resultsBuffer"
      "s' = setWorker i Waiting (s\<lparr>pp_results := pp_results s @ [t]\<rparr>)"
    by (auto split: worker.splits if_splits)
  then show ?thesis
    using assms(1) active_worker(1,2) [OF assms(1), of i] active_worker(3) [OF assms(1), of i Waiting] by (auto simp: inOrder_def)
next
  case CloseResults
  from assms(2) have "pipeStep parse CloseResults s = Some s'" unfolding CloseResults .
  then have s': "list_all (\<lambda>w. w = Finished) (pp_workers s)" "s' = s\<lparr>pp_resultsClosed := True\<rparr>"
    by (rule closeResults_Some)+
  have "length (pp_workers s) = 32" using assms(1) unfolding inOrder_def scanWorkers_def by blast
  then have "pp_workers s \<noteq> []" by auto
  with s'(1) have "set (pp_workers s) = {Finished}" by (cases "pp_workers s") (auto simp: list_all_iff)
  with assms(1) s'(2) show ?thesis by (simp add: inOrder_def)
next
  case Receive
  with assms(2) obtain x ts where s': "pp_results s = x # ts"
      "s' = s\<lparr>pp_results := ts, pp_received := pp_received s @ [x]\<rparr> \<or> s' = s\<lparr>pp_results := ts\<rparr>"
    by (auto split: list.splits writer.splits)
  with assms(1) show ?thesis unfolding inOrder_def by (elim disjE) simp_all
next
  case BatchFails
  with assms(2) have s': "s' = s\<lparr>pp_writer := Draining\<rparr>" by (auto split: if_splits)
  show ?thesis unfolding s' by (rule inOrder_writer [OF assms(1)]) (simp add: pipeEnded_def)
next
  case (Flush b)
  with assms(2) obtain x where s': "s' = s\<lparr>pp_writer := x\<rparr>" "pp_resultsClosed s \<and> pp_results s = []"
    by (auto split: if_splits writer.splits)
  show ?thesis unfolding s'(1) by (rule inOrder_writer [OF assms(1)]) (rule s'(2))
qed

lemma inOrder_run: "pipeRun parse js n s \<Longrightarrow> inOrder s"
proof (induction rule: pipeRun.induct)
  case start
  then show ?case by (simp add: inOrder_def startPipeline_def pipeEnded_def scanWorkers_def)
next
  case (step n s e s')
  then show ?case using inOrder_step by blast
qed

lemma ended_received:
  assumes "pipeRun parse js n s" "pipeEnded s"
  shows "onTheWay parse s = mset (pp_received s)"
proof -
  have o: "inOrder s" by (rule inOrder_run [OF assms(1)])
  with assms(2) have "set (pp_workers s) = {Finished}" "pp_results s = []" "pp_jobs s = []" "pp_walk s = []"
    by (auto simp: inOrder_def)
  then show ?thesis by (simp add: onTheWay_def map_filter_simps concat_eq_Nil_conv)
qed

section \<open>The pipeline as \<open>scanBody\<close> uses it\<close>

lemma parsed_paths:
  assumes "\<forall>j t. parse j = Some t \<longrightarrow> ti_path t = tj_path j"
  shows "mset (map ti_path (List.map_filter parse js)) \<subseteq># mset (map tj_path js)"
proof (induction js)
  case (Cons j js)
  then show ?case
    using assms by (cases "parse j") (auto simp: map_filter_simps subset_mset.le_add_same_cancel1 intro: subset_mset.order_trans)
qed (simp add: map_filter_simps)

text \<open>What a worker does with a job: \<open>readTrack\<close> on the file at its path.\<close>

definition parseJob ::
  "(bytes \<Rightarrow> foreignTags option option) \<Rightarrow> (string \<Rightarrow> io_error + (int \<times> int)) \<Rightarrow> (string \<Rightarrow> openFile option)
    \<Rightarrow> trackJob \<Rightarrow> trackInfo option" where
  "parseJob readFrom ffprobe files j =
     readTrack readFrom (ffprobe (tj_path j)) (tj_path j) (tj_ext j) (tj_contentType j) (files (tj_path j))"

lemma parseJob_path: "parseJob readFrom ffprobe files j = Some t \<Longrightarrow> ti_path t = tj_path j"
  by (auto simp: parseJob_def readTrack_def Let_def split: option.splits prod.splits)

text \<open>
  Claim C22. The pipeline of a scan always comes to its end: no run has more than \<open>5 * n + 36\<close> steps
  for \<open>n\<close> jobs, whatever the scheduler does, and as long as the writer has not ended some goroutine
  can move. So every scheduling reaches an end, and the channels never hold more than their buffers.
\<close>

theorem pipeline_terminates:
  assumes "pipeRun parse js n s"
  shows "n \<le> 5 * length js + 36
    \<and> (pipeEnded s \<or> (\<exists>e s'. pipeStep parse e s = Some s' \<and> pipeRun parse js (Suc n) s'))
    \<and> length (pp_jobs s) \<le> jobsBuffer \<and> length (pp_results s) \<le> resultsBuffer"
proof (intro conjI)
  show "n \<le> 5 * length js + 36" using weight_run [OF assms] by simp
  show "pipeEnded s \<or> (\<exists>e s'. pipeStep parse e s = Some s' \<and> pipeRun parse js (Suc n) s')"
    using not_stuck [of s parse] pipeRun.step [OF assms] by blast
  show "length (pp_jobs s) \<le> jobsBuffer" "length (pp_results s) \<le> resultsBuffer"
    using inOrder_run [OF assms] by (auto simp: inOrder_def)
qed

text \<open>
  Claim C23. When the writer ends without an error it has received exactly the results of the jobs
  that could be parsed, each once, in some order; with an error, some of them, each at most once.
  Either way they are at most one result per job: what \<open>scanBody\<close> expects of its pipeline.
\<close>

theorem pipeline_delivers:
  assumes "pipeRun (parseJob readFrom ffprobe files) js n s" "pipeEnded s"
  shows "(pp_writer s = Ended False \<longrightarrow> mset (pp_received s) = mset (List.map_filter (parseJob readFrom ffprobe files) js))
    \<and> mset (pp_received s) \<subseteq># mset (List.map_filter (parseJob readFrom ffprobe files) js)
    \<and> delivers (\<lambda>jobs. if jobs = js then pp_received s else [])"
proof -
  note run = onTheWay_run [OF assms(1), unfolded ended_received [OF assms] parsed_def]
  have "mset (map ti_path (pp_received s)) \<subseteq># mset (map ti_path (List.map_filter (parseJob readFrom ffprobe files) js))"
    using image_mset_subseteq_mono [OF conjunct1 [OF run], of ti_path] by simp
  also have "\<dots> \<subseteq># mset (map tj_path js)"
    by (rule parsed_paths) (use parseJob_path in blast)
  finally have "delivers (\<lambda>jobs. if jobs = js then pp_received s else [])" by (simp add: delivers_def)
  with run show ?thesis by (auto simp: failed_def)
qed

section \<open>A concrete run\<close>

fun runEvents :: "(trackJob \<Rightarrow> trackInfo option) \<Rightarrow> pipeEvent list \<Rightarrow> pipeline \<Rightarrow> pipeline option" where
  "runEvents parse [] s = Some s"
| "runEvents parse (e # es) s = (case pipeStep parse e s of None \<Rightarrow> None | Some s' \<Rightarrow> runEvents parse es s')"

lemma runEvents_run:
  "pipeRun parse js n s \<Longrightarrow> runEvents parse es s = Some s' \<Longrightarrow> pipeRun parse js (n + length es) s'"
proof (induction es arbitrary: n s)
  case (Cons e es)
  from Cons.prems(2) obtain s1 where s1: "pipeStep parse e s = Some s1" "runEvents parse es s1 = Some s'"
    by (auto split: option.splits)
  from Cons.IH [OF pipeRun.step [OF Cons.prems(1) s1(1)] s1(2)] show ?case by simp
qed simp

definition sampleParse :: "trackJob \<Rightarrow> trackInfo option" where
  "sampleParse = parseJob (\<lambda>b. Some None) (\<lambda>p. Inr (60, 128)) (\<lambda>p. Some \<lparr>of_bytes = [], of_size = 10, of_mtime = 7\<rparr>)"

definition sampleJob :: trackJob where
  "sampleJob = \<lparr>tj_path = ''/m/x.wav'', tj_ext = ''.wav'', tj_contentType = ''audio/wav''\<rparr>"

definition sampleEvents :: "pipeEvent list" where
  "sampleEvents = [SendJob, TakeJob 3, CloseJobs] @ map Quit [0..<3] @ [Parse 3, SendResult 3, Receive]
     @ map Quit [3..<32] @ [CloseResults, Flush False]"

lemma sampleRun:
  obtains s where "pipeRun sampleParse [sampleJob] 40 s" "pp_writer s = Ended False"
proof -
  have "map_option pp_writer (runEvents sampleParse sampleEvents (startPipeline [sampleJob])) = Some (Ended False)"
    by code_simp
  then obtain s where s: "runEvents sampleParse sampleEvents (startPipeline [sampleJob]) = Some s" "pp_writer s = Ended False"
    by auto
  from runEvents_run [OF pipeRun.start s(1)] have "pipeRun sampleParse [sampleJob] 40 s"
    by (simp add: sampleEvents_def)
  with s(2) that show thesis by blast
qed

theorem pipeline_terminates_witness:
  "\<exists>s. pipeRun sampleParse [sampleJob] 40 s \<and> (40::nat) \<le> 5 * length [sampleJob] + 36 \<and> pipeEnded s"
proof -
  obtain s where s: "pipeRun sampleParse [sampleJob] 40 s" "pp_writer s = Ended False" by (rule sampleRun)
  from pipeline_terminates [OF s(1)] s show ?thesis by (auto simp: pipeEnded_def)
qed

theorem pipeline_delivers_witness:
  "\<exists>s. pipeRun sampleParse [sampleJob] 40 s \<and> map ti_path (pp_received s) = [''/m/x.wav'']"
proof -
  obtain s where s: "pipeRun sampleParse [sampleJob] 40 s" "pp_writer s = Ended False" by (rule sampleRun)
  have "map_option ti_path (sampleParse sampleJob) = Some ''/m/x.wav''" by code_simp
  then obtain t where t: "sampleParse sampleJob = Some t" "ti_path t = ''/m/x.wav''" by auto
  from pipeline_delivers [of "\<lambda>b. Some None" "\<lambda>p. Inr (60, 128)" "\<lambda>p. Some \<lparr>of_bytes = [], of_size = 10, of_mtime = 7\<rparr>"
      "[sampleJob]" 40 s, folded sampleParse_def] s
  have "mset (pp_received s) = mset (List.map_filter sampleParse [sampleJob])" by (auto simp: pipeEnded_def)
  also have "\<dots> = {#t#}" by (simp add: map_filter_simps t(1))
  finally have "pp_received s = [t]" by (simp add: mset_single_iff)
  with s t(2) show ?thesis by auto
qed

end
