(* ===== verification/Mux.thy ===== *)
theory Mux
  imports Http
begin

text \<open>
  What the program uses of \<open>http.ServeMux\<close> (Go 1.22 and later): patterns with an optional method,
  literal and wildcard segments, and subtrees; the most specific match wins, \<open>GET\<close> also serves
  \<open>HEAD\<close>, and a path that lacks the final slash of a registered subtree is redirected to it. Paths
  are taken clean and without escapes (the multiplexer redirects the others to their clean form).
  Nothing here is code of the repository, so nothing here is mapped to its lines.
\<close>

section \<open>Patterns\<close>

datatype segment = Lit string | Wild

record pattern =
  pt_method :: string
  pt_segs :: "segment list"
  pt_subtree :: bool

definition pathSegs :: "string \<Rightarrow> string list" where
  "pathSegs path = splitOn (CHR ''/'') (drop 1 path)"

definition segOf :: "string \<Rightarrow> segment" where
  "segOf s = (if hasPrefix s ''{'' then Wild else Lit s)"

text \<open>The pattern of a methodod (empty for any) and a path of the routing tables.\<close>

definition pat :: "string \<Rightarrow> string \<Rightarrow> pattern" where
  "pat meth path =
     (let segs = pathSegs path; sub = (last segs = '''') in
      \<lparr>pt_method = meth, pt_segs = map segOf (if sub then butlast segs else segs), pt_subtree = sub\<rparr>)"

section \<open>Matching\<close>

text \<open>The values of the wildcards, if the path matches.\<close>

fun matchSegs :: "bool \<Rightarrow> segment list \<Rightarrow> string list \<Rightarrow> string list option" where
  "matchSegs sub [] [] = (if sub then None else Some [])"
| "matchSegs sub [] (s # ss) = (if sub then Some [] else None)"
| "matchSegs sub (p # ps) [] = None"
| "matchSegs sub (Lit l # ps) (s # ss) = (if l = s then matchSegs sub ps ss else None)"
| "matchSegs sub (Wild # ps) (s # ss) =
     (if s = '''' then None else map_option (\<lambda>vs. s # vs) (matchSegs sub ps ss))"

definition methodOK :: "pattern \<Rightarrow> string \<Rightarrow> bool" where
  "methodOK p meth \<longleftrightarrow> pt_method p = '''' \<or> pt_method p = meth
     \<or> pt_method p = ''GET'' \<and> meth = ''HEAD''"

definition matchPath :: "pattern \<Rightarrow> string list \<Rightarrow> string list option" where
  "matchPath p segs = matchSegs (pt_subtree p) (pt_segs p) segs"

text \<open>Among patterns that match one path the one with more segments is the more specific.\<close>

fun mostSpecific :: "(pattern \<times> 'h) list \<Rightarrow> (pattern \<times> 'h) option" where
  "mostSpecific [] = None"
| "mostSpecific (x # xs) =
     (case mostSpecific xs of
        None \<Rightarrow> Some x
      | Some y \<Rightarrow> if length (pt_segs (fst y)) > length (pt_segs (fst x)) then Some y else Some x)"

definition muxMatch :: "(pattern \<times> 'h) list \<Rightarrow> string \<Rightarrow> string list \<Rightarrow> (pattern \<times> 'h) option" where
  "muxMatch tbl meth segs =
     mostSpecific (filter (\<lambda>(p, h). methodOK p meth \<and> matchPath p segs \<noteq> None) tbl)"

definition exactMatch :: "(pattern \<times> 'h) option \<Rightarrow> string list \<Rightarrow> bool" where
  "exactMatch m segs =
     (case m of None \<Rightarrow> False
      | Some (p, h) \<Rightarrow> pt_subtree p \<longrightarrow> length segs = Suc (length (pt_segs p)) \<and> last segs = '''')"

datatype 'h muxResult =
    Matched 'h "string list"
  | MuxRedirect string
  | MuxNotAllowed
  | MuxNotFound

definition mux :: "(pattern \<times> 'h) list \<Rightarrow> string \<Rightarrow> string \<Rightarrow> 'h muxResult" where
  "mux tbl meth path =
     (let segs = pathSegs path; m = muxMatch tbl meth segs in
      if \<not> exactMatch m segs \<and> last segs \<noteq> '''' \<and> exactMatch (muxMatch tbl meth (segs @ [''''])) (segs @ [''''])
      then MuxRedirect (path @ ''/'')
      else case m of
        Some (p, h) \<Rightarrow> Matched h (case matchPath p segs of Some vs \<Rightarrow> vs | None \<Rightarrow> [])
      | None \<Rightarrow>
          if list_ex (\<lambda>(p, h). matchPath p segs \<noteq> None) tbl then MuxNotAllowed else MuxNotFound)"

section \<open>Facts\<close>

lemma mostSpecific_set: "mostSpecific xs = Some x \<Longrightarrow> x \<in> set xs"
  by (induction xs arbitrary: x) (auto split: option.splits if_splits)

lemma muxMatch_table:
  "muxMatch tbl meth segs = Some (p, h) \<Longrightarrow> (p, h) \<in> set tbl \<and> methodOK p meth \<and> matchPath p segs \<noteq> None"
  by (auto simp: muxMatch_def dest!: mostSpecific_set)

text \<open>Only a handler of the table is reached, and only by its method and path.\<close>

lemma mux_Matched:
  assumes "mux tbl meth path = Matched h vs"
  obtains p where "(p, h) \<in> set tbl" "methodOK p meth" "matchPath p (pathSegs path) = Some vs"
  using assms muxMatch_table [of tbl meth "pathSegs path"]
  by (auto simp: mux_def Let_def split: if_splits option.splits prod.splits)

end
