(* ===== verification/Media.thy ===== *)
theory Media
  imports Slice Browse ID3
begin

text \<open>
  The media handlers: \<open>internal/api/media.go\<close> (stream, download, cover art) and
  \<open>internal/api/lyrics.go\<close>. The files are a map from paths to their bytes and the size that
  \<open>Stat\<close> reports (\<^const>\<open>None\<close> when it fails); a path outside it cannot be opened. Cover art is the
  one handler that writes files; it returns the map changed. Decoding, resizing and encoding an
  image are the imaging package, a record of functions; \<open>CreateTemp\<close>, \<open>Close\<close>, \<open>Remove\<close> and
  \<open>Rename\<close> answer as the record \<open>osCalls\<close> says. \<open>http.ServeContent\<close> is the standard library's:
  an answer records the writer it was called with, the file and whether the answer may be cached
  for good.
\<close>

section \<open>Files and answers\<close>

record osFile =
  of_data :: bytes
  of_size :: "int option"

type_synonym files = "string \<Rightarrow> osFile option"

datatype mediaAnswer =
    Subsonic SubsonicResponse
  | NotFound
  | Written responseWriter
  | ServeContent responseWriter bool string bytes
  | MediaPanic

text \<open>\<open>SELECT path, content_type FROM song WHERE id = ?\<close>: the last row's, if there is one.\<close>

definition songFile :: "reader \<Rightarrow> string \<Rightarrow> (string \<times> string) option" where
  "songFile rd i =
     (case select rd 0 (\<lambda>now d. filter (\<lambda>s. so_id s = i) (db_song d)) of
        Inl e \<Rightarrow> None
      | Inr [] \<Rightarrow> None
      | Inr (s # ss) \<Rightarrow> Some (so_path (last (s # ss)), so_content_type (last (s # ss))))"

section \<open>Audio\<close>

definition serveSlicedAudio ::
  "reader \<Rightarrow> files \<Rightarrow> request \<Rightarrow> float64 \<Rightarrow> float64 \<Rightarrow> mediaAnswer" where
  "serveSlicedAudio rd fs r startTime duration =
     (let i = FormValue r ''id'' in
      if i = '''' then Subsonic (errResponse 10 ''missing parameter: id'')
      else if \<not> rd_pool rd then Subsonic (errResponse 0 ''database error'')
      else case songFile rd i of
        None \<Rightarrow> Subsonic (errResponse 70 ''song not found'')
      | Some (filePath, contentType) \<Rightarrow>
          (case fs filePath of
             None \<Rightarrow> Subsonic (errResponse 0 ''file not accessible'')
           | Some f \<Rightarrow>
               (case of_size f of
                  None \<Rightarrow> Subsonic (errResponse 0 ''file not accessible'')
                | Some fileSize \<Rightarrow>
                    (let ext = toLower (pathExt filePath); w = emptyWriter;
                         sliced =
                           (if ext = ''.mp3'' then sliceMP3 w (of_data f) fileSize contentType startTime duration
                            else if ext = ''.flac''
                              then Some (sliceFLAC w (of_data f) fileSize contentType startTime duration)
                            else if ext = ''.wav''
                              then Some (sliceWAV w (of_data f) fileSize contentType startTime duration)
                            else Some (False, w))
                     in case sliced of
                          None \<Rightarrow> MediaPanic
                        | Some (handled, w') \<Rightarrow>
                            if handled then Written w'
                            else ServeContent (setType contentType w') False filePath (of_data f)))))"

definition serveAudioFile :: "reader \<Rightarrow> files \<Rightarrow> request \<Rightarrow> mediaAnswer" where
  "serveAudioFile rd fs r =
     (let i = FormValue r ''id'' in
      if i = '''' then Subsonic (errResponse 10 ''missing parameter: id'')
      else if \<not> rd_pool rd then Subsonic (errResponse 0 ''database error'')
      else case songFile rd i of
        None \<Rightarrow> Subsonic (errResponse 70 ''song not found'')
      | Some (filePath, contentType) \<Rightarrow>
          (case fs filePath of
             None \<Rightarrow> Subsonic (errResponse 0 ''file not accessible'')
           | Some f \<Rightarrow>
               (case of_size f of
                  None \<Rightarrow> Subsonic (errResponse 0 ''file not accessible'')
                | Some fileSize \<Rightarrow>
                    ServeContent (setType contentType emptyWriter) False filePath (of_data f))))"

definition handleStream ::
  "(string \<Rightarrow> float64 option) \<Rightarrow> reader \<Rightarrow> files \<Rightarrow> request \<Rightarrow> mediaAnswer" where
  "handleStream hexFloat rd fs r =
     (let startStr = FormValue r ''startTime''; durStr = FormValue r ''duration'' in
      if startStr \<noteq> '''' \<and> durStr \<noteq> '''' then
        (case (parseFloat hexFloat startStr, parseFloat hexFloat durStr) of
           (Some startTime, Some dur) \<Rightarrow>
             (if fle (Finite 0) startTime \<and> fless (Finite 0) dur
              then serveSlicedAudio rd fs r startTime dur
              else serveAudioFile rd fs r)
         | _ \<Rightarrow> serveAudioFile rd fs r)
      else serveAudioFile rd fs r)"

definition handleDownload :: "reader \<Rightarrow> files \<Rightarrow> request \<Rightarrow> mediaAnswer" where
  "handleDownload rd fs r = serveAudioFile rd fs r"

section \<open>Cover art\<close>

record 'img imaging =
  im_decode :: "bytes \<Rightarrow> 'img option"
  im_fit :: "'img \<Rightarrow> int \<Rightarrow> 'img"
  im_encode :: "'img \<Rightarrow> bytes option"

text \<open>The path \<open>CreateTemp\<close> makes in a directory for a pattern, and whether the other calls succeed.\<close>

record osCalls =
  oc_createTemp :: "string \<Rightarrow> string \<Rightarrow> string option"
  oc_close :: bool
  oc_rename :: bool
  oc_remove :: bool

definition coverArtPrefix :: string where "coverArtPrefix = ''al-''"

definition minCoverArtSize :: int where "minCoverArtSize = 32"

definition maxCoverArtSize :: int where "maxCoverArtSize = 1024"

text \<open>\<open>filepath.Join\<close> of a clean directory and a plain file name.\<close>

definition joinPath :: "string \<Rightarrow> string \<Rightarrow> string" where
  "joinPath dir name =
     (if dir = ''.'' then name else if dir = ''/'' then ''/'' @ name else dir @ ''/'' @ name)"

definition artBase :: "string \<Rightarrow> string" where
  "artBase path = trimSuffix (pathBase path) (pathExt path)"

definition resizedPath :: "string \<Rightarrow> int \<Rightarrow> string" where
  "resizedPath originalPath sz =
     joinPath (pathDir originalPath) (artBase originalPath @ ''_'' @ showNat (nat sz) @ ''.jpg'')"

definition removeFile :: "osCalls \<Rightarrow> string \<Rightarrow> files \<Rightarrow> files" where
  "removeFile oc p fs = (if oc_remove oc then fs(p := None) else fs)"

definition fileOf :: "bytes \<Rightarrow> osFile" where
  "fileOf bs = \<lparr>of_data = bs, of_size = Some (int (length bs))\<rparr>"

text \<open>
  The path of the resized image, \<^const>\<open>None\<close> on an error. A temporary file the encoder gave up on
  holds some bytes \<open>partial\<close>.
\<close>

definition resizedCoverArt ::
  "'img imaging \<Rightarrow> osCalls \<Rightarrow> bytes \<Rightarrow> files \<Rightarrow> string \<Rightarrow> int \<Rightarrow> string option \<times> files" where
  "resizedCoverArt im oc partial fs originalPath sz =
     (let dir = pathDir originalPath; base = artBase originalPath; target = resizedPath originalPath sz in
      if (case fs target of Some f \<Rightarrow> of_size f \<noteq> None | None \<Rightarrow> False) then (Some target, fs)
      else case Option.bind (fs originalPath) (\<lambda>f. im_decode im (of_data f)) of
        None \<Rightarrow> (None, fs)
      | Some src \<Rightarrow>
          (let resized = im_fit im src sz in
           case oc_createTemp oc dir (base @ ''_*.tmp'') of
             None \<Rightarrow> (None, fs)
           | Some tmpPath \<Rightarrow>
               (case im_encode im resized of
                  None \<Rightarrow> (None, removeFile oc tmpPath (fs(tmpPath \<mapsto> fileOf partial)))
                | Some jpeg \<Rightarrow>
                    (let fs1 = fs(tmpPath \<mapsto> fileOf jpeg) in
                     if \<not> oc_close oc then (None, removeFile oc tmpPath fs1)
                     else if \<not> oc_rename oc then (None, removeFile oc tmpPath fs1)
                     else (Some target, (fs1(tmpPath := None))(target \<mapsto> fileOf jpeg))))))"

text \<open>\<open>SELECT cover_art FROM album WHERE id = ?\<close>; \<^const>\<open>None\<close> also for an empty path.\<close>

definition coverFile :: "reader \<Rightarrow> string \<Rightarrow> string option" where
  "coverFile rd albumID =
     (case select rd 0 (\<lambda>now d. filter (\<lambda>al. al_id al = albumID) (db_album d)) of
        Inl e \<Rightarrow> None
      | Inr [] \<Rightarrow> None
      | Inr (al # als) \<Rightarrow>
          (let p = colText (al_cover_art (last (al # als))) in if p = '''' then None else Some p))"

definition handleGetCoverArt ::
  "'img imaging \<Rightarrow> osCalls \<Rightarrow> bytes \<Rightarrow> reader \<Rightarrow> request \<Rightarrow> files \<Rightarrow> mediaAnswer \<times> files" where
  "handleGetCoverArt im oc partial rd r fs =
     (let i = FormValue r ''id'' in
      if i = '''' then (Subsonic (errResponse 10 ''missing parameter: id''), fs)
      else let albumID = trimPrefix i coverArtPrefix in
      if \<not> rd_pool rd then (Subsonic (errResponse 0 ''database error''), fs)
      else case coverFile rd albumID of
        None \<Rightarrow> (NotFound, fs)
      | Some coverPath \<Rightarrow>
          (let (servePath, fs) =
             (let sizeStr = FormValue r ''size'' in
              if sizeStr = '''' then (coverPath, fs)
              else let (sz, ok) = atoi sizeStr in
                if ok \<and> sz > 0 then
                  (case resizedCoverArt im oc partial fs coverPath
                          (max minCoverArtSize (min sz maxCoverArtSize)) of
                     (None, fs) \<Rightarrow> (coverPath, fs)
                   | (Some resized, fs) \<Rightarrow> (resized, fs))
                else (coverPath, fs))
           in case fs servePath of
                None \<Rightarrow> (NotFound, fs)
              | Some f \<Rightarrow>
                  (if of_size f = None then (NotFound, fs)
                   else (ServeContent emptyWriter True servePath (of_data f), fs))))"

section \<open>Lyrics\<close>

definition toLyricLine :: "LyricFrame \<Rightarrow> LyricLine \<Rightarrow> RespLyricLine" where
  "toLyricLine f l = \<lparr>ll_start = (if lf_Synced f then Some (ll_Start l) else None), ll_value = ll_Value l\<rparr>"

definition toLyricsList :: "LyricFrame list \<Rightarrow> StructuredLyrics list" where
  "toLyricsList frames =
     map (\<lambda>f. \<lparr>sl_lang = lf_Lang f, sl_synced = lf_Synced f, sl_lines = map (toLyricLine f) (lf_Lines f)\<rparr>) frames"

text \<open>\<^const>\<open>None\<close> is a panic of the lyrics reader.\<close>

definition handleGetLyricsBySongId :: "reader \<Rightarrow> files \<Rightarrow> request \<Rightarrow> SubsonicResponse option" where
  "handleGetLyricsBySongId rd fs r =
     (let i = FormValue r ''id'' in
      if i = '''' then Some (errResponse 10 ''missing parameter: id'')
      else if \<not> rd_pool rd then Some (errResponse 0 ''database error'')
      else case songFile rd i of
        None \<Rightarrow> Some (errResponse 70 ''song not found'')
      | Some (filePath, contentType) \<Rightarrow>
          (case fs filePath of
             None \<Rightarrow> Some (okWith (LyricsList []))
           | Some f \<Rightarrow>
               (case ReadID3v2Lyrics (of_data f) of
                  None \<Rightarrow> None
                | Some (Inl e) \<Rightarrow> Some (okWith (LyricsList []))
                | Some (Inr frames) \<Rightarrow> Some (okWith (LyricsList (toLyricsList frames))))))"

end
