(* ===== verification/Go_Url.thy ===== *)
theory Go_Url
  imports Go_Lib "HOL-Library.List_Lexorder" "HOL-Library.Char_ord"
begin

text \<open>
  What the program uses of Go's \<open>net/url\<close>: the parsed query of a request as an association list
  from keys to the values in their order, and the encoding of such values. Nothing here is code of
  the repository, so nothing here is mapped to its lines.
\<close>

type_synonym urlValues = "(string \<times> string list) list"

text \<open>\<open>url.QueryUnescape\<close>; \<^const>\<open>None\<close> is an invalid escape.\<close>

fun queryUnescape :: "string \<Rightarrow> string option" where
  "queryUnescape [] = Some []"
| "queryUnescape (c # s) =
     (if c = CHR ''+'' then map_option (\<lambda>t. CHR '' '' # t) (queryUnescape s)
      else if c = CHR ''%'' then
        (case s of
           a # b # r \<Rightarrow>
             (case (hexVal a, hexVal b) of
                (Some x, Some y) \<Rightarrow> map_option (\<lambda>t. char_of (16 * x + y) # t) (queryUnescape r)
              | _ \<Rightarrow> None)
         | _ \<Rightarrow> None)
      else map_option (\<lambda>t. c # t) (queryUnescape s))"

definition addValue :: "string \<Rightarrow> string \<Rightarrow> urlValues \<Rightarrow> urlValues" where
  "addValue k v q =
     (if k \<in> fst ` set q then map (\<lambda>(k', vs). if k' = k then (k', vs @ [v]) else (k', vs)) q
      else q @ [(k, [v])])"

definition addSegment :: "urlValues \<Rightarrow> string \<Rightarrow> urlValues" where
  "addSegment q seg =
     (if seg = [] \<or> CHR '';'' \<in> set seg then q
      else let (k, v) = (case cut seg (CHR ''='') of Some kv \<Rightarrow> kv | None \<Rightarrow> (seg, [])) in
        case (queryUnescape k, queryUnescape v) of
          (Some k', Some v') \<Rightarrow> addValue k' v' q
        | _ \<Rightarrow> q)"

text \<open>\<open>url.Values\<close> of a raw query; segments with an error are left out.\<close>

definition parseQuery :: "string \<Rightarrow> urlValues" where
  "parseQuery raw = foldl addSegment [] (splitOn (CHR ''&'') raw)"

definition valuesGet :: "urlValues \<Rightarrow> string \<Rightarrow> string" where
  "valuesGet q k = (case map_of q k of Some (v # _) \<Rightarrow> v | _ \<Rightarrow> '''')"

definition upperHex :: "nat \<Rightarrow> char" where
  "upperHex n = (if n < 10 then char_of (48 + n) else char_of (55 + n))"

definition unreserved :: "char \<Rightarrow> bool" where
  "unreserved c \<longleftrightarrow> isDigit c \<or> (let n = (of_char c :: nat) in 65 \<le> n \<and> n \<le> 90 \<or> 97 \<le> n \<and> n \<le> 122)
     \<or> c \<in> set ''-_.~''"

definition escapeChar :: "char \<Rightarrow> string" where
  "escapeChar c =
     (if unreserved c then [c] else if c = CHR '' '' then ''+''
      else let n = of_char c in [CHR ''%'', upperHex (n div 16), upperHex (n mod 16)])"

definition queryEscape :: "string \<Rightarrow> string" where
  "queryEscape s = concat (map escapeChar s)"

fun joinWith :: "string \<Rightarrow> string list \<Rightarrow> string" where
  "joinWith sep [] = []"
| "joinWith sep [x] = x"
| "joinWith sep (x # xs) = x @ sep @ joinWith sep xs"

text \<open>\<open>Values.Encode\<close>: the keys in byte order.\<close>

definition valuesEncode :: "urlValues \<Rightarrow> string" where
  "valuesEncode q = joinWith ''&'' (concat (map (\<lambda>(k, vs). map (\<lambda>v. queryEscape k @ ''='' @ queryEscape v) vs)
     (sort_key fst q)))"

end
