(* ===== verification/Reports.thy ===== *)
theory Reports
  imports Admin Queries Scan Go_Url
begin

text \<open>
  The rest of the admin API (\<open>internal/api/admin.go\<close>): statistics, issues, the scan endpoints, the
  play history with the collector's authentication; and the scan handlers of the Subsonic API
  (\<open>scan.go\<close>). The parameters come from the URL's query alone. A handler that starts a scan says
  so in its result: the scan itself is \<^const>\<open>Run\<close>, on a goroutine of its own.
\<close>

section \<open>Statistics and issues\<close>

definition noText :: "string option \<Rightarrow> bool" where
  "noText v \<longleftrightarrow> colText v = ''''"

definition noInt :: "int option \<Rightarrow> bool" where
  "noInt v \<longleftrightarrow> colInt v = 0"

definition unknownArtist :: string where "unknownArtist = ''Unknown Artist''"

definition statsOf :: "db \<Rightarrow> adminStats" where
  "statsOf d =
     \<lparr>sa_artists = length (db_artist d), sa_albums = length (db_album d), sa_songs = length (db_song d),
      sa_albumsMissingArt = length (filter (\<lambda>al. noText (al_cover_art al)) (db_album d)),
      sa_songsUnknownArtist = length (filter (\<lambda>s. so_artist_id s \<in>
         set (map ar_id (filter (\<lambda>a. ar_name a = unknownArtist) (db_artist d)))) (db_song d)),
      sa_songsNoGenre = length (filter (\<lambda>s. noText (so_genre s)) (db_song d)),
      sa_songsNoYear = length (filter (\<lambda>s. noInt (so_year s)) (db_song d)),
      sa_songsZeroDuration = length (filter (\<lambda>s. so_duration s = 0) (db_song d)),
      sa_albumsNoYear = length (filter (\<lambda>al. noInt (al_year al)) (db_album d)),
      sa_albumsNoGenre = length (filter (\<lambda>al. noText (al_genre al)) (db_album d))\<rparr>"

definition handleAdminStats :: "reader \<Rightarrow> adminResponse" where
  "handleAdminStats rd =
     (if \<not> rd_pool rd then writeJSON 500 (AError ''database error'')
      else case select rd 0 (\<lambda>now. statsOf) of
             Inl e \<Rightarrow> writeJSON 500 (AError ''database error'')
           | Inr stats \<Rightarrow> writeJSON 200 (AStats stats))"

text \<open>A condition on the rows of a song and its artist, or of an album and its artist.\<close>

datatype issueSpec =
    SongIssue "song_row \<Rightarrow> artist_row \<Rightarrow> bool"
  | AlbumIssue "album_row \<Rightarrow> bool"

definition issueTypes :: "(string \<times> issueSpec) list" where
  "issueTypes =
     [(''songs_no_genre'', SongIssue (\<lambda>s ar. noText (so_genre s))),
      (''songs_no_year'', SongIssue (\<lambda>s ar. noInt (so_year s))),
      (''songs_unknown_artist'', SongIssue (\<lambda>s ar. ar_name ar = unknownArtist)),
      (''songs_zero_duration'', SongIssue (\<lambda>s ar. so_duration s = 0)),
      (''albums_missing_art'', AlbumIssue (\<lambda>al. noText (al_cover_art al))),
      (''albums_no_year'', AlbumIssue (\<lambda>al. noInt (al_year al))),
      (''albums_no_genre'', AlbumIssue (\<lambda>al. noText (al_genre al)))]"

definition songsWithArtist :: "db \<Rightarrow> (song_row \<times> artist_row) list" where
  "songsWithArtist d = concat (map (\<lambda>s. case artistOf d (so_artist_id s) of
       None \<Rightarrow> [] | Some ar \<Rightarrow> [(s, ar)]) (db_song d))"

definition albumsWithArtist :: "db \<Rightarrow> (album_row \<times> artist_row) list" where
  "albumsWithArtist d = concat (map (\<lambda>al. case artistOf d (al_artist_id al) of
       None \<Rightarrow> [] | Some ar \<Rightarrow> [(al, ar)]) (db_album d))"

definition issueCount :: "issueSpec \<Rightarrow> db \<Rightarrow> nat" where
  "issueCount spec d =
     (case spec of
        SongIssue cond \<Rightarrow> length (filter (\<lambda>(s, ar). cond s ar) (songsWithArtist d))
      | AlbumIssue cond \<Rightarrow> length (filter (\<lambda>(al, ar). cond al) (albumsWithArtist d)))"

definition withoutPrefix :: "string \<Rightarrow> string \<Rightarrow> string" where
  "withoutPrefix musicDir p =
     (let prefix = (if musicDir \<noteq> '''' \<and> last musicDir \<noteq> CHR ''/'' then musicDir @ ''/'' else musicDir)
      in trimPrefix p prefix)"

definition songItemOf :: "string \<Rightarrow> song_row \<Rightarrow> artist_row \<Rightarrow> album_row \<Rightarrow> songItem" where
  "songItemOf musicDir s ar al =
     \<lparr>si_title = so_title s, si_artist = ar_name ar, si_album = al_name al,
      si_path = withoutPrefix musicDir (so_path s), si_genre = colText (so_genre s),
      si_year = colInt (so_year s), si_duration = so_duration s\<rparr>"

definition songIssues ::
  "string \<Rightarrow> (song_row \<Rightarrow> artist_row \<Rightarrow> bool) \<Rightarrow> int \<Rightarrow> int \<Rightarrow> db \<Rightarrow> songItem list" where
  "songIssues musicDir cond limit offset d =
     (let rows = concat (map (\<lambda>(s, ar). case albumOf d (so_album_id s) of
                   None \<Rightarrow> [] | Some al \<Rightarrow> if cond s ar then [(s, ar, al)] else []) (songsWithArtist d));
          byTrack = orderNull (\<lambda>(s, ar, al). so_track s) rows;
          sorted = sort_key (\<lambda>(s, ar, al). ar_name ar) (sort_key (\<lambda>(s, ar, al). al_name al) byTrack)
      in map (\<lambda>(s, ar, al). songItemOf musicDir s ar al) (sqlLimit limit offset sorted))"

definition albumIssues :: "(album_row \<Rightarrow> bool) \<Rightarrow> int \<Rightarrow> int \<Rightarrow> db \<Rightarrow> albumItem list" where
  "albumIssues cond limit offset d =
     (let rows = filter (\<lambda>(al, ar). cond al) (albumsWithArtist d);
          sorted = sort_key (\<lambda>(al, ar). ar_name ar) (sort_key (\<lambda>(al, ar). al_name al) rows)
      in map (\<lambda>(al, ar). \<lparr>ai_name = al_name al, ai_artist = ar_name ar, ai_year = colInt (al_year al),
           ai_genre = colText (al_genre al), ai_songCount = al_song_count al\<rparr>)
         (sqlLimit limit offset sorted))"

text \<open>A limit below one is the default, one above the maximum is the maximum.\<close>

definition clampLimit :: "int \<Rightarrow> int \<Rightarrow> string \<Rightarrow> int" where
  "clampLimit def mx s =
     (let limit = fst (atoi s); limit = (if limit \<le> 0 then def else limit) in
      if limit > mx then mx else limit)"

definition handleAdminIssues :: "config \<Rightarrow> reader \<Rightarrow> request \<Rightarrow> adminResponse" where
  "handleAdminIssues cfg rd r =
     (let q = parseQuery (rq_query r) in
      case map_of issueTypes (valuesGet q ''type'') of
        None \<Rightarrow> writeJSON 400 (AError ''unknown issue type'')
      | Some spec \<Rightarrow>
          (let limit = clampLimit 50 200 (valuesGet q ''limit'');
               offset = fst (atoi (valuesGet q ''offset'')) in
           if \<not> rd_pool rd then writeJSON 500 (AError ''database error'')
           else case select rd 0 (\<lambda>now. issueCount spec) of
             Inl e \<Rightarrow> writeJSON 500 (AError ''database error'')
           | Inr found \<Rightarrow>
               (case spec of
                  SongIssue cond \<Rightarrow>
                    (case select rd 1 (\<lambda>now. songIssues (cfg_MusicDir cfg) cond limit offset) of
                       Inl e \<Rightarrow> writeJSON 500 (AError ''database error'')
                     | Inr items \<Rightarrow> writeJSON 200 (ASongIssues items found))
                | AlbumIssue cond \<Rightarrow>
                    (case select rd 1 (\<lambda>now. albumIssues cond limit offset) of
                       Inl e \<Rightarrow> writeJSON 500 (AError ''database error'')
                     | Inr items \<Rightarrow> writeJSON 200 (AAlbumIssues items found)))))"

section \<open>Scans\<close>

text \<open>The second component of a result is whether a scan is started.\<close>

definition handleAdminGetScanStatus :: "Scanner option \<Rightarrow> adminResponse" where
  "handleAdminGetScanStatus sc =
     (case sc of
        None \<Rightarrow> writeJSON 200 (AScan False 0)
      | Some s \<Rightarrow> writeJSON 200 (AScan (sc_scanning s) (sc_count s)))"

definition handleAdminStartScan :: "Scanner option \<Rightarrow> adminResponse \<times> bool" where
  "handleAdminStartScan sc =
     (case sc of
        None \<Rightarrow> (writeJSON 503 (AError ''scanner not configured''), False)
      | Some s \<Rightarrow> (writeJSON 200 (AScan True (sc_count s)), True))"

definition handleStartScan :: "Scanner option \<Rightarrow> SubsonicResponse \<times> bool" where
  "handleStartScan sc =
     (case sc of
        None \<Rightarrow> (errResponse 0 ''scanner not configured'', False)
      | Some s \<Rightarrow> (okWith (ScanStatus True 0), True))"

definition handleGetScanStatus :: "Scanner option \<Rightarrow> SubsonicResponse" where
  "handleGetScanStatus sc =
     (case sc of
        None \<Rightarrow> okWith (ScanStatus False 0)
      | Some s \<Rightarrow> okWith (ScanStatus (sc_scanning s) (sc_count s)))"

section \<open>The play history\<close>

text \<open>
  The collector's authentication: pass on the request, or answer. \<^const>\<open>None\<close> is the 404 of a
  server without a token; the bearer scheme decides alone when it is used.
\<close>

datatype collectorResult = CollectorAnswer int | CollectorPassed request

definition collectorAuth :: "config \<Rightarrow> request \<Rightarrow> collectorResult" where
  "collectorAuth cfg r =
     (if cfg_CollectorToken cfg = '''' then CollectorAnswer 404
      else let hdr = headerGet r ''Authorization'' in
        if hasPrefix hdr ''Bearer '' then
          (if drop (length ''Bearer '') hdr = cfg_CollectorToken cfg then CollectorPassed r
           else CollectorAnswer 401)
        else case adminAuthMiddleware cfg r of
               None \<Rightarrow> CollectorAnswer 401
             | Some r' \<Rightarrow> CollectorPassed r')"

definition historyEntry :: "db \<Rightarrow> play_row \<Rightarrow> playHistoryEntry list" where
  "historyEntry d ph =
     (case songOf d (ph_song ph) of
        None \<Rightarrow> []
      | Some s \<Rightarrow>
          (case albumOf d (so_album_id s) of
             None \<Rightarrow> []
           | Some al \<Rightarrow>
               (case artistOf d (al_artist_id al) of
                  None \<Rightarrow> []
                | Some a \<Rightarrow>
                    [\<lparr>pe_rowid = ph_rowid ph, pe_playedAt = ph_played ph, pe_songID = so_id s,
                      pe_title = so_title s, pe_duration = so_duration s, pe_track = colInt (so_track s),
                      pe_disc = colInt (so_disc s), pe_year = colInt (so_year s),
                      pe_genre = colText (so_genre s), pe_bitrate = so_bitrate s, pe_albumID = al_id al,
                      pe_album = al_name al, pe_artistID = ar_id a, pe_artist = ar_name a\<rparr>])))"

definition historyQuery :: "int \<Rightarrow> int \<Rightarrow> db \<Rightarrow> playHistoryEntry list" where
  "historyQuery since limit d =
     sqlLimit limit 0 (concat (map (historyEntry d)
       (sort_key ph_rowid (filter (\<lambda>ph. ph_rowid ph > since) (db_play d)))))"

definition handlePlayHistory :: "reader \<Rightarrow> request \<Rightarrow> adminResponse" where
  "handlePlayHistory rd r =
     (let q = parseQuery (rq_query r);
          since = fst (parseInt (valuesGet q ''since''));
          limit = clampLimit 50 500 (valuesGet q ''limit'') in
      if \<not> rd_pool rd then writeJSON 500 (AError ''database error'')
      else case select rd 0 (\<lambda>now. historyQuery since limit) of
             Inl e \<Rightarrow> writeJSON 500 (AError ''database error'')
           | Inr entries \<Rightarrow> writeJSON 200 (AEntries entries))"

end
