(* ===== verification/Server.thy ===== *)
theory Server
  imports Mux Playlists Media Reports Manage
begin

text \<open>
  The server as a whole: the routing tables and middleware of \<open>internal/api/server.go\<close>, the routes of
  \<open>internal/manage/handlers.go\<close>, and the state the components share. One request is one step; so is
  one run of the scanner, which holds the only write connection from its beginning to its end. What
  a handler reads is what is committed when its request runs.
\<close>

section \<open>State and inputs\<close>

text \<open>What does not change: the configuration and the libraries.\<close>

record ('a, 'img) deps =
  dp_cfg :: config
  dp_crypto :: crypto
  dp_parseDuration :: "string \<Rightarrow> int option"
  dp_unicode :: unicode
  dp_firstRune :: "string \<Rightarrow> nat"
  dp_hexFloat :: "string \<Rightarrow> float64 option"
  dp_fts :: "string \<Rightarrow> fts_row list \<Rightarrow> int list"
  dp_imaging :: "'img imaging"
  dp_authn :: "'a authn"

text \<open>
  What the world answers during one request: the write connection's environment, faults and clock
  of its read connections (one per number: authentication, handler, read-back), the clock, chance,
  the operating system, the decoded JSON body, and the status of what \<open>net/http\<close> serves itself.
\<close>

record input =
  in_env :: env
  in_pool :: "nat \<Rightarrow> bool"
  in_readFault :: "nat \<Rightarrow> nat \<Rightarrow> sqlerr option"
  in_readNow :: "nat \<Rightarrow> nat \<Rightarrow> stamp"
  in_times :: authTimes
  in_gate :: int
  in_session :: int
  in_clock :: int
  in_readClock :: int
  in_shuffleAlbums :: "AlbumID3 list \<Rightarrow> AlbumID3 list"
  in_shuffleSongs :: "SongID3 list \<Rightarrow> SongID3 list"
  in_os :: osCalls
  in_partial :: bytes
  in_mint :: mintInput
  in_body :: "createCredentialRequest option"
  in_login :: loginInput
  in_rnd :: bytes
  in_status :: int

record 'a server =
  sv_auth :: authState
  sv_conn :: conn
  sv_scanner :: "Scanner option"
  sv_manage :: "'a ManageServer option"
  sv_files :: files
  sv_scans :: nat

definition readerOf :: "input \<Rightarrow> nat \<Rightarrow> conn \<Rightarrow> reader" where
  "readerOf inp k c =
     \<lparr>rd_pool = in_pool inp k,
      rd_query = (\<lambda>q. case in_readFault inp k q of Some e \<Rightarrow> Inl e | None \<Rightarrow> Inr (committed c)),
      rd_now = in_readNow inp k\<rparr>"

definition NewAPIServer :: "conn \<Rightarrow> files \<Rightarrow> 'a server" where
  "NewAPIServer c fs =
     \<lparr>sv_auth = authInit, sv_conn = c, sv_scanner = None, sv_manage = None, sv_files = fs, sv_scans = 0\<rparr>"

definition SetScanner :: "Scanner \<Rightarrow> 'a server \<Rightarrow> 'a server" where
  "SetScanner sc s = s\<lparr>sv_scanner := Some sc\<rparr>"

definition SetManageHandler :: "'a ManageServer \<Rightarrow> 'a server \<Rightarrow> 'a server" where
  "SetManageHandler m s = s\<lparr>sv_manage := Some m\<rparr>"

datatype answer =
    Api encoding SubsonicResponse
  | MediaAnswer mediaAnswer
  | AdminAnswer adminResponse
  | PageAnswer manageResponse
  | NetHttp string
  | RedirectAnswer string
  | Status int
  | Panicked

section \<open>The Subsonic API\<close>

datatype restRoute =
    Ping | GetLicense | GetExtensions | GetUser
  | GetMusicFolders | GetArtists | GetArtist | GetAlbum | GetSong | GetGenres
  | Search3
  | Stream | Download | GetCoverArt
  | GetAlbumList2 | GetRandomSongs | GetStarred2 | GetSongsByGenre
  | GetLyricsBySongId
  | Star | Unstar | Scrobble | SetRating
  | GetPlaylists | GetPlaylist | CreatePlaylist | UpdatePlaylist | DeletePlaylist
  | GetArtistInfo2 | GetAlbumInfo2 | GetSimilarSongs2 | GetTopSongs
  | StartScan | GetScanStatus

definition sub :: "string \<Rightarrow> restRoute \<Rightarrow> (pattern \<times> restRoute) list" where
  "sub name h =
     [(pat ''GET'' (''/rest/'' @ name), h), (pat ''POST'' (''/rest/'' @ name), h),
      (pat ''GET'' (''/rest/'' @ name @ ''.view''), h), (pat ''POST'' (''/rest/'' @ name @ ''.view''), h)]"

definition subsonicRoutes :: "(pattern \<times> restRoute) list" where
  "subsonicRoutes = concat
     [sub ''ping'' Ping, sub ''getLicense'' GetLicense, sub ''getOpenSubsonicExtensions'' GetExtensions,
      sub ''getUser'' GetUser,
      sub ''getMusicFolders'' GetMusicFolders, sub ''getArtists'' GetArtists, sub ''getArtist'' GetArtist,
      sub ''getAlbum'' GetAlbum, sub ''getSong'' GetSong, sub ''getGenres'' GetGenres,
      sub ''search3'' Search3,
      sub ''stream'' Stream, sub ''download'' Download, sub ''getCoverArt'' GetCoverArt,
      sub ''getAlbumList2'' GetAlbumList2, sub ''getRandomSongs'' GetRandomSongs,
      sub ''getStarred2'' GetStarred2, sub ''getSongsByGenre'' GetSongsByGenre,
      sub ''getLyricsBySongId'' GetLyricsBySongId,
      sub ''star'' Star, sub ''unstar'' Unstar, sub ''scrobble'' Scrobble, sub ''setRating'' SetRating,
      sub ''getPlaylists'' GetPlaylists, sub ''getPlaylist'' GetPlaylist,
      sub ''createPlaylist'' CreatePlaylist, sub ''updatePlaylist'' UpdatePlaylist,
      sub ''deletePlaylist'' DeletePlaylist,
      sub ''getArtistInfo'' GetArtistInfo2, sub ''getArtistInfo2'' GetArtistInfo2,
      sub ''getAlbumInfo'' GetAlbumInfo2, sub ''getAlbumInfo2'' GetAlbumInfo2,
      sub ''getSimilarSongs'' GetSimilarSongs2, sub ''getSimilarSongs2'' GetSimilarSongs2,
      sub ''getTopSongs'' GetTopSongs,
      sub ''startScan'' StartScan, sub ''getScanStatus'' GetScanStatus]"

definition api :: "request \<Rightarrow> SubsonicResponse \<Rightarrow> answer" where
  "api r resp = (case writeResponse r resp of (enc, resp) \<Rightarrow> Api enc resp)"

definition mediaOf :: "request \<Rightarrow> mediaAnswer \<Rightarrow> answer" where
  "mediaOf r m =
     (case m of Subsonic resp \<Rightarrow> api r resp | NotFound \<Rightarrow> Status 404 | MediaPanic \<Rightarrow> Panicked
      | _ \<Rightarrow> MediaAnswer m)"

definition lyricsAnswer :: "request \<Rightarrow> SubsonicResponse option \<Rightarrow> answer" where
  "lyricsAnswer r resp = (case resp of None \<Rightarrow> Panicked | Some resp \<Rightarrow> api r resp)"

text \<open>The answer and the write connection a writing handler leaves; a scan it starts.\<close>

definition wrote :: "request \<Rightarrow> 'a server \<Rightarrow> SubsonicResponse \<times> conn \<Rightarrow> answer \<times> 'a server" where
  "wrote r s res = (api r (fst res), s\<lparr>sv_conn := snd res\<rparr>)"

definition scanStarted :: "bool \<Rightarrow> 'a server \<Rightarrow> 'a server" where
  "scanStarted b s = (if b then s\<lparr>sv_scans := Suc (sv_scans s)\<rparr> else s)"

fun serveRest ::
  "('a, 'img) deps \<Rightarrow> input \<Rightarrow> request \<Rightarrow> 'a server \<Rightarrow> restRoute \<Rightarrow> answer \<times> 'a server" where
  "serveRest d inp r s Ping = (api r handlePing, s)"
| "serveRest d inp r s GetLicense = (api r handleGetLicense, s)"
| "serveRest d inp r s GetExtensions = (api r handleGetOpenSubsonicExtensions, s)"
| "serveRest d inp r s GetUser = (api r (handleGetUser r), s)"
| "serveRest d inp r s GetMusicFolders = (api r handleGetMusicFolders, s)"
| "serveRest d inp r s GetArtists =
     (api r (handleGetArtists (dp_unicode d) (dp_firstRune d) (readerOf inp 1 (sv_conn s))), s)"
| "serveRest d inp r s GetArtist = (api r (handleGetArtist (readerOf inp 1 (sv_conn s)) r), s)"
| "serveRest d inp r s GetAlbum = (api r (handleGetAlbum (readerOf inp 1 (sv_conn s)) r), s)"
| "serveRest d inp r s GetSong = (api r (handleGetSong (readerOf inp 1 (sv_conn s)) r), s)"
| "serveRest d inp r s GetGenres = (api r (handleGetGenres (readerOf inp 1 (sv_conn s))), s)"
| "serveRest d inp r s Search3 = (api r (handleSearch3 (dp_fts d) (readerOf inp 1 (sv_conn s)) r), s)"
| "serveRest d inp r s Stream =
     (mediaOf r (handleStream (dp_hexFloat d) (readerOf inp 1 (sv_conn s)) (sv_files s) r), s)"
| "serveRest d inp r s Download =
     (mediaOf r (handleDownload (readerOf inp 1 (sv_conn s)) (sv_files s) r), s)"
| "serveRest d inp r s GetCoverArt =
     (let (m, fs) = handleGetCoverArt (dp_imaging d) (in_os inp) (in_partial inp)
            (readerOf inp 1 (sv_conn s)) r (sv_files s)
      in (mediaOf r m, s\<lparr>sv_files := fs\<rparr>))"
| "serveRest d inp r s GetAlbumList2 =
     (api r (handleGetAlbumList2 (in_shuffleAlbums inp) (readerOf inp 1 (sv_conn s)) r), s)"
| "serveRest d inp r s GetRandomSongs =
     (api r (handleGetRandomSongs (in_shuffleSongs inp) (readerOf inp 1 (sv_conn s)) r), s)"
| "serveRest d inp r s GetStarred2 = (api r (handleGetStarred2 (readerOf inp 1 (sv_conn s)) r), s)"
| "serveRest d inp r s GetSongsByGenre = (api r (handleGetSongsByGenre (readerOf inp 1 (sv_conn s)) r), s)"
| "serveRest d inp r s GetLyricsBySongId =
     (lyricsAnswer r (handleGetLyricsBySongId (readerOf inp 1 (sv_conn s)) (sv_files s) r), s)"
| "serveRest d inp r s Star = wrote r s (handleStar (in_env inp) r (sv_conn s))"
| "serveRest d inp r s Unstar = wrote r s (handleUnstar (in_env inp) r (sv_conn s))"
| "serveRest d inp r s Scrobble = wrote r s (handleScrobble (in_env inp) r (sv_conn s))"
| "serveRest d inp r s SetRating = wrote r s (handleSetRating (in_env inp) r (sv_conn s))"
| "serveRest d inp r s GetPlaylists = (api r (handleGetPlaylists (readerOf inp 1 (sv_conn s)) r), s)"
| "serveRest d inp r s GetPlaylist = (api r (handleGetPlaylist (readerOf inp 1 (sv_conn s)) r), s)"
| "serveRest d inp r s CreatePlaylist = wrote r s (handleCreatePlaylist (in_env inp) r (sv_conn s))"
| "serveRest d inp r s UpdatePlaylist = wrote r s (handleUpdatePlaylist (in_env inp) r (sv_conn s))"
| "serveRest d inp r s DeletePlaylist = wrote r s (handleDeletePlaylist (in_env inp) r (sv_conn s))"
| "serveRest d inp r s GetArtistInfo2 = (api r (handleGetArtistInfo2 (readerOf inp 1 (sv_conn s)) r), s)"
| "serveRest d inp r s GetAlbumInfo2 = (api r (handleGetAlbumInfo2 (readerOf inp 1 (sv_conn s)) r), s)"
| "serveRest d inp r s GetSimilarSongs2 = (api r (handleGetSimilarSongs2 (readerOf inp 1 (sv_conn s)) r), s)"
| "serveRest d inp r s GetTopSongs = (api r (handleGetTopSongs (readerOf inp 1 (sv_conn s)) r), s)"
| "serveRest d inp r s StartScan =
     (let (resp, started) = handleStartScan (sv_scanner s) in (api r resp, scanStarted started s))"
| "serveRest d inp r s GetScanStatus = (api r (handleGetScanStatus (sv_scanner s)), s)"

text \<open>The answer of a multiplexer that reaches no handler.\<close>

definition unmatched :: "'h muxResult \<Rightarrow> answer" where
  "unmatched m =
     (case m of MuxRedirect p \<Rightarrow> RedirectAnswer p | MuxNotAllowed \<Rightarrow> Status 405 | _ \<Rightarrow> Status 404)"

text \<open>\<open>/rest/\<close>: the authentication around the Subsonic multiplexer.\<close>

definition restHandler ::
  "('a, 'img) deps \<Rightarrow> input \<Rightarrow> request \<Rightarrow> 'a server \<Rightarrow> answer \<times> 'a server" where
  "restHandler d inp r s =
     (let (res, st) = authMiddleware (dp_crypto d) (dp_cfg d) (in_times inp) (readerOf inp 0 (sv_conn s)) r (sv_auth s);
          s = s\<lparr>sv_auth := st\<rparr> in
      case res of
        Denied resp \<Rightarrow> (api r resp, s)
      | Passed r' \<Rightarrow>
          (case mux subsonicRoutes (rq_method r') (rq_path r') of
             Matched h vs \<Rightarrow> serveRest d inp r' s h
           | m \<Rightarrow> (unmatched m, s)))"

section \<open>The management UI\<close>

datatype manageRoute =
    StaticFiles | LoginForm | LoginSubmit | Callback | Logout | DashboardPage | ToDashboard
  | Mint | Renew | Revoke

definition manageRoutes :: "(pattern \<times> manageRoute) list" where
  "manageRoutes =
     [(pat ''GET'' ''/manage/static/'', StaticFiles),
      (pat ''GET'' ''/manage/login'', LoginForm),
      (pat ''POST'' ''/manage/login'', LoginSubmit),
      (pat ''GET'' ''/manage/callback'', Callback),
      (pat ''POST'' ''/manage/logout'', Logout),
      (pat ''GET'' ''/manage/'', DashboardPage),
      (pat ''GET'' ''/manage'', ToDashboard),
      (pat ''POST'' ''/manage/credentials'', Mint),
      (pat ''POST'' ''/manage/credentials/{id}/renew'', Renew),
      (pat ''DELETE'' ''/manage/credentials/{id}'', Revoke)]"

definition needsSession :: "manageRoute \<Rightarrow> bool" where
  "needsSession h \<longleftrightarrow> h \<in> {Logout, DashboardPage, Mint, Renew, Revoke}"

definition paged :: "manageResponse option \<Rightarrow> answer" where
  "paged p = (case p of None \<Rightarrow> Panicked | Some p \<Rightarrow> PageAnswer p)"

text \<open>A handler that reads back what it wrote does so on a read connection, after the write.\<close>

definition readBackOf :: "input \<Rightarrow> (reader \<Rightarrow> 'b \<times> conn) \<Rightarrow> conn \<Rightarrow> 'b \<times> conn" where
  "readBackOf inp h c = h (readerOf inp 2 (snd (h (readerOf inp 2 c))))"

definition authed :: "'a server \<Rightarrow> manageResponse \<times> 'a ManageServer \<Rightarrow> answer \<times> 'a server" where
  "authed s res = (PageAnswer (fst res), s\<lparr>sv_manage := Some (snd res)\<rparr>)"

definition pagedConn :: "'a server \<Rightarrow> manageResponse option \<times> conn \<Rightarrow> answer \<times> 'a server" where
  "pagedConn s res = (paged (fst res), s\<lparr>sv_conn := snd res\<rparr>)"

fun serveManage ::
  "('a, 'img) deps \<Rightarrow> input \<Rightarrow> request \<Rightarrow> 'a ManageServer \<Rightarrow> 'a server \<Rightarrow> manageRoute \<Rightarrow> string list
    \<Rightarrow> answer \<times> 'a server" where
  "serveManage d inp r m s StaticFiles vs = (NetHttp (drop (length ''/manage/static/'') (rq_path r)), s)"
| "serveManage d inp r m s LoginForm vs = authed s (handleLoginPage (dp_authn d) (in_login inp) r m)"
| "serveManage d inp r m s LoginSubmit vs =
     authed s (handleLoginSubmit (dp_authn d) (in_rnd inp) (in_clock inp) r m)"
| "serveManage d inp r m s Callback vs =
     authed s (handleCallback (dp_authn d) (in_rnd inp) (in_clock inp) r m)"
| "serveManage d inp r m s Logout vs = authed s (handleLogout (in_session inp) r m)"
| "serveManage d inp r m s DashboardPage vs =
     (paged (handleDashboard (in_session inp) (in_readClock inp) (readerOf inp 1 (sv_conn s)) r m), s)"
| "serveManage d inp r m s ToDashboard vs = (PageAnswer redirectToDashboard, s)"
| "serveManage d inp r m s Mint vs =
     pagedConn s (handleMintCredential (dp_crypto d) (dp_cfg d) (dp_parseDuration d) (in_mint inp) (in_env inp)
       (in_session inp) r m (sv_conn s))"
| "serveManage d inp r m s Renew vs =
     pagedConn s (readBackOf inp (\<lambda>rd. handleRenewCredential (dp_cfg d) (in_session inp) (in_clock inp)
       (in_readClock inp) (in_env inp) rd r (hd vs) m (sv_conn s)) (sv_conn s))"
| "serveManage d inp r m s Revoke vs =
     pagedConn s (handleRevokeCredential (in_env inp) (in_session inp) r (hd vs) m (sv_conn s))"

definition manageHandler ::
  "('a, 'img) deps \<Rightarrow> input \<Rightarrow> request \<Rightarrow> 'a ManageServer \<Rightarrow> 'a server \<Rightarrow> answer \<times> 'a server" where
  "manageHandler d inp r m s =
     (case mux manageRoutes (rq_method r) (rq_path r) of
        Matched h vs \<Rightarrow>
          if needsSession h \<and> \<not> requireSession (in_gate inp) r m
          then (PageAnswer (redirect ''/manage/login''), s)
          else serveManage d inp r m s h vs
      | a \<Rightarrow> (unmatched a, s))"

section \<open>The admin API\<close>

datatype adminRoute =
    Whoami | ListCredentials | CreateCredential | RenewCredential | DeleteCredential
  | Stats | Issues | AdminScanStatus | AdminStartScan

definition adminRoutes :: "(pattern \<times> adminRoute) list" where
  "adminRoutes =
     [(pat ''GET'' ''/admin/whoami'', Whoami),
      (pat ''GET'' ''/admin/credentials'', ListCredentials),
      (pat ''POST'' ''/admin/credentials'', CreateCredential),
      (pat ''POST'' ''/admin/credentials/{id}/renew'', RenewCredential),
      (pat ''DELETE'' ''/admin/credentials/{id}'', DeleteCredential),
      (pat ''GET'' ''/admin/stats'', Stats),
      (pat ''GET'' ''/admin/issues'', Issues),
      (pat ''GET'' ''/admin/scan'', AdminScanStatus),
      (pat ''POST'' ''/admin/scan'', AdminStartScan)]"

fun serveAdmin ::
  "('a, 'img) deps \<Rightarrow> input \<Rightarrow> request \<Rightarrow> 'a server \<Rightarrow> adminRoute \<Rightarrow> string list \<Rightarrow> answer \<times> 'a server" where
  "serveAdmin d inp r s Whoami vs = (AdminAnswer (handleAdminWhoami r), s)"
| "serveAdmin d inp r s ListCredentials vs =
     (AdminAnswer (handleAdminListCredentials (in_readClock inp) (readerOf inp 1 (sv_conn s)) r), s)"
| "serveAdmin d inp r s CreateCredential vs =
     (let (resp, c) = handleAdminCreateCredential (dp_crypto d) (dp_cfg d) (dp_parseDuration d) (in_mint inp)
            (in_env inp) r (in_body inp) (sv_conn s)
      in (case resp of None \<Rightarrow> Panicked | Some a \<Rightarrow> AdminAnswer a, s\<lparr>sv_conn := c\<rparr>))"
| "serveAdmin d inp r s RenewCredential vs =
     (let (a, c) = readBackOf inp (\<lambda>rd. handleAdminRenewCredential (dp_cfg d) (in_clock inp) (in_readClock inp)
            (in_env inp) rd r (hd vs) (sv_conn s)) (sv_conn s)
      in (AdminAnswer a, s\<lparr>sv_conn := c\<rparr>))"
| "serveAdmin d inp r s DeleteCredential vs =
     (let (a, st, c) = handleAdminDeleteCredential (in_env inp) r (hd vs) (sv_auth s) (sv_conn s)
      in (AdminAnswer a, s\<lparr>sv_auth := st, sv_conn := c\<rparr>))"
| "serveAdmin d inp r s Stats vs = (AdminAnswer (handleAdminStats (readerOf inp 1 (sv_conn s))), s)"
| "serveAdmin d inp r s Issues vs =
     (AdminAnswer (handleAdminIssues (dp_cfg d) (readerOf inp 1 (sv_conn s)) r), s)"
| "serveAdmin d inp r s AdminScanStatus vs = (AdminAnswer (handleAdminGetScanStatus (sv_scanner s)), s)"
| "serveAdmin d inp r s AdminStartScan vs =
     (let (a, started) = handleAdminStartScan (sv_scanner s) in (AdminAnswer a, scanStarted started s))"

definition adminMuxHandler ::
  "('a, 'img) deps \<Rightarrow> input \<Rightarrow> request \<Rightarrow> 'a server \<Rightarrow> answer \<times> 'a server" where
  "adminMuxHandler d inp r s =
     (case mux adminRoutes (rq_method r) (rq_path r) of
        Matched h vs \<Rightarrow> serveAdmin d inp r s h vs
      | a \<Rightarrow> (unmatched a, s))"

section \<open>The two ports\<close>

text \<open>\<open>net/url\<close>'s encoding of the query, with the values of two keys replaced.\<close>

definition redactQuery :: "urlValues \<Rightarrow> string" where
  "redactQuery q = valuesEncode (map (\<lambda>(k, v).
     if k = ''p'' \<or> k = ''apiKey'' then (k, [''***'']) else (k, v)) q)"

record logEntry =
  lg_method :: string
  lg_path :: string
  lg_query :: string
  lg_status :: int

definition statusOf :: "input \<Rightarrow> answer \<Rightarrow> int" where
  "statusOf inp a =
     (case a of
        Api enc resp \<Rightarrow> 200
      | AdminAnswer resp \<Rightarrow> fst resp
      | PageAnswer p \<Rightarrow> mr_status p
      | Status n \<Rightarrow> n
      | _ \<Rightarrow> in_status inp)"

text \<open>A handler that panics leaves no entry in the log.\<close>

definition loggingMiddleware ::
  "input \<Rightarrow> request \<Rightarrow> answer \<times> 'a server \<Rightarrow> (answer \<times> logEntry option) \<times> 'a server" where
  "loggingMiddleware inp r res =
     ((fst res, if fst res = Panicked then None else Some
        \<lparr>lg_method = rq_method r, lg_path = rq_path r, lg_query = redactQuery (parseQuery (rq_query r)),
         lg_status = statusOf inp (fst res)\<rparr>), snd res)"

datatype topRoute = RestAPI | ManageUI

definition wireTopMux :: "bool \<Rightarrow> (pattern \<times> topRoute) list" where
  "wireTopMux mounted =
     (pat '''' ''/rest/'', RestAPI) #
     (if mounted then [(pat '''' ''/manage/'', ManageUI), (pat '''' ''/manage'', ManageUI)] else [])"

definition SubsonicHandler ::
  "('a, 'img) deps \<Rightarrow> input \<Rightarrow> request \<Rightarrow> 'a server \<Rightarrow> (answer \<times> logEntry option) \<times> 'a server" where
  "SubsonicHandler d inp r s = loggingMiddleware inp r
     (case mux (wireTopMux (sv_manage s \<noteq> None)) (rq_method r) (rq_path r) of
        Matched RestAPI vs \<Rightarrow> restHandler d inp r s
      | Matched ManageUI vs \<Rightarrow>
          (case sv_manage s of None \<Rightarrow> (Status 404, s) | Some m \<Rightarrow> manageHandler d inp r m s)
      | a \<Rightarrow> (unmatched a, s))"

datatype adminTop = PlayHistory | AdminAPI | Pprof string

definition adminTopMux :: "(pattern \<times> adminTop) list" where
  "adminTopMux =
     [(pat ''GET'' ''/admin/playhistory'', PlayHistory),
      (pat '''' ''/'', AdminAPI),
      (pat ''GET'' ''/debug/pprof/'', Pprof ''index''),
      (pat ''GET'' ''/debug/pprof/cmdline'', Pprof ''cmdline''),
      (pat ''GET'' ''/debug/pprof/profile'', Pprof ''profile''),
      (pat ''GET'' ''/debug/pprof/symbol'', Pprof ''symbol''),
      (pat ''GET'' ''/debug/pprof/trace'', Pprof ''trace'')]"

definition AdminHandler ::
  "('a, 'img) deps \<Rightarrow> input \<Rightarrow> request \<Rightarrow> 'a server \<Rightarrow> (answer \<times> logEntry option) \<times> 'a server" where
  "AdminHandler d inp r s = loggingMiddleware inp r
     (case mux adminTopMux (rq_method r) (rq_path r) of
        Matched PlayHistory vs \<Rightarrow>
          (case collectorAuth (dp_cfg d) r of
             CollectorAnswer code \<Rightarrow> (Status code, s)
           | CollectorPassed r' \<Rightarrow> (AdminAnswer (handlePlayHistory (readerOf inp 1 (sv_conn s)) r'), s))
      | Matched AdminAPI vs \<Rightarrow>
          (case adminAuthMiddleware (dp_cfg d) r of
             None \<Rightarrow> (Status 401, s)
           | Some r' \<Rightarrow> adminMuxHandler d inp r' s)
      | Matched (Pprof p) vs \<Rightarrow> (NetHttp p, s)
      | a \<Rightarrow> (unmatched a, s))"

section \<open>Steps of the server\<close>

text \<open>
  A request on either port, a run of the scanner that a handler or the start-up asked for, and the
  reapers of the two tables behind the management UI.
\<close>

datatype event =
    SubsonicRequest input request
  | AdminRequest input request
  | ScanRuns env "walkEntry list" "string \<Rightarrow> bool" "trackJob list \<Rightarrow> trackInfo list"
  | Reaps int

fun serverStep :: "('a, 'img) deps \<Rightarrow> event \<Rightarrow> 'a server \<Rightarrow> 'a server" where
  "serverStep d (SubsonicRequest inp r) s = snd (SubsonicHandler d inp r s)"
| "serverStep d (AdminRequest inp r) s = snd (AdminHandler d inp r s)"
| "serverStep d (ScanRuns env es onDisk deliver) s =
     (case sv_scanner s of
        None \<Rightarrow> s
      | Some sc \<Rightarrow>
          if sv_scans s = 0 then s
          else (case Run env es onDisk deliver sc (sv_conn s) of
            (r, sc', c) \<Rightarrow> s\<lparr>sv_scanner := Some sc', sv_conn := c, sv_scans := sv_scans s - 1\<rparr>))"
| "serverStep d (Reaps now) s =
     s\<lparr>sv_manage := map_option (\<lambda>m. m\<lparr>ms_sessions := reapSessions now (ms_sessions m),
         ms_auth := an_reap (dp_authn d) now (ms_auth m)\<rparr>) (sv_manage s)\<rparr>"

definition runServer :: "('a, 'img) deps \<Rightarrow> event list \<Rightarrow> 'a server \<Rightarrow> 'a server" where
  "runServer d evs s = fold (serverStep d) evs s"

end
