(* ===== verification/Isolation.thy ===== *)
theory Isolation
  imports Server Keeps Playlist_Facts
begin

text \<open>
  What the writing handlers may do to the tables, stated once for all of them: a locale per group of
  handlers assumes that the statements and transactions of the group step inside a relation between
  the connection before and after, and shows that so do the handlers. The relations are: the schema
  is kept, the rows of other users are left alone, the playlists stay contiguous.
\<close>

section \<open>The interfaces\<close>

text \<open>The writes a user makes through the annotation handlers.\<close>

locale annotation_writes =
  fixes R :: "conn \<Rightarrow> conn \<Rightarrow> bool" and user :: string
  assumes idle: "R c c"
    and starring: "R c (snd (transaction env (starInsertBody env user r ps) c))"
    and unstarring: "R c (snd (transaction env (starDeleteBody env user r ps) c))"
    and rating: "R c (snd (exec env (upsertRating user item n) c))"
    and unrating: "R c (snd (exec env (deleteRating user item) c))"
    and scrobbling: "R c (snd (transaction env (scrobbleBody env user ids tms) c))"

text \<open>What a query leaves of the connection, answered or not.\<close>

definition afterRead :: "conn \<Rightarrow> conn \<Rightarrow> bool" where
  "afterRead c c' \<longleftrightarrow> c' = ticked c \<or> (\<exists>f. c' = faulted f c)"

lemma exec_selecting_afterRead: "exec env (selecting q) c = (x, c') \<Longrightarrow> afterRead c c'"
  by (auto simp: afterRead_def exec_def selecting_def split: fault.splits)

text \<open>Those of the playlist handlers too, with the queries of the read-back.\<close>

locale library_writes = annotation_writes +
  assumes creating: "R c (snd (transaction env (createBody env user i name songs) c))"
    and updating: "R c (snd (transaction env (updateBody env user i rq) c))"
    and deleting: "R c (snd (transaction env (deleteBody env user i) c))"
    and reading: "R c c' \<Longrightarrow> afterRead c' c'' \<Longrightarrow> R c c''"

text \<open>The writes to the credentials, by the admin API and by the management UI.\<close>

locale credential_writes =
  fixes R :: "conn \<Rightarrow> conn \<Rightarrow> bool" and user :: string
  assumes idle: "R c c"
    and inserting: "R c (snd (exec env (insertCredential i user h e cl l x) (snd (NewID env c))))"
    and identifying: "R c (snd (NewID env c))"
    and renewing: "R c (snd (exec env (renewCredential t i user) c))"
    and revoking: "R c (snd (exec env (deleteCredential i user) c))"

section \<open>The handlers\<close>

definition actsAs :: "string \<Rightarrow> request \<Rightarrow> bool" where
  "actsAs user r \<longleftrightarrow> usernameFromRequest r = '''' \<or> usernameFromRequest r = user"

lemma snd_answer [simp]: "snd (answer res) = snd res"
  by (simp add: answer_def split: prod.splits sum.splits)

context annotation_writes
begin

lemma handleStar:
  assumes "actsAs user r"
  shows "R c (snd (handleStar env r c))"
  using assms unfolding actsAs_def
  by (elim disjE) (simp_all add: handleStar_def requireUsername_def Let_def starInsert_def idle starring)

lemma handleUnstar:
  assumes "actsAs user r"
  shows "R c (snd (handleUnstar env r c))"
  using assms unfolding actsAs_def
  by (elim disjE) (simp_all add: handleUnstar_def requireUsername_def Let_def starDelete_def idle unstarring)

lemma handleSetRating:
  assumes "actsAs user r"
  shows "R c (snd (handleSetRating env r c))"
  using assms unfolding actsAs_def
  by (elim disjE) (simp_all add: handleSetRating_def requireUsername_def Let_def idle rating unrating)

lemma handleScrobble:
  assumes "actsAs user r"
  shows "R c (snd (handleScrobble env r c))"
  using assms unfolding actsAs_def
  by (elim disjE) (simp_all add: handleScrobble_def requireUsername_def Let_def idle scrobbling)

end

context library_writes
begin

lemma readBack:
  assumes "R c c'"
  shows "R c (snd (readBack env u i c'))"
proof -
  obtain x c1 where e1: "exec env (selecting (\<lambda>now d. playlistOf d i)) c' = (x, c1)" by fastforce
  obtain y c2 where e2: "exec env (selecting (playlistSongs i)) c1 = (y, c2)" by fastforce
  obtain z c3 where e3: "exec env (selecting (\<lambda>now d. ())) c2 = (z, c3)" by fastforce
  have c1: "R c c1" by (rule reading [OF assms exec_selecting_afterRead [OF e1]])
  have c2: "R c c2" by (rule reading [OF c1 exec_selecting_afterRead [OF e2]])
  have "R c c3" by (rule reading [OF c2 exec_selecting_afterRead [OF e3]])
  with c1 c2 e1 e2 e3 show ?thesis
    by (simp add: readBack_def Let_def del: exec_Inr split: sum.splits)
qed

lemma created_R:
  "transaction env (createBody env user i name songs) c = (x, c') \<Longrightarrow> R c c'"
  using creating [of c env i name songs] by simp

lemma handleCreatePlaylist:
  assumes "actsAs user r"
  shows "R c (snd (handleCreatePlaylist env r c))"
proof (cases "usernameFromRequest r = ''''")
  case False
  with assms have u: "usernameFromRequest r = user" by (simp add: actsAs_def)
  obtain x c1 where t: "transaction env (createBody env user (FormValue r ''playlistId'')
      (FormValue r ''name'') (formValues r ''songId'')) c = (x, c1)" by fastforce
  from created_R [OF t] have c1: "R c c1" .
  have "R c (snd (case x of Inl e \<Rightarrow> (errResponse 0 ''database error'', c1) | Inr i \<Rightarrow> readBack env user i c1))"
    using c1 readBack [OF c1] by (cases x) simp_all
  with t u False show ?thesis
    by (cases x) (simp_all add: handleCreatePlaylist_def requireUsername_def Let_def idle)
qed (simp add: handleCreatePlaylist_def requireUsername_def Let_def idle)

lemma handleUpdatePlaylist:
  assumes "actsAs user r"
  shows "R c (snd (handleUpdatePlaylist env r c))"
  using assms unfolding actsAs_def
  by (elim disjE) (simp_all add: handleUpdatePlaylist_def requireUsername_def Let_def idle updating)

lemma handleDeletePlaylist:
  assumes "actsAs user r"
  shows "R c (snd (handleDeletePlaylist env r c))"
  using assms unfolding actsAs_def
  by (elim disjE) (simp_all add: handleDeletePlaylist_def requireUsername_def Let_def idle deleting)

end

text \<open>How far a mint in the management UI gets.\<close>

lemma mint_run:
  "snd (handleMintCredential cy cfg pd mi env now q s c) = c
   \<or> snd (handleMintCredential cy cfg pd mi env now q s c) = snd (NewID env c)
   \<or> (\<exists>sess i h e cl l t. getSession now q (ms_sessions s) = Some sess
        \<and> snd (handleMintCredential cy cfg pd mi env now q s c)
          = snd (exec env (insertCredential i (ss_Username sess) h e cl l t) (snd (NewID env c))))"
proof -
  let ?m = "handleMintCredential cy cfg pd mi env now q s c"
  let ?la = "FormValue q ''legacy_auth'' = ''1''"
  obtain i c1 where i: "NewID env c = (Inr i, c1)" by (simp add: NewID_def)
  show ?thesis
  proof (cases "randomBase62 (mi_draw mi) 32")
    case None
    then show ?thesis by (simp add: handleMintCredential_def)
  next
    case s1: (Some secret)
    show ?thesis
    proof (cases "mi_hash mi secret")
      case None
      with s1 show ?thesis by (simp add: handleMintCredential_def)
    next
      case s2: (Some hashed)
      show ?thesis
      proof (cases "if ?la then EncryptPassword (cy_aes cy) (mi_nonce mi) (cfg_EncryptionKey cfg) secret else Inr []")
        case (Inl e)
        with s1 s2 show ?thesis by (simp add: handleMintCredential_def Let_def split: if_splits)
      next
        case (Inr enc)
        let ?ttl = "if FormValue q ''ttl'' = '''' then cfg_CredentialTTL cfg
          else if FormValue q ''ttl'' = ''0'' then 0
          else case pd (FormValue q ''ttl'') of None \<Rightarrow> cfg_CredentialTTL cfg | Some parsed \<Rightarrow> parsed"
        let ?x = "if ?ttl > 0 then Some (localStamp env (mi_now mi + ?ttl)) else None"
        show ?thesis
        proof (cases "ev_pool env")
          case False
          with s1 s2 Inr i have "snd ?m = c1"
            unfolding handleMintCredential_def Let_def by (simp del: NewID_Inr)
          with i show ?thesis by (simp del: NewID_Inr)
        next
          case p: True
          show ?thesis
          proof (cases "getSession now q (ms_sessions s)")
            case None
            with s1 s2 Inr i p have "snd ?m = c1"
              unfolding handleMintCredential_def Let_def by (simp del: NewID_Inr)
            with i show ?thesis by (simp del: NewID_Inr)
          next
            case (Some sess)
            obtain y c2 where e: "exec env (insertCredential i (ss_Username sess) hashed
                (if ?la then Some enc else None) (FormValue q ''client_name'') (if ?la then 1 else 0) ?x)
                c1 = (y, c2)" by fastforce
            from s1 s2 Inr i p Some e have "snd ?m = c2"
              unfolding handleMintCredential_def Let_def
              by (cases y) (simp_all del: NewID_Inr exec_Inr)
            with e have "snd ?m = snd (exec env (insertCredential i (ss_Username sess) hashed
                (if ?la then Some enc else None) (FormValue q ''client_name'') (if ?la then 1 else 0) ?x)
                (snd (NewID env c)))" using i by (simp del: NewID_Inr)
            with Some show ?thesis by blast
          qed
        qed
      qed
    qed
  qed
qed

context credential_writes
begin

lemma NewID_R: "NewID env c = (x, c1) \<Longrightarrow> R c c1"
  using identifying [of c env] by simp

lemma insert_R: "NewID env c = (x, c1) \<Longrightarrow> exec env (insertCredential i user h e cl l t) c1 = (y, c2) \<Longrightarrow> R c c2"
  using inserting [of c env i h e cl l t] by simp

lemma renew_R: "exec env (renewCredential t i user) c = (y, c2) \<Longrightarrow> R c c2"
  using renewing [of c env t i] by simp

lemma revoke_R: "exec env (deleteCredential i user) c = (y, c2) \<Longrightarrow> R c c2"
  using revoking [of c env i] by simp

lemma handleAdminCreateCredential:
  assumes [simp]: "adminUsername r = user"
  shows "R c (snd (handleAdminCreateCredential cy cfg pd mi env r body c))"
  by (auto simp: handleAdminCreateCredential_def Let_def idle simp del: exec_Inr NewID_Inr
      dest: NewID_R insert_R split: option.splits sum.splits prod.splits)

lemma handleAdminRenewCredential:
  assumes [simp]: "adminUsername r = user"
  shows "R c (snd (handleAdminRenewCredential cfg now rn env rd r i c))"
  by (auto simp: handleAdminRenewCredential_def Let_def idle simp del: exec_Inr
      dest: renew_R split: option.splits sum.splits prod.splits)

lemma handleAdminDeleteCredential:
  assumes [simp]: "adminUsername r = user"
  shows "R c (snd (snd (handleAdminDeleteCredential env r i st c)))"
  by (auto simp: handleAdminDeleteCredential_def Let_def idle simp del: exec_Inr
      dest: revoke_R split: option.splits sum.splits prod.splits)

lemma handleMintCredential:
  assumes "\<And>sess. getSession now q (ms_sessions s) = Some sess \<Longrightarrow> ss_Username sess = user"
  shows "R c (snd (handleMintCredential cy cfg pd mi env now q s c))"
  using mint_run [of cy cfg pd mi env now q s c] assms idle identifying [of c env] inserting [of c env]
  by auto

lemma handleRenewCredential:
  assumes "\<And>sess. getSession now q (ms_sessions s) = Some sess \<Longrightarrow> ss_Username sess = user"
  shows "R c (snd (handleRenewCredential cfg now cn rn env rd q i s c))"
proof (cases "getSession now q (ms_sessions s)")
  case (Some sess)
  with assms have "ss_Username sess = user" by simp
  with Some show ?thesis
    by (simp add: handleRenewCredential_def Let_def idle renew_R del: exec_Inr
        split: option.split sum.split prod.split)
qed (simp add: handleRenewCredential_def Let_def idle)

lemma handleRevokeCredential:
  assumes "\<And>sess. getSession now q (ms_sessions s) = Some sess \<Longrightarrow> ss_Username sess = user"
  shows "R c (snd (handleRevokeCredential env now q i s c))"
proof (cases "getSession now q (ms_sessions s)")
  case (Some sess)
  with assms have "ss_Username sess = user" by simp
  with Some show ?thesis
    by (simp add: handleRevokeCredential_def Let_def idle revoke_R del: exec_Inr
        split: option.split sum.split prod.split)
qed (simp add: handleRevokeCredential_def Let_def idle)

end

section \<open>The schema\<close>

lemma schema_exec: "preserves schemaOK s \<Longrightarrow> connOK c \<Longrightarrow> connOK (snd (exec env s c))"
  using keeps_exec [of schemaOK s env] by (simp add: keeps_def connOK_holds)

lemma schema_transaction: "keeps schemaOK m \<Longrightarrow> connOK c \<Longrightarrow> connOK (snd (transaction env m c))"
  using keeps_transaction [of schemaOK m env] by (simp add: keeps_def connOK_holds)

text \<open>Every write is checked against the schema.\<close>

lemma preserves_schema [keep_intro]:
  "preserves schemaOK (checked f)" "preserves schemaOK (checkedRet g)"
  by (rule preserves_checked, assumption) (rule preserves_checkedRet, assumption)

lemmas annotation_stmts = insertStar_def deleteStar_def upsertRating_def deleteRating_def insertPlay_def
lemmas playlist_stmts = insertPlaylist_def setName_def setComment_def setPublic_def updatePlaylist_def
  deletePlaylist_def insertEntry_def deleteEntries_def deleteEntryAt_def
lemmas annotation_bodies = starInsertBody_def starDeleteBody_def scrobbleBody_def
lemmas playlist_bodies = createBody_def insertAll_def updateBody_def removeBody_def addBody_def
  resequencePlaylist_def deleteBody_def
lemmas credential_stmts = insertCredential_def renewCredential_def deleteCredential_def

lemma afterRead_ok: "connOK c \<Longrightarrow> afterRead c c' \<Longrightarrow> connOK c'"
  by (auto simp: afterRead_def)

interpretation schemaLib: library_writes "\<lambda>c c'. connOK c \<longrightarrow> connOK c'" user for user
proof (unfold_locales, goal_cases)
  case (2 c env ps r) show ?case
    by (intro impI schema_transaction) (auto simp: annotation_bodies annotation_stmts intro!: keep_intro)
next
  case (3 c env ps r) show ?case
    by (intro impI schema_transaction) (auto simp: annotation_bodies annotation_stmts intro!: keep_intro)
next
  case (6 c env ids tms) show ?case
    by (intro impI schema_transaction) (auto simp: annotation_bodies annotation_stmts intro!: keep_intro)
next
  case (7 c env i name songs) show ?case
    by (intro impI schema_transaction) (auto simp: playlist_bodies playlist_stmts intro!: keep_intro)
next
  case (8 c env i rq) show ?case
    by (intro impI schema_transaction) (auto simp: playlist_bodies playlist_stmts Let_def intro!: keep_intro)
next
  case (9 c env i) show ?case
    by (intro impI schema_transaction) (auto simp: playlist_bodies playlist_stmts Let_def intro!: keep_intro)
qed (auto simp: annotation_stmts intro: schema_exec keep_intro afterRead_ok)

interpretation schemaCred: credential_writes "\<lambda>c c'. connOK c \<longrightarrow> connOK c'" user for user
  by unfold_locales (auto simp: credential_stmts NewID_def intro: schema_exec keep_intro)

section \<open>Views of what is committed\<close>

text \<open>
  A view of the tables that no statement changes is the same in what is committed before and after,
  also when an earlier failure has left a transaction open: nothing is committed then.
\<close>

lemma view_exec:
  assumes "\<And>X. preserves (\<lambda>d. F d = X) s"
  shows "F (committed (snd (exec env s c))) = F (committed c)"
proof (cases "cn_saved c")
  case None
  then have "holds (\<lambda>d. F d = F (committed c)) c" by (simp add: holds_def committed_closed)
  moreover have "keeps (\<lambda>d. F d = F (committed c)) (exec env s)" by (intro keeps_exec assms)
  ultimately show ?thesis by (simp add: keeps_def holds_def)
next
  case (Some d)
  then show ?thesis
    by (auto simp: exec_def committed_def split: fault.splits option.splits) (auto simp: faulted_def committed_def)
qed

lemma view_transaction:
  assumes "\<And>X. keeps (\<lambda>d. F d = X) m"
  shows "F (committed (snd (transaction env m c))) = F (committed c)"
proof (cases "cn_saved c")
  case None
  then have "holds (\<lambda>d. F d = F (committed c)) c" by (simp add: holds_def committed_closed)
  moreover have "keeps (\<lambda>d. F d = F (committed c)) (transaction env m)" by (intro keeps_transaction assms)
  ultimately show ?thesis by (simp add: keeps_def holds_def)
next
  case (Some d)
  obtain x c1 where b: "beginTx env c = (x, c1)" by fastforce
  with Some obtain e where "x = Inl e" by (cases x) (auto simp: beginTx_def split: fault.splits)
  with b beginTx_Inl [of env c e c1] show ?thesis by (simp add: transaction_no_begin)
qed

lemma view_afterRead: "F (committed c') = F (committed c) \<Longrightarrow> afterRead c' c'' \<Longrightarrow> F (committed c'') = F (committed c)"
  by (auto simp: afterRead_def)

subsection \<open>What belongs to other users\<close>

text \<open>
  The stars, ratings, plays and playlist rows of the others, every credential and the library. The
  entries of playlists are not in it: the playlist handlers change them whoever owns the playlist.
\<close>

definition outsideOf :: "string \<Rightarrow> db \<Rightarrow> star_row list \<times> rating_row list \<times> play_row list
    \<times> playlist_row list \<times> credential_row list \<times> artist_row list \<times> album_row list \<times> song_row list" where
  "outsideOf user d =
     (filter (\<lambda>x. st_user x \<noteq> user) (db_star d), filter (\<lambda>x. rt_user x \<noteq> user) (db_rating d),
      filter (\<lambda>x. ph_user x \<noteq> user) (db_play d), filter (\<lambda>p. pl_user p \<noteq> user) (db_playlist d),
      db_credential d, db_artist d, db_album d, db_song d)"

lemma filter_map_other:
  "(\<And>x. P (f x) = P x) \<Longrightarrow> (\<And>x. P x \<Longrightarrow> f x = x) \<Longrightarrow> filter P (map f xs) = filter P xs"
  by (induction xs) auto

lemma outside_annotations [keep_intro]:
  "preserves (\<lambda>d. outsideOf user d = X) (insertStar i user item ty)"
  "preserves (\<lambda>d. outsideOf user d = X) (deleteStar user item ty)"
  "preserves (\<lambda>d. outsideOf user d = X) (upsertRating user item n)"
  "preserves (\<lambda>d. outsideOf user d = X) (deleteRating user item)"
  "preserves (\<lambda>d. outsideOf user d = X) (insertPlay i song user played)"
  unfolding annotation_stmts
  by (rule preserves_checked; auto simp: outsideOf_def Let_def
      intro!: filter_cong filter_map_other split: if_splits)+

lemma outside_playlists [keep_intro]:
  "preserves (\<lambda>d. outsideOf user d = X) (insertPlaylist i user name)"
  "preserves (\<lambda>d. outsideOf user d = X) (deletePlaylist i user)"
  "preserves (\<lambda>d. outsideOf user d = X) (insertEntry i song pos)"
  "preserves (\<lambda>d. outsideOf user d = X) (deleteEntries i)"
  "preserves (\<lambda>d. outsideOf user d = X) (deleteEntryAt i pos)"
  unfolding playlist_stmts
  by (rule preserves_checked; auto simp: outsideOf_def Let_def intro!: filter_cong)+

lemma outside_setters [keep_intro]:
  "preserves (\<lambda>d. outsideOf user d = X) (setName name i user)"
  "preserves (\<lambda>d. outsideOf user d = X) (setComment comment i user)"
  "preserves (\<lambda>d. outsideOf user d = X) (setPublic pub i user)"
  unfolding playlist_stmts
  by (rule preserves_checked; auto simp: outsideOf_def intro!: filter_map_other split: if_splits)+

interpretation outside: library_writes
  "\<lambda>c c'. outsideOf user (committed c') = outsideOf user (committed c)" user for user
proof (unfold_locales, goal_cases)
  case (2 c env ps r) show ?case
    by (rule view_transaction) (auto simp: annotation_bodies intro!: keep_intro)
next
  case (3 c env ps r) show ?case
    by (rule view_transaction) (auto simp: annotation_bodies intro!: keep_intro)
next
  case (6 c env ids tms) show ?case
    by (rule view_transaction) (auto simp: annotation_bodies intro!: keep_intro)
next
  case (7 c env i name songs) show ?case
    by (rule view_transaction) (auto simp: playlist_bodies intro!: keep_intro)
next
  case (8 c env i rq) show ?case
    by (rule view_transaction) (auto simp: playlist_bodies Let_def intro!: keep_intro)
next
  case (9 c env i) show ?case
    by (rule view_transaction) (auto simp: playlist_bodies Let_def intro!: keep_intro)
qed (auto intro: view_exec keep_intro view_afterRead)

subsection \<open>The playlists' entries\<close>

lemma entries_annotations [keep_intro]:
  "preserves (\<lambda>d. db_plsong d = X) (insertStar i user item ty)"
  "preserves (\<lambda>d. db_plsong d = X) (deleteStar user item ty)"
  "preserves (\<lambda>d. db_plsong d = X) (upsertRating user item n)"
  "preserves (\<lambda>d. db_plsong d = X) (deleteRating user item)"
  "preserves (\<lambda>d. db_plsong d = X) (insertPlay i song user played)"
  unfolding annotation_stmts by (rule preserves_checked; simp add: Let_def)+

interpretation entries: annotation_writes
  "\<lambda>c c'. db_plsong (committed c') = db_plsong (committed c)" user for user
proof (unfold_locales, goal_cases)
  case (2 c env ps r) show ?case
    by (rule view_transaction) (auto simp: annotation_bodies intro!: keep_intro)
next
  case (3 c env ps r) show ?case
    by (rule view_transaction) (auto simp: annotation_bodies intro!: keep_intro)
next
  case (6 c env ids tms) show ?case
    by (rule view_transaction) (auto simp: annotation_bodies intro!: keep_intro)
qed (auto intro: view_exec keep_intro)

lemma others_credentials [keep_intro]:
  "preserves (\<lambda>d. d\<lparr>db_credential := []\<rparr> = X) (insertCredential i user h e cl l t)"
  "preserves (\<lambda>d. d\<lparr>db_credential := []\<rparr> = X) (renewCredential x i user)"
  "preserves (\<lambda>d. d\<lparr>db_credential := []\<rparr> = X) (deleteCredential i user)"
  unfolding credential_stmts
  by (rule preserves_checked, simp) (rule preserves_checkedRet, simp)+

interpretation otherTables: credential_writes
  "\<lambda>c c'. (committed c')\<lparr>db_credential := []\<rparr> = (committed c)\<lparr>db_credential := []\<rparr>" user for user
  by unfold_locales (simp_all add: NewID_def view_exec [where F = "\<lambda>d. d\<lparr>db_credential := []\<rparr>"] others_credentials)

end
