(* ===== verification/Server_Facts.thy ===== *)
theory Server_Facts
  imports Isolation Scan_Facts Sample
begin

text \<open>
  The server as a whole: what each port lets through without a credential, what a user's requests
  may change, and what holds in every state a sequence of requests, scans and reaps leads to.
\<close>

section \<open>Routes\<close>

context library_writes
begin

lemma serveRest_R: "actsAs user r \<Longrightarrow> R (sv_conn s) (sv_conn (snd (serveRest d inp r s h)))"
  by (cases h) (simp_all add: idle wrote_def scanStarted_def handleStar handleUnstar handleScrobble handleSetRating
      handleCreatePlaylist handleUpdatePlaylist handleDeletePlaylist split: prod.split)

end

lemma serveRest_frame:
  "sv_manage (snd (serveRest d inp r s h)) = sv_manage s"
  "sv_auth (snd (serveRest d inp r s h)) = sv_auth s"
  "sv_scanner (snd (serveRest d inp r s h)) = sv_scanner s"
  "sv_scans s \<le> sv_scans (snd (serveRest d inp r s h))"
  by (cases h; simp add: wrote_def scanStarted_def split: prod.split)+

lemma serveRest_scans:
  "sv_scans (snd (serveRest d inp r s h)) > sv_scans s \<Longrightarrow> sv_scanner s \<noteq> None"
  by (cases h) (auto simp: wrote_def scanStarted_def handleStartScan_def split: prod.splits option.splits if_splits)

lemma actsAs_self [simp]: "actsAs (usernameFromRequest r) r"
  by (simp add: actsAs_def)

lemma fst_snd_log [simp]: "snd (loggingMiddleware inp r res) = snd res"
  by (simp add: loggingMiddleware_def)

section \<open>What a user's requests may change\<close>

lemma restHandler_passed:
  assumes "authMiddleware (dp_crypto d) (dp_cfg d) (in_times inp) (readerOf inp 0 (sv_conn s)) r (sv_auth s)
      = (Passed r', st)"
  shows "restHandler d inp r s =
    (case mux subsonicRoutes (rq_method r') (rq_path r') of
       Matched h vs \<Rightarrow> serveRest d inp r' (s\<lparr>sv_auth := st\<rparr>) h
     | m \<Rightarrow> (unmatched m, s\<lparr>sv_auth := st\<rparr>))"
  using assms by (simp add: restHandler_def Let_def)

lemma restHandler_denied:
  assumes "authMiddleware (dp_crypto d) (dp_cfg d) (in_times inp) (readerOf inp 0 (sv_conn s)) r (sv_auth s)
      = (Denied resp, st)"
  shows "restHandler d inp r s = (api r resp, s\<lparr>sv_auth := st\<rparr>)"
  using assms by (simp add: restHandler_def Let_def)


section \<open>What needs no credential\<close>

text \<open>Answers that carry nothing of the library, of the users or of their credentials.\<close>

fun publicPage :: "page \<Rightarrow> bool" where
  "publicPage (Dashboard cs) = False"
| "publicPage (CredentialRow c) = False"
| "publicPage (CredentialCreated a b c e) = False"
| "publicPage p = True"

fun publicAnswer :: "answer \<Rightarrow> bool" where
  "publicAnswer (Api enc resp) = (\<not> succeeded resp)"
| "publicAnswer (PageAnswer p) = publicPage (mr_page p)"
| "publicAnswer (MediaAnswer m) = False"
| "publicAnswer (AdminAnswer a) = False"
| "publicAnswer _ = True"

lemma publicAnswer_unmatched [simp]: "publicAnswer (unmatched m)"
  by (cases m) (simp_all add: unmatched_def)

lemma authMiddleware_denied:
  assumes "authMiddleware cy cfg t rd r st = (Denied resp, st')"
  shows "\<not> succeeded resp"
  using assms
  by (auto simp: authMiddleware_def Let_def fail_def pass_def wrongPassword_def tooMany_def
      split: if_splits prod.splits option.splits)

text \<open>An authenticator's login page shows no credential.\<close>

locale public_login =
  fixes A :: "'a authn"
  assumes login_public: "publicPage (mr_page (fst (an_login A li r a)))"
begin

lemma manageHandler_public:
  assumes "dp_authn d = A" "\<not> requireSession (in_gate inp) r m" "manageHandler d inp r m s = (a, s')"
  shows "publicAnswer a \<and> sv_conn s' = sv_conn s \<and> sv_files s' = sv_files s \<and> sv_scans s' = sv_scans s
    \<and> sv_scanner s' = sv_scanner s \<and> sv_auth s' = sv_auth s"
proof (cases "mux manageRoutes (rq_method r) (rq_path r)")
  case (Matched h vs)
  show ?thesis
  proof (cases h)
    case LoginForm
    with Matched assms login_public [of "in_login inp" r "ms_auth m"] show ?thesis
      by (auto simp: manageHandler_def needsSession_def authed_def handleLoginPage_def split: prod.splits)
  qed (use Matched assms in \<open>auto simp: manageHandler_def needsSession_def authed_def redirectToDashboard_def
        redirect_def httpError_def showPage_def handleLoginSubmit_def handleCallback_def login_def Let_def
        split: prod.splits option.splits\<close>)
qed (use assms in \<open>auto simp: manageHandler_def\<close>)

end

interpretation secretLogin: public_login secretAuthn
  by unfold_locales (simp add: secretAuthn_def secretLogin_def httpError_def showPage_def)

interpretation oidcLogin: public_login "oidcAuthn op" for op
  by unfold_locales (simp add: oidcAuthn_def redirect_def Let_def split: prod.split)

lemma SubsonicHandler_cases:
  assumes "SubsonicHandler d inp r s = ((a, l), s')"
  obtains "restHandler d inp r s = (a, s')"
  | m where "sv_manage s = Some m" "manageHandler d inp r m s = (a, s')"
  | "a = Status 404" "s' = s" | x where "a = unmatched (x :: topRoute muxResult)" "s' = s"
  using assms
  by (auto simp: SubsonicHandler_def loggingMiddleware_def split: muxResult.splits topRoute.splits option.splits)

lemma collectorAuth_refused:
  assumes "adminAuthMiddleware cfg r = None" "headerGet r ''Authorization'' \<noteq> ''Bearer '' @ cfg_CollectorToken cfg"
  shows "\<exists>code. collectorAuth cfg r = CollectorAnswer code"
proof -
  have "hdr = ''Bearer '' @ drop (length ''Bearer '') hdr" if "hasPrefix hdr ''Bearer ''" for hdr
    using that append_take_drop_id [of "length ''Bearer ''" hdr] unfolding hasPrefix_def by metis
  with assms show ?thesis by (fastforce simp: collectorAuth_def Let_def)
qed


section \<open>What always holds\<close>

text \<open>
  A well-formed state: the write connection sees and has committed tables that satisfy the schema,
  every session is stored under its identifier, no scan is recorded as running between the steps, and
  one can only be due when there is a scanner.
\<close>

definition sessionsOK :: "'a ManageServer \<Rightarrow> bool" where
  "sessionsOK m \<longleftrightarrow> (\<forall>k x. ms_sessions m k = Some x \<longrightarrow> ss_ID x = k)"

definition serverOK :: "'a server \<Rightarrow> bool" where
  "serverOK s \<longleftrightarrow> connOK (sv_conn s) \<and> (\<forall>m. sv_manage s = Some m \<longrightarrow> sessionsOK m)
     \<and> (\<forall>sc. sv_scanner s = Some sc \<longrightarrow> \<not> sc_scanning sc) \<and> (sv_scans s > 0 \<longrightarrow> sv_scanner s \<noteq> None)"

definition sessionUser :: "int \<Rightarrow> request \<Rightarrow> 'a ManageServer \<Rightarrow> string" where
  "sessionUser now r m = (case getSession now r (ms_sessions m) of Some sess \<Rightarrow> ss_Username sess | None \<Rightarrow> '''')"

lemma sessionUser_Some [simp]: "getSession now r (ms_sessions m) = Some sess \<Longrightarrow> ss_Username sess = sessionUser now r m"
  by (simp add: sessionUser_def)

text \<open>The two interfaces to the credentials, whatever the relation.\<close>

lemma serveManage_conn:
  assumes "\<And>user. credential_writes R user"
  shows "R (sv_conn s) (sv_conn (snd (serveManage d inp r m s h vs)))"
proof -
  note R = assms [of "sessionUser (in_session inp) r m"]
  note L = credential_writes.handleMintCredential [OF R, OF sessionUser_Some]
    credential_writes.handleRenewCredential [OF R, OF sessionUser_Some]
    credential_writes.handleRevokeCredential [OF R, OF sessionUser_Some] credential_writes.idle [OF R]
  show ?thesis
    by (cases h) (simp_all add: authed_def pagedConn_def readBackOf_def L)
qed

lemma serveAdmin_conn:
  assumes "\<And>user. credential_writes R user"
  shows "R (sv_conn s) (sv_conn (snd (serveAdmin d inp r s h vs)))"
proof -
  note R = assms [of "adminUsername r"]
  note L = credential_writes.handleAdminCreateCredential [OF R refl]
    credential_writes.handleAdminRenewCredential [OF R refl]
    credential_writes.handleAdminDeleteCredential [OF R refl] credential_writes.idle [OF R]
  show ?thesis
    by (cases h) (simp_all add: readBackOf_def L scanStarted_def split_beta)
qed

lemma serveAdmin_frame:
  "sv_manage (snd (serveAdmin d inp r s h vs)) = sv_manage s"
  "sv_scanner (snd (serveAdmin d inp r s h vs)) = sv_scanner s"
  "sv_scans (snd (serveAdmin d inp r s h vs)) > sv_scans s \<Longrightarrow> sv_scanner s \<noteq> None"
  "sv_scans s \<le> sv_scans (snd (serveAdmin d inp r s h vs))"
  by (cases h; auto simp: scanStarted_def handleAdminStartScan_def split_beta split: option.splits)+

lemma serveManage_frame:
  "sv_scanner (snd (serveManage d inp r m s h vs)) = sv_scanner s"
  "sv_scans (snd (serveManage d inp r m s h vs)) = sv_scans s"
  by (cases h; simp add: authed_def pagedConn_def)+

lemma login_sessionsOK: "sessionsOK m \<Longrightarrow> sessionsOK (snd (login A failed rnd now r m))"
  by (auto simp: login_def createSession_def sessionsOK_def Let_def split: prod.splits option.splits if_splits)

lemma serveManage_sessions:
  assumes "sessionsOK m" "sv_manage s = Some m" "sv_manage (snd (serveManage d inp r m s h vs)) = Some m'"
  shows "sessionsOK m'"
proof (cases "h = LoginSubmit \<or> h = Callback")
  case True
  with assms login_sessionsOK [OF assms(1), of "dp_authn d"] show ?thesis
    by (auto simp: authed_def handleLoginSubmit_def handleCallback_def)
next
  case False
  with assms show ?thesis
    by (cases h) (auto simp: authed_def pagedConn_def handleLoginPage_def handleLogout_def deleteSession_def
        sessionsOK_def split: prod.splits option.splits if_splits)
qed

text \<open>One request to the Subsonic API either reaches a handler or changes the authentication's state.\<close>

lemma restHandler_cases:
  assumes "restHandler d inp r s = (a, s')"
  obtains (served) r' st h where
    "authMiddleware (dp_crypto d) (dp_cfg d) (in_times inp) (readerOf inp 0 (sv_conn s)) r (sv_auth s) = (Passed r', st)"
    "s' = snd (serveRest d inp r' (s\<lparr>sv_auth := st\<rparr>) h)"
  | (refused) st where "s' = s\<lparr>sv_auth := st\<rparr>"
proof -
  obtain res st where
    m: "authMiddleware (dp_crypto d) (dp_cfg d) (in_times inp) (readerOf inp 0 (sv_conn s)) r (sv_auth s) = (res, st)"
    by fastforce
  show ?thesis
  proof (cases res)
    case (Denied resp)
    with m assms restHandler_denied [of d inp s r resp st] show ?thesis by (intro refused [of st]) simp
  next
    case (Passed r')
    with m have p: "authMiddleware (dp_crypto d) (dp_cfg d) (in_times inp) (readerOf inp 0 (sv_conn s)) r (sv_auth s)
      = (Passed r', st)" by simp
    note h = restHandler_passed [OF p]
    show ?thesis
    proof (cases "mux subsonicRoutes (rq_method r') (rq_path r')")
      case (Matched h vs)
      with assms restHandler_passed [OF p] show ?thesis by (intro served [OF p, of h]) simp
    qed (use assms h in \<open>auto intro: refused [of st]\<close>)
  qed
qed

lemma restHandler_conn:
  assumes "restHandler d inp r s = (a, s')" "\<And>user. library_writes R user"
  shows "R (sv_conn s) (sv_conn s')"
  using assms(1)
proof (cases rule: restHandler_cases)
  case (served r' st h)
  from library_writes.serveRest_R [OF assms(2) actsAs_self, of "s\<lparr>sv_auth := st\<rparr>" d inp r' h] served(2)
  show ?thesis by simp
next
  case (refused st)
  with annotation_writes.idle [OF library_writes.axioms(1) [OF assms(2)]] show ?thesis by simp
qed

lemma restHandler_frame:
  assumes "restHandler d inp r s = (a, s')"
  shows "sv_manage s' = sv_manage s \<and> sv_scanner s' = sv_scanner s \<and> (sv_scans s' > sv_scans s \<longrightarrow> sv_scanner s \<noteq> None)"
  using assms
proof (cases rule: restHandler_cases)
  case (served r' st h)
  with serveRest_scans [of "s\<lparr>sv_auth := st\<rparr>" d inp r' h] show ?thesis by (simp add: serveRest_frame)
qed simp

lemma manageHandler_cases:
  assumes "manageHandler d inp r m s = (a, s')"
  obtains (kept) "s' = s" | (served) h vs where "s' = snd (serveManage d inp r m s h vs)"
proof (cases "mux manageRoutes (rq_method r) (rq_path r)")
  case (Matched h vs)
  with assms show ?thesis
    by (cases "needsSession h \<and> \<not> requireSession (in_gate inp) r m")
      (auto simp: manageHandler_def intro: kept served [of h vs])
qed (use assms in \<open>auto simp: manageHandler_def intro: kept\<close>)

lemma AdminHandler_cases:
  assumes "AdminHandler d inp r s = ((a, l), s')"
  obtains (kept) "s' = s" | (served) r' h vs where "s' = snd (serveAdmin d inp r' s h vs)"
proof (cases "\<exists>r' h vs. s' = snd (serveAdmin d inp r' s h vs)")
  case True
  then show ?thesis using served by blast
next
  case False
  with assms have "s' = s"
    by (auto simp: AdminHandler_def loggingMiddleware_def adminMuxHandler_def
        split: muxResult.splits adminTop.splits collectorResult.splits option.splits)
  then show ?thesis by (rule kept)
qed

text \<open>What a request leaves of the connection, for any relation that all writes keep.\<close>

lemma request_conn:
  assumes "\<And>user. library_writes R user" "\<And>user. credential_writes R user"
  shows "SubsonicHandler d inp r s = ((a, l), s') \<Longrightarrow> R (sv_conn s) (sv_conn s')"
    and "AdminHandler d inp r s = ((b, l'), s') \<Longrightarrow> R (sv_conn s) (sv_conn s')"
proof -
  have idle: "R c c" for c by (rule credential_writes.idle [OF assms(2)])
  show "R (sv_conn s) (sv_conn s')" if "SubsonicHandler d inp r s = ((a, l), s')"
    using that
  proof (cases rule: SubsonicHandler_cases)
    case 1
    from restHandler_conn [OF this assms(1)] show ?thesis .
  next
    case (2 m)
    from 2(2) show ?thesis
      by (cases rule: manageHandler_cases) (simp_all add: idle serveManage_conn [OF assms(2)])
  qed (simp_all add: idle)
  show "R (sv_conn s) (sv_conn s')" if "AdminHandler d inp r s = ((b, l'), s')"
    using that by (cases rule: AdminHandler_cases) (simp_all add: idle serveAdmin_conn [OF assms(2)])
qed

lemma request_rest:
  assumes "serverOK s"
  shows "SubsonicHandler d inp r s = ((a, l), s') \<Longrightarrow> (\<forall>m. sv_manage s' = Some m \<longrightarrow> sessionsOK m)
      \<and> sv_scanner s' = sv_scanner s \<and> (sv_scans s' > 0 \<longrightarrow> sv_scanner s \<noteq> None)"
    and "AdminHandler d inp r s = ((b, l'), s') \<Longrightarrow> (\<forall>m. sv_manage s' = Some m \<longrightarrow> sessionsOK m)
      \<and> sv_scanner s' = sv_scanner s \<and> (sv_scans s' > 0 \<longrightarrow> sv_scanner s \<noteq> None)"
proof -
  show "(\<forall>m. sv_manage s' = Some m \<longrightarrow> sessionsOK m)
      \<and> sv_scanner s' = sv_scanner s \<and> (sv_scans s' > 0 \<longrightarrow> sv_scanner s \<noteq> None)"
    if "SubsonicHandler d inp r s = ((a, l), s')"
    using that
  proof (cases rule: SubsonicHandler_cases)
    case 1
    from restHandler_frame [OF this] assms show ?thesis unfolding serverOK_def by (metis gr0I not_gr_zero)
  next
    case (2 m)
    from 2(2) show ?thesis
    proof (cases rule: manageHandler_cases)
      case (served h vs)
      with 2(1) assms serveManage_sessions [of m s d inp r h vs] show ?thesis
        by (simp add: serverOK_def serveManage_frame)
    qed (use assms in \<open>simp add: serverOK_def\<close>)
  qed (use assms in \<open>simp_all add: serverOK_def\<close>)
  show "(\<forall>m. sv_manage s' = Some m \<longrightarrow> sessionsOK m)
      \<and> sv_scanner s' = sv_scanner s \<and> (sv_scans s' > 0 \<longrightarrow> sv_scanner s \<noteq> None)"
    if "AdminHandler d inp r s = ((b, l'), s')"
    using that
  proof (cases rule: AdminHandler_cases)
    case (served r' h vs)
    with assms serveAdmin_frame(3) [of s d inp r' h vs] show ?thesis
      by (cases "sv_scans s > 0") (auto simp: serverOK_def serveAdmin_frame)
  qed (use assms in \<open>simp add: serverOK_def\<close>)
qed

lemma sessionsOK_reap: "sessionsOK m \<Longrightarrow> sessionsOK (m\<lparr>ms_sessions := reapSessions now (ms_sessions m), ms_auth := a\<rparr>)"
  by (auto simp: sessionsOK_def reapSessions_def split: option.splits if_splits)

lemma Run_state:
  assumes "Run env es onDisk deliver sc c = (x, sc', c')" "connOK c" "\<not> sc_scanning sc"
  shows "connOK c' \<and> \<not> sc_scanning sc'"
  using assms scanBody_schema [OF assms(2), of env es onDisk deliver]
  by (auto simp: Run_def split: if_splits prod.splits)

lemma serverStep_ok [wf_intro]:
  assumes "serverOK s"
  shows "serverOK (serverStep d ev s)"
proof (cases ev)
  case (SubsonicRequest inp r)
  obtain a l s' where h: "SubsonicHandler d inp r s = ((a, l), s')" by (metis prod.collapse)
  from request_conn(1) [OF schemaLib.library_writes_axioms schemaCred.credential_writes_axioms h]
    request_rest(1) [OF assms h] assms h
  show ?thesis by (simp add: SubsonicRequest serverOK_def)
next
  case (AdminRequest inp r)
  obtain a l s' where h: "AdminHandler d inp r s = ((a, l), s')" by (metis prod.collapse)
  from request_conn(2) [OF schemaLib.library_writes_axioms schemaCred.credential_writes_axioms h]
    request_rest(2) [OF assms h] assms h
  show ?thesis by (simp add: AdminRequest serverOK_def)
next
  case (ScanRuns env es onDisk deliver)
  show ?thesis
  proof (cases "sv_scanner s")
    case (Some sc)
    obtain x sc' c' where "Run env es onDisk deliver sc (sv_conn s) = (x, sc', c')" by (metis prod.collapse)
    with Run_state [OF this] Some assms show ?thesis by (auto simp: ScanRuns serverOK_def)
  qed (use assms in \<open>simp add: ScanRuns\<close>)
next
  case (Reaps now)
  with assms show ?thesis by (auto simp: serverOK_def sessionsOK_reap)
qed

subsection \<open>The playlists stay contiguous\<close>

definition tidy :: "conn \<Rightarrow> bool" where
  "tidy c \<longleftrightarrow> connOK c \<and> allContiguous (committed c)"

lemma allContiguous_cong: "db_plsong d = db_plsong d' \<Longrightarrow> allContiguous d = allContiguous d'"
  by (simp add: allContiguous_iff contiguous_def entriesOf_def)

lemma tidy_same: "tidy c \<Longrightarrow> connOK c' \<Longrightarrow> db_plsong (committed c') = db_plsong (committed c) \<Longrightarrow> tidy c'"
  unfolding tidy_def by (metis allContiguous_cong)

lemma serveRest_tidy:
  assumes "tidy (sv_conn s)"
  shows "tidy (sv_conn (snd (serveRest d inp r s h)))"
proof -
  let ?c = "sv_conn s"
  have ok: "connOK (sv_conn (snd (serveRest d inp r s h)))"
    using schemaLib.serveRest_R [where user = "usernameFromRequest r" and r = r and s = s and d = d
        and inp = inp and h = h] assms by (simp add: tidy_def)
  note playlist = create_keeps_contiguous [of "in_env inp" r ?c] update_keeps_contiguous [of "in_env inp" r ?c]
    delete_keeps_contiguous [of "in_env inp" r ?c]
  have others: "db_plsong (committed (snd (handleStar env r ?c))) = db_plsong (committed ?c)"
    "db_plsong (committed (snd (handleUnstar env r ?c))) = db_plsong (committed ?c)"
    "db_plsong (committed (snd (handleSetRating env r ?c))) = db_plsong (committed ?c)"
    "db_plsong (committed (snd (handleScrobble env r ?c))) = db_plsong (committed ?c)" for env
    by (rule entries.handleStar entries.handleUnstar entries.handleSetRating entries.handleScrobble, rule actsAs_self)+
  show ?thesis
  proof (cases "h \<in> {CreatePlaylist, UpdatePlaylist, DeletePlaylist}")
    case True
    with ok playlist assms show ?thesis by (auto simp: tidy_def wrote_def) (metis prod.collapse)+
  next
    case False
    with others have "db_plsong (committed (sv_conn (snd (serveRest d inp r s h)))) = db_plsong (committed ?c)"
      by (cases h) (simp_all add: wrote_def scanStarted_def split: prod.split)
    from tidy_same [OF assms ok this] show ?thesis .
  qed
qed

lemma credentials_tidy: "credential_writes (\<lambda>c c'. tidy c \<longrightarrow> tidy c') user"
proof -
  have t: "tidy c \<longrightarrow> tidy c'" if "connOK c \<longrightarrow> connOK c'"
    "(committed c')\<lparr>db_credential := []\<rparr> = (committed c)\<lparr>db_credential := []\<rparr>" for c c'
  proof -
    from that(2) have "db_plsong ((committed c')\<lparr>db_credential := []\<rparr>) = db_plsong ((committed c)\<lparr>db_credential := []\<rparr>)"
      by simp
    with that(1) tidy_same show ?thesis by (auto simp: tidy_def)
  qed
  show ?thesis
    by unfold_locales
      (intro t schemaCred.idle schemaCred.inserting schemaCred.identifying schemaCred.renewing schemaCred.revoking
        otherTables.idle otherTables.inserting otherTables.identifying otherTables.renewing otherTables.revoking)+
qed

fun isScan :: "event \<Rightarrow> bool" where
  "isScan (ScanRuns env es onDisk deliver) = True"
| "isScan _ = False"

lemma serverStep_tidy [wf_intro]:
  assumes "tidy (sv_conn s)" "\<not> isScan ev"
  shows "tidy (sv_conn (serverStep d ev s))"
proof (cases ev)
  case (SubsonicRequest inp r)
  obtain a l s' where h: "SubsonicHandler d inp r s = ((a, l), s')" by (metis prod.collapse)
  then have "tidy (sv_conn s')"
  proof (cases rule: SubsonicHandler_cases)
    case 1
    then show ?thesis
    proof (cases rule: restHandler_cases)
      case (served r' st hd)
      with serveRest_tidy [of "s\<lparr>sv_auth := st\<rparr>" d inp r' hd] assms show ?thesis by simp
    qed (use assms in simp)
  next
    case (2 m)
    from 2(2) show ?thesis
      by (cases rule: manageHandler_cases)
        (use assms(1) in \<open>simp_all add: serveManage_conn [OF credentials_tidy, THEN mp]\<close>)
  qed (use assms in simp_all)
  with h show ?thesis by (simp add: SubsonicRequest)
next
  case (AdminRequest inp r)
  obtain a l s' where h: "AdminHandler d inp r s = ((a, l), s')" by (metis prod.collapse)
  then have "tidy (sv_conn s')"
    by (cases rule: AdminHandler_cases)
      (use assms(1) in \<open>simp_all add: serveAdmin_conn [OF credentials_tidy, THEN mp]\<close>)
  with h show ?thesis by (simp add: AdminRequest)
qed (use assms in simp_all)

text \<open>
  Claim C4. A server that starts well-formed is well-formed after any sequence of requests on both
  ports, scans and reaps, with any faults: what the write connection sees and what is committed satisfy
  the schema, sessions are stored under their own identifiers, and no scan is left marked as running.
  And as long as no scan runs, playlists whose positions are 0, 1, 2, ... keep such positions. (A scan
  that deletes songs leaves gaps, which is why it is excluded.)
\<close>

theorem server_wellformed:
  assumes "serverOK s"
  shows "serverOK (runServer d evs s)
    \<and> (allContiguous (committed (sv_conn s)) \<and> list_all (\<lambda>ev. \<not> isScan ev) evs
        \<longrightarrow> allContiguous (committed (sv_conn (runServer d evs s))))"
proof -
  have "serverOK (fold (serverStep d) evs s)
    \<and> (list_all (\<lambda>ev. \<not> isScan ev) evs \<longrightarrow> tidy (sv_conn s) \<longrightarrow> tidy (sv_conn (fold (serverStep d) evs s)))"
    using assms
  proof (induction evs arbitrary: s)
    case (Cons ev evs)
    from Cons.IH [OF serverStep_ok [OF Cons.prems, of d ev]] show ?case
      by (auto intro: serverStep_tidy)
  qed simp
  with assms show ?thesis by (auto simp: runServer_def tidy_def serverOK_def)
qed

end
