(* ===== verification/Log_Facts.thy ===== *)
theory Log_Facts
  imports Server Sample
begin

text \<open>
  What a log entry tells: the encoding of a query reads back as the query, so an entry holds every
  parameter of the request as it was sent except the two that are redacted.
\<close>

section \<open>Escapes\<close>

lemma of_char_below: "(of_char c :: nat) < 256"
  using of_char_mod_256 [of c, where 'a = nat] by (metis mod_less_divisor zero_less_numeral)

lemma below_16: "n < 16 \<Longrightarrow> n \<in> {0,1,2,3,4,5,6,7,8,9,10,11,12,13,14,15::nat}"
  by (simp; arith)

lemma hexVal_upperHex: "n < 16 \<Longrightarrow> hexVal (upperHex n) = Some n"
  by (drule below_16) (auto simp: hexVal_def upperHex_def Let_def)

lemma upperHex_plain: "n < 16 \<Longrightarrow> unreserved (upperHex n)"
  by (drule below_16) (auto simp: upperHex_def unreserved_def isDigit_def Let_def)

definition delimiter :: "char \<Rightarrow> bool" where
  "delimiter c \<longleftrightarrow> c \<in> {CHR ''&'', CHR ''='', CHR '';''}"

lemma unreserved_plain:
  "unreserved c \<Longrightarrow> \<not> delimiter c \<and> c \<noteq> CHR ''%'' \<and> c \<noteq> CHR ''+''"
  by (auto simp: delimiter_def unreserved_def isDigit_def Let_def)

lemma escapeChar_plain: "x \<in> set (escapeChar c) \<Longrightarrow> \<not> delimiter x"
proof -
  assume x: "x \<in> set (escapeChar c)"
  have n: "(of_char c :: nat) div 16 < 16" "(of_char c :: nat) mod 16 < 16"
    using of_char_below [of c] by (simp_all add: div_less_iff_less_mult)
  then have "\<not> delimiter (upperHex (of_char c div 16))" "\<not> delimiter (upperHex (of_char c mod 16))"
    using upperHex_plain unreserved_plain by blast+
  then show "\<not> delimiter x"
    using x unreserved_plain by (auto simp: escapeChar_def Let_def delimiter_def split: if_splits)
qed

lemma queryEscape_plain: "x \<in> set (queryEscape s) \<Longrightarrow> \<not> delimiter x"
  using escapeChar_plain by (auto simp: queryEscape_def)

lemma unescape_escapeChar:
  "queryUnescape (escapeChar c @ t) = map_option (\<lambda>u. c # u) (queryUnescape t)"
proof -
  have n: "(of_char c :: nat) div 16 < 16" "(of_char c :: nat) mod 16 < 16"
    using of_char_below [of c] by (simp_all add: div_less_iff_less_mult)
  have "char_of (16 * (of_char c div 16) + of_char c mod 16 :: nat) = c" by simp
  then show ?thesis
    using unreserved_plain [of c] n by (auto simp: escapeChar_def hexVal_upperHex Let_def)
qed

lemma unescape_escape [simp]: "queryUnescape (queryEscape s) = Some s"
proof -
  have "queryUnescape (queryEscape s @ t) = map_option (\<lambda>u. s @ u) (queryUnescape t)" for t
    by (induction s) (auto simp: queryEscape_def unescape_escapeChar option.map_comp comp_def option.map_ident)
  from this [of "[]"] show ?thesis by simp
qed

section \<open>Queries\<close>

lemma indexByte_first: "c \<notin> set a \<Longrightarrow> indexByte (a @ c # b) c = Some (length a)"
  by (induction a) auto

lemma cut_append: "c \<notin> set a \<Longrightarrow> cut (a @ c # b) c = Some (a, b)"
  by (simp add: cut_def indexByte_first)

lemma addSegment_pair:
  "addSegment q (queryEscape k @ CHR ''='' # queryEscape v) = addValue k v q"
proof -
  have "cut (queryEscape k @ CHR ''='' # queryEscape v) (CHR ''='') = Some (queryEscape k, queryEscape v)"
    using queryEscape_plain [of "CHR ''=''" k] by (intro cut_append) (auto simp: delimiter_def)
  moreover have "CHR '';'' \<notin> set (queryEscape k @ CHR ''='' # queryEscape v)"
    using queryEscape_plain [of "CHR '';''"] by (auto simp: delimiter_def)
  ultimately show ?thesis by (simp add: addSegment_def)
qed

lemma splitOn_plain: "c \<notin> set s \<Longrightarrow> splitOn c s = [s]"
  by (induction s) auto

lemma splitOn_append: "c \<notin> set s \<Longrightarrow> splitOn c (s @ c # t) = s # splitOn c t"
  by (induction s) auto

lemma splitOn_join:
  "xs \<noteq> [] \<Longrightarrow> (\<And>x. x \<in> set xs \<Longrightarrow> c \<notin> set x) \<Longrightarrow> splitOn c (joinWith [c] xs) = xs"
  by (induction "[c]" xs rule: joinWith.induct) (auto simp: splitOn_plain splitOn_append)

definition pairsOf :: "urlValues \<Rightarrow> (string \<times> string) list" where
  "pairsOf q = concat (map (\<lambda>(k, vs). map (Pair k) vs) q)"

lemma parse_encode:
  "parseQuery (valuesEncode q) = foldl (\<lambda>acc (k, v). addValue k v acc) [] (pairsOf (sort_key fst q))"
proof -
  let ?segs = "map (\<lambda>(k, v). queryEscape k @ ''='' @ queryEscape v) (pairsOf (sort_key fst q))"
  have e: "valuesEncode q = joinWith [CHR ''&''] ?segs"
    by (simp add: valuesEncode_def pairsOf_def map_concat comp_def split_def)
  have amp: "CHR ''&'' \<notin> set x" if "x \<in> set ?segs" for x
    using that queryEscape_plain by (fastforce simp: delimiter_def)
  have fold: "foldl addSegment acc (map (\<lambda>(k, v). queryEscape k @ ''='' @ queryEscape v) ps)
    = foldl (\<lambda>acc (k, v). addValue k v acc) acc ps" for acc ps
    by (induction ps arbitrary: acc) (auto simp: addSegment_pair)
  show ?thesis
  proof (cases "?segs = []")
    case True
    then have "pairsOf (sort_key fst q) = []" by simp
    with e True show ?thesis by (simp add: parseQuery_def addSegment_def)
  next
    case False
    from splitOn_join [OF this amp] fold show ?thesis by (simp add: parseQuery_def e)
  qed
qed

text \<open>The shape of parsed queries: each key once, with at least one value.\<close>

definition valuesOK :: "urlValues \<Rightarrow> bool" where
  "valuesOK q \<longleftrightarrow> distinct (map fst q) \<and> [] \<notin> set (map snd q)"

lemma addValue_ok:
  assumes "valuesOK q"
  shows "valuesOK (addValue k v q)"
proof (cases "k \<in> fst ` set q")
  case True
  have "map fst (map (\<lambda>(k', vs). if k' = k then (k', vs @ [v]) else (k', vs)) q) = map fst q"
    "[] \<in> set (map snd (map (\<lambda>(k', vs). if k' = k then (k', vs @ [v]) else (k', vs)) q))
       \<Longrightarrow> [] \<in> set (map snd q)"
    by (induction q) (auto split: if_splits)
  with True assms show ?thesis unfolding valuesOK_def addValue_def by (simp only: if_True) blast
next
  case False
  with assms show ?thesis by (auto simp: valuesOK_def addValue_def)
qed

lemma hide_ok:
  "valuesOK q \<Longrightarrow> valuesOK (map (\<lambda>(k, vs). if P k then (k, [v]) else (k, vs)) q)"
  by (induction q) (auto simp: valuesOK_def image_iff split: if_splits)

lemma parseQuery_ok: "valuesOK (parseQuery raw)"
proof -
  have "valuesOK (foldl addSegment q segs)" if "valuesOK q" for q segs
    using that
    by (induction segs arbitrary: q) (auto simp: addSegment_def addValue_ok Let_def split: option.splits prod.splits)
  moreover have "valuesOK []" by (simp add: valuesOK_def)
  ultimately show ?thesis by (simp add: parseQuery_def)
qed

lemma add_block:
  assumes "k \<notin> fst ` set acc" "vs \<noteq> []"
  shows "foldl (\<lambda>acc (k, v). addValue k v acc) acc (map (Pair k) vs) = acc @ [(k, vs)]"
proof -
  have other: "map (\<lambda>(k', ws). if k' = k then (k', ws @ [v]) else (k', ws)) acc = acc" for v
    using assms(1) by (induction acc) auto
  have more: "foldl (\<lambda>acc (k, v). addValue k v acc) (acc @ [(k, us)]) (map (Pair k) ws) = acc @ [(k, us @ ws)]"
    for us ws
    by (induction ws arbitrary: us) (auto simp: addValue_def other)
  from assms obtain v ws where "vs = v # ws" by (cases vs) auto
  with assms(1) more [of "[v]" ws] show ?thesis by (simp add: addValue_def)
qed

lemma fold_pairs:
  assumes "valuesOK q"
  shows "foldl (\<lambda>acc (k, v). addValue k v acc) [] (pairsOf q) = q"
proof -
  have "foldl (\<lambda>acc (k, v). addValue k v acc) acc (pairsOf q) = acc @ q"
    if "valuesOK q" "fst ` set acc \<inter> fst ` set q = {}" for acc
    using that
  proof (induction q arbitrary: acc)
    case (Cons x q)
    obtain k vs where x: "x = (k, vs)" by fastforce
    with Cons.prems have b: "k \<notin> fst ` set acc" "vs \<noteq> []" "valuesOK q" "k \<notin> fst ` set q"
      by (auto simp: valuesOK_def)
    from Cons.IH [OF b(3), of "acc @ [(k, vs)]"] b Cons.prems(2) show ?case
      by (auto simp: pairsOf_def x add_block)
  qed (simp add: pairsOf_def)
  from this [of "[]"] assms show ?thesis by simp
qed

lemma sort_ok: "valuesOK q \<Longrightarrow> valuesOK (sort_key fst q)"
  by (simp add: valuesOK_def distinct_map)

text \<open>\<open>Values.Encode\<close> and \<open>url.ParseQuery\<close> are inverse up to the order of the keys.\<close>

lemma parse_encode_ok: "valuesOK q \<Longrightarrow> parseQuery (valuesEncode q) = sort_key fst q"
  by (simp add: parse_encode fold_pairs sort_ok)

section \<open>The log\<close>

lemma log_entry:
  "loggingMiddleware inp r res = ((a, Some l), s') \<Longrightarrow> lg_method l = rq_method r \<and> lg_path l = rq_path r
     \<and> lg_query l = redactQuery (parseQuery (rq_query r))"
  by (auto simp: loggingMiddleware_def split: if_splits)

text \<open>
  Claim C29. The log entry of a request, on either port, gives its method, its path and exactly its
  query: read back, the query has every parameter of the request with the values sent, in the order of
  the keys, except that \<open>p\<close> and \<open>apiKey\<close> have the one value \<open>***\<close>. So no password and no API key sent
  in a query is in the log; the replayable token and salt of the token scheme are.
\<close>

theorem log_query:
  assumes "SubsonicHandler d inp r s = ((a, Some l), s') \<or> AdminHandler d inp r s = ((a, Some l), s')"
  shows "lg_method l = rq_method r \<and> lg_path l = rq_path r
     \<and> parseQuery (lg_query l) = sort_key fst (map (\<lambda>(k, vs).
         if k = ''p'' \<or> k = ''apiKey'' then (k, [''***'']) else (k, vs)) (parseQuery (rq_query r)))"
proof -
  have "parseQuery (redactQuery (parseQuery (rq_query r))) = sort_key fst (map (\<lambda>(k, vs).
      if k = ''p'' \<or> k = ''apiKey'' then (k, [''***'']) else (k, vs)) (parseQuery (rq_query r)))"
    unfolding redactQuery_def by (intro parse_encode_ok hide_ok parseQuery_ok)
  with assms show ?thesis
    unfolding SubsonicHandler_def AdminHandler_def by (auto dest: log_entry)
qed

end
