(* ===== verification/Media_Facts.thy ===== *)
theory Media_Facts
  imports Media Slice_Samples
begin

text \<open>
  What the media handlers promise: they serve nothing but the files the library names, a song's own
  bytes or a slice of them; the resizing of cover art never changes a file that was there and
  never leaves a partial image where one is served.
\<close>

section \<open>Audio\<close>

lemma songFile_Some:
  "songFile rd i = Some (p, ct) \<Longrightarrow>
     \<exists>d s. rd_query rd 0 = Inr d \<and> s \<in> set (db_song d) \<and> so_id s = i \<and> p = so_path s \<and> ct = so_content_type s"
proof -
  assume a: "songFile rd i = Some (p, ct)"
  then obtain d where d: "rd_query rd 0 = Inr d" by (auto simp: songFile_def select_def split: sum.splits)
  define rows where "rows = filter (\<lambda>s. so_id s = i) (db_song d)"
  have "rows \<noteq> [] \<and> p = so_path (last rows) \<and> ct = so_content_type (last rows)"
    using a by (auto simp: songFile_def select_def d rows_def split: list.splits)
  moreover from this have "last rows \<in> set rows" by simp
  ultimately show ?thesis using d by (auto simp: rows_def)
qed

text \<open>Files that report their own length, below the bound of the slicers.\<close>

definition honestFiles :: "files \<Rightarrow> bool" where
  "honestFiles fs \<longleftrightarrow> (\<forall>p f. fs p = Some f \<longrightarrow> of_size f = Some (int (length (of_data f))) \<and> length (of_data f) \<le> 2 ^ 60)"

definition slicedFrom :: "bytes \<Rightarrow> string \<Rightarrow> responseWriter \<Rightarrow> bool" where
  "slicedFrom f ct w \<longleftrightarrow> (\<exists>s d. mp3Slice f ct s d = Some (True, w) \<or> flacSlice f ct s d = (True, w)
     \<or> wavSlice f ct s d = (True, w))"

lemma slicedFromI:
  "mp3Slice f ct s d = Some (True, w) \<Longrightarrow> slicedFrom f ct w"
  "sliceFLAC emptyWriter f (int (length f)) ct s d = (True, w) \<Longrightarrow> slicedFrom f ct w"
  "sliceWAV emptyWriter f (int (length f)) ct s d = (True, w) \<Longrightarrow> slicedFrom f ct w"
  unfolding slicedFrom_def flacSlice_def wavSlice_def by blast+

text \<open>
  What a slicer that gives up has written: nothing, or the FLAC header before a seek point that lies
  before the file's start.
\<close>

definition leftBehind :: "responseWriter \<Rightarrow> bool" where
  "leftBehind w \<longleftrightarrow> rw_body w = [] \<or> (\<exists>si. rw_body w = flacMinimalHeader si)"

lemma leftBehind_simps [simp]:
  "leftBehind emptyWriter" "leftBehind (setType ct w) \<longleftrightarrow> leftBehind w"
  by (simp_all add: leftBehind_def writer_defs)

lemma sliceFLAC_unhandled: "sliceFLAC emptyWriter f n ct s d = (False, w) \<Longrightarrow> leftBehind w"
  by (auto simp: sliceFLAC_def Let_def writer_defs leftBehind_def split: option.splits if_splits)

definition servesSong :: "files \<Rightarrow> song_row \<Rightarrow> mediaAnswer \<Rightarrow> bool" where
  "servesSong fs s a \<longleftrightarrow> (\<exists>f. fs (so_path s) = Some f \<and>
     (case a of
        Written w \<Rightarrow> slicedFrom (of_data f) (so_content_type s) w
      | ServeContent w cached p bs \<Rightarrow> \<not> cached \<and> p = so_path s \<and> bs = of_data f \<and> leftBehind w
      | _ \<Rightarrow> False))"

lemma servesSong_full [simp]:
  "fs (so_path s) = Some f \<Longrightarrow> servesSong fs s (ServeContent w False (so_path s) (of_data f)) \<longleftrightarrow> leftBehind w"
  by (simp add: servesSong_def)

definition libraryAnswer :: "reader \<Rightarrow> files \<Rightarrow> string \<Rightarrow> mediaAnswer \<Rightarrow> bool" where
  "libraryAnswer rd fs i a \<longleftrightarrow> (\<exists>e. a = Subsonic e \<and> \<not> succeeded e)
     \<or> (\<exists>d s. rd_query rd 0 = Inr d \<and> s \<in> set (db_song d) \<and> so_id s = i \<and> servesSong fs s a)"

lemma libraryAnswer_err [simp]: "libraryAnswer rd fs i (Subsonic (errResponse code msg))"
  by (auto simp: libraryAnswer_def)

lemma serveAudioFile_library: "libraryAnswer rd fs (FormValue r ''id'') (serveAudioFile rd fs r)"
proof (cases "songFile rd (FormValue r ''id'')")
  case None
  then show ?thesis by (simp add: serveAudioFile_def Let_def)
next
  case (Some pc)
  then obtain p ct where pc: "songFile rd (FormValue r ''id'') = Some (p, ct)" by (cases pc) auto
  from songFile_Some [OF pc] obtain d s where s: "rd_query rd 0 = Inr d" "s \<in> set (db_song d)"
    "so_id s = FormValue r ''id''" "p = so_path s" "ct = so_content_type s" by blast
  show ?thesis
  proof (cases "fs (so_path s)")
    case None
    then show ?thesis by (simp add: serveAudioFile_def Let_def pc s)
  next
    case (Some f)
    then show ?thesis using s(1-3)
      by (cases "of_size f") (auto simp: serveAudioFile_def Let_def pc s(4,5) libraryAnswer_def)
  qed
qed

lemma serveSlicedAudio_library:
  assumes "honestFiles fs" "fle (Finite 0) t" "fless (Finite 0) du"
  shows "libraryAnswer rd fs (FormValue r ''id'') (serveSlicedAudio rd fs r t du)"
proof (cases "songFile rd (FormValue r ''id'')")
  case None
  then show ?thesis by (simp add: serveSlicedAudio_def Let_def)
next
  case (Some pc)
  then obtain p ct where pc: "songFile rd (FormValue r ''id'') = Some (p, ct)" by (cases pc) auto
  from songFile_Some [OF pc] obtain d s where s: "rd_query rd 0 = Inr d" "s \<in> set (db_song d)"
    "so_id s = FormValue r ''id''" "p = so_path s" "ct = so_content_type s" by blast
  show ?thesis
  proof (cases "fs (so_path s)")
    case None
    then show ?thesis by (simp add: serveSlicedAudio_def Let_def pc s)
  next
    case (Some f)
    have size: "of_size f = Some (int (length (of_data f)))" "length (of_data f) \<le> 2 ^ 60"
      using assms(1) Some by (auto simp: honestFiles_def)
    define sliced where "sliced = (let ext = toLower (pathExt p); n = int (length (of_data f)) in
       if ext = ''.mp3'' then sliceMP3 emptyWriter (of_data f) n ct t du
       else if ext = ''.flac'' then Some (sliceFLAC emptyWriter (of_data f) n ct t du)
       else if ext = ''.wav'' then Some (sliceWAV emptyWriter (of_data f) n ct t du)
       else Some (False, emptyWriter))"
    have "\<exists>b w. sliced = Some (b, w) \<and> (if b then slicedFrom (of_data f) ct w else leftBehind w)"
    proof (cases "toLower (pathExt p) = ''.mp3''")
      case True
      then have "sliced = mp3Slice (of_data f) ct t du" by (simp add: sliced_def mp3Slice_def Let_def)
      moreover have "mp3Slice (of_data f) ct t du = Some (False, emptyWriter)
          \<or> (\<exists>w. mp3Slice (of_data f) ct t du = Some (True, w))"
        using sliceMP3_sound_facts [OF size(2) assms(2,3), of ct] by blast
      ultimately show ?thesis using slicedFromI(1) by fastforce
    next
      case False
      obtain b w where flac: "sliceFLAC emptyWriter (of_data f) (int (length (of_data f))) ct t du = (b, w)" by fastforce
      obtain b' w' where wav: "sliceWAV emptyWriter (of_data f) (int (length (of_data f))) ct t du = (b', w')" by fastforce
      have "if b then slicedFrom (of_data f) ct w else leftBehind w"
        using flac slicedFromI(2) sliceFLAC_unhandled by (cases b) auto
      moreover have "if b' then slicedFrom (of_data f) ct w' else leftBehind w'"
        using wav slicedFromI(3) sliceWAV_cases [OF assms(2,3), of emptyWriter "of_data f" "int (length (of_data f))" ct]
        by (cases b') auto
      ultimately show ?thesis using False flac wav by (auto simp: sliced_def Let_def)
    qed
    then obtain b w where b: "sliced = Some (b, w)" "if b then slicedFrom (of_data f) ct w else leftBehind w" by blast
    have "serveSlicedAudio rd fs r t du = (if FormValue r ''id'' = '''' then Subsonic (errResponse 10 ''missing parameter: id'')
        else if \<not> rd_pool rd then Subsonic (errResponse 0 ''database error'')
        else if b then Written w else ServeContent (setType ct w) False p (of_data f))"
      using b(1) by (simp add: serveSlicedAudio_def Let_def pc s(4) Some size sliced_def)
    then show ?thesis using s b(2) Some by (auto simp: libraryAnswer_def servesSong_def split: if_splits)
  qed
qed

text \<open>
  Claim C27. Streaming and downloading serve the library and nothing else: the answer is an error of
  the API, or the contents of the file a song row with the requested identifier names, whole or as a
  slice of it; a request can name no other file, and no handler panics. (Before the whole file, a
  FLAC slicer that gives up late may have sent its header.)
\<close>

theorem media_serves_songs:
  assumes "honestFiles fs"
  shows "libraryAnswer rd fs (FormValue r ''id'') (handleStream hexFloat rd fs r)
     \<and> libraryAnswer rd fs (FormValue r ''id'') (handleDownload rd fs r)"
proof -
  have "libraryAnswer rd fs (FormValue r ''id'') (handleStream hexFloat rd fs r)"
    using serveAudioFile_library [of rd fs r] serveSlicedAudio_library [OF assms]
    by (auto simp: handleStream_def Let_def split: option.splits)
  then show ?thesis using serveAudioFile_library [of rd fs r] by (simp add: handleDownload_def)
qed

section \<open>Cover art\<close>

lemma coverFile_Some:
  "coverFile rd i = Some p \<Longrightarrow>
     \<exists>d al. rd_query rd 0 = Inr d \<and> al \<in> set (db_album d) \<and> al_id al = i \<and> al_cover_art al = Some p \<and> p \<noteq> ''''"
proof -
  assume a: "coverFile rd i = Some p"
  then obtain d where d: "rd_query rd 0 = Inr d" by (auto simp: coverFile_def select_def split: sum.splits)
  define rows where "rows = filter (\<lambda>al. al_id al = i) (db_album d)"
  have "rows \<noteq> [] \<and> p = colText (al_cover_art (last rows)) \<and> p \<noteq> ''''"
    using a by (auto simp: coverFile_def select_def d rows_def Let_def split: list.splits if_splits)
  moreover from this have "last rows \<in> set rows" by simp
  ultimately show ?thesis using d
    by (intro exI [of _ d] exI [of _ "last rows"]) (auto simp: rows_def colText_def split: option.splits)
qed

text \<open>The image a cover is resized to.\<close>

definition resizedImage :: "'img imaging \<Rightarrow> files \<Rightarrow> string \<Rightarrow> int \<Rightarrow> bytes option" where
  "resizedImage im fs p n =
     Option.bind (Option.bind (fs p) (\<lambda>f. im_decode im (of_data f))) (\<lambda>src. im_encode im (im_fit im src n))"

lemma resizedCoverArt_cases:
  assumes "resizedCoverArt im oc part fs p n = (res, fs')" "\<forall>q f. fs q = Some f \<longrightarrow> of_size f \<noteq> None"
    and fresh: "\<forall>t. oc_createTemp oc (pathDir p) (artBase p @ ''_*.tmp'') = Some t \<longrightarrow> fs t = None \<and> t \<noteq> resizedPath p n"
  shows "(\<forall>q. fs q \<noteq> None \<longrightarrow> fs' q = fs q) \<and> (\<forall>q. q \<noteq> resizedPath p n \<longrightarrow> oc_createTemp oc (pathDir p) (artBase p @ ''_*.tmp'') \<noteq> Some q \<longrightarrow> fs' q = fs q)
    \<and> (fs p = None \<longrightarrow> fs' = fs)
    \<and> (res = None \<or> res = Some (resizedPath p n) \<and>
        (fs (resizedPath p n) \<noteq> None \<and> fs' = fs
         \<or> (\<exists>jpeg. resizedImage im fs p n = Some jpeg \<and> fs' (resizedPath p n) = Some (fileOf jpeg))))"
proof (cases "fs (resizedPath p n)")
  case (Some f)
  then show ?thesis using assms(1,2) by (auto simp: resizedCoverArt_def Let_def)
next
  case None
  show ?thesis
  proof (cases "Option.bind (fs p) (\<lambda>f. im_decode im (of_data f))")
    case none: None
    then show ?thesis using assms(1) None by (auto simp: resizedCoverArt_def Let_def)
  next
    case src: (Some src)
    show ?thesis
    proof (cases "oc_createTemp oc (pathDir p) (artBase p @ ''_*.tmp'')")
      case none: None
      then show ?thesis using assms(1) None src by (auto simp: resizedCoverArt_def Let_def)
    next
      case (Some t)
      then have t: "fs t = None" "t \<noteq> resizedPath p n" using fresh by auto
      show ?thesis
      proof (cases "im_encode im (im_fit im src n)")
        case none: None
        then show ?thesis using assms(1) None src Some t
          by (auto simp: resizedCoverArt_def Let_def removeFile_def)
      next
        case jpeg: (Some jpeg)
        then have "resizedImage im fs p n = Some jpeg" using src by (simp add: resizedImage_def)
        then show ?thesis using assms(1) None src Some t jpeg
          by (auto simp: resizedCoverArt_def Let_def removeFile_def split: if_splits)
      qed
    qed
  qed
qed

text \<open>
  Claim C28. Serving cover art changes no file that was there, whatever fails on the way. What it
  serves is the cover of the album named by the request or that cover resized to between 32 and 1024
  pixels, and a resized image made by this request is complete: exactly the encoding of the fitted
  original. Hypotheses: the operating system's temporary file is a new one, and files that exist can
  be \<open>Stat\<close>ed.
\<close>

theorem coverArt_safe:
  assumes "handleGetCoverArt im oc part rd r fs = (a, fs')"
    and "\<forall>q f. fs q = Some f \<longrightarrow> of_size f \<noteq> None"
    and "\<forall>dir pat t n p. oc_createTemp oc dir pat = Some t \<longrightarrow> fs t = None \<and> t \<noteq> resizedPath p n"
  shows "(\<forall>q. fs q \<noteq> None \<longrightarrow> fs' q = fs q)
    \<and> (\<forall>w cached q bs. a = ServeContent w cached q bs \<longrightarrow>
         (\<exists>d al p. rd_query rd 0 = Inr d \<and> al \<in> set (db_album d)
            \<and> al_id al = trimPrefix (FormValue r ''id'') coverArtPrefix \<and> al_cover_art al = Some p
            \<and> (q = p \<and> map_option of_data (fs p) = Some bs
               \<or> (\<exists>n. 32 \<le> n \<and> n \<le> 1024 \<and> q = resizedPath p n
                    \<and> (map_option of_data (fs q) = Some bs \<or> fs q = None \<and> resizedImage im fs p n = Some bs)))))"
proof -
  let ?i = "FormValue r ''id''" and ?al = "trimPrefix (FormValue r ''id'') coverArtPrefix"
  show ?thesis
  proof (cases "?i = '''' \<or> \<not> rd_pool rd \<or> coverFile rd ?al = None")
    case True
    then have "fs' = fs" "\<forall>w cached q bs. a \<noteq> ServeContent w cached q bs"
      using assms(1) by (auto simp: handleGetCoverArt_def Let_def split: if_splits option.splits)
    then show ?thesis by simp
  next
    case False
    then obtain p where p: "coverFile rd ?al = Some p" by blast
    obtain d al where al: "rd_query rd 0 = Inr d" "al \<in> set (db_album d)" "al_id al = ?al" "al_cover_art al = Some p"
      using coverFile_Some [OF p] by blast
    define n where "n = max minCoverArtSize (min (fst (atoi (FormValue r ''size''))) maxCoverArtSize)"
    have n: "32 \<le> n" "n \<le> 1024" by (auto simp: n_def minCoverArtSize_def maxCoverArtSize_def)
    obtain res fs1 where res: "resizedCoverArt im oc part fs p n = (res, fs1)" by fastforce
    note c = resizedCoverArt_cases [OF res assms(2)]
    have keep: "\<forall>q. fs q \<noteq> None \<longrightarrow> fs1 q = fs q" and gone: "fs p = None \<longrightarrow> fs1 = fs" and made: "res = None \<or> res = Some (resizedPath p n) \<and>
        (fs (resizedPath p n) \<noteq> None \<and> fs1 = fs
         \<or> (\<exists>jpeg. resizedImage im fs p n = Some jpeg \<and> fs1 (resizedPath p n) = Some (fileOf jpeg)))"
      using c assms(3) by blast+
    let ?answer = "\<lambda>q fs. (case fs q of None \<Rightarrow> (NotFound, fs)
      | Some f \<Rightarrow> (if of_size f = None then (NotFound, fs) else (ServeContent emptyWriter True q (of_data f), fs)))"
    have "(a, fs') = ?answer p fs \<or> res = None \<and> (a, fs') = ?answer p fs1
       \<or> (\<exists>q. res = Some q \<and> (a, fs') = ?answer q fs1)"
      using assms(1) False p res
      by (cases res) (auto simp: handleGetCoverArt_def Let_def n_def split: if_splits prod.splits)
    then show ?thesis
    proof (elim disjE exE conjE)
      assume "(a, fs') = ?answer p fs"
      then show ?thesis using al by (auto split: option.splits if_splits)
    next
      assume "res = None" "(a, fs') = ?answer p fs1"
      moreover have "fs1 p = fs p" using keep gone by (cases "fs p") auto
      ultimately show ?thesis using al keep by (auto split: option.splits if_splits)
    next
      fix q assume q: "res = Some q" "(a, fs') = ?answer q fs1"
      then have target: "q = resizedPath p n" and "fs' = fs1" using made by (auto split: option.splits if_splits)
      have "map_option of_data (fs q) = Some bs \<or> fs q = None \<and> resizedImage im fs p n = Some bs"
        if "a = ServeContent w cached q' bs" for w cached q' bs
      proof (cases "fs q")
        case None
        then obtain jpeg where "resizedImage im fs p n = Some jpeg" "fs1 q = Some (fileOf jpeg)"
          using made q(1) target by auto
        with None that q(2) show ?thesis by (auto simp: fileOf_def)
      next
        case (Some f)
        with that q(2) keep show ?thesis by (auto split: if_splits)
      qed
      moreover have "q' = q" if "a = ServeContent w cached q' bs" for w cached q' bs
        using that q(2) by (auto split: option.splits if_splits)
      ultimately have served: "q' = resizedPath p n \<and> (map_option of_data (fs q') = Some bs
          \<or> fs q' = None \<and> resizedImage im fs p n = Some bs)"
        if "a = ServeContent w cached q' bs" for w cached q' bs
        using that target by metis
      show ?thesis
      proof (intro conjI allI impI)
        show "fs' q = fs q" if "fs q \<noteq> None" for q using that keep \<open>fs' = fs1\<close> by simp
      qed (use al n served in metis)
    qed
  qed
qed

section \<open>Samples\<close>

definition mediaDb :: db where
  "mediaDb = sampleDb\<lparr>db_song := [(sampleSong 1 ''a'')\<lparr>so_path := ''/m/a.mp3''\<rparr>],
     db_album := [\<lparr>al_id = ''al1'', al_artist_id = ''ar1'', al_name = ''Album'', al_year = Some 1999,
                   al_genre = Some ''Rock'', al_cover_art = Some ''/m/c.png'', al_song_count = 1,
                   al_duration = 181, al_created = 1600000000\<rparr>]\<rparr>"

definition mediaReader :: reader where
  "mediaReader = \<lparr>rd_pool = True, rd_query = \<lambda>_. Inr mediaDb, rd_now = \<lambda>_. 1700000000\<rparr>"

definition mediaFiles :: files where
  "mediaFiles p = (if p = ''/m/a.mp3'' then Some (fileOf tinyMP3)
     else if p = ''/m/c.png'' then Some (fileOf [1, 2, 3]) else None)"

lemma media_sample: "handleStream (\<lambda>_. None) mediaReader mediaFiles
    (sampleRequest ''ann'' [(''id'', ''a''), (''startTime'', ''0''), (''duration'', ''5e-1'')])
  = Written \<lparr>rw_type = ''audio/mpeg'', rw_length = Some 20, rw_body = tinyMP3\<rparr>"
  by code_simp

lemma mediaFiles_honest: "honestFiles mediaFiles"
  by (simp add: honestFiles_def mediaFiles_def fileOf_def tinyMP3_def)

theorem media_serves_songs_witness:
  "\<exists>s. s \<in> set (db_song mediaDb) \<and> so_id s = ''a'' \<and> slicedFrom tinyMP3 (so_content_type s)
     \<lparr>rw_type = ''audio/mpeg'', rw_length = Some 20, rw_body = tinyMP3\<rparr>"
proof -
  have i: "FormValue (sampleRequest ''ann'' [(''id'', ''a''), (''startTime'', ''0''), (''duration'', ''5e-1'')]) ''id'' = ''a''"
    by code_simp
  from media_serves_songs [OF mediaFiles_honest, of mediaReader
      "sampleRequest ''ann'' [(''id'', ''a''), (''startTime'', ''0''), (''duration'', ''5e-1'')]" "\<lambda>_. None"]
  have "libraryAnswer mediaReader mediaFiles ''a''
      (Written \<lparr>rw_type = ''audio/mpeg'', rw_length = Some 20, rw_body = tinyMP3\<rparr>)"
    unfolding i media_sample by blast
  then obtain s where "s \<in> set (db_song mediaDb)" "so_id s = ''a''"
    "servesSong mediaFiles s (Written \<lparr>rw_type = ''audio/mpeg'', rw_length = Some 20, rw_body = tinyMP3\<rparr>)"
    by (auto simp: libraryAnswer_def mediaReader_def)
  then show ?thesis by (auto simp: servesSong_def mediaDb_def mediaFiles_def fileOf_def)
qed

lemma resizedPath_jpg: "\<exists>x. resizedPath p n = x @ ''.jpg''"
  by (auto simp: resizedPath_def joinPath_def)

definition sampleImaging :: "bytes imaging" where
  "sampleImaging = \<lparr>im_decode = Some, im_fit = (\<lambda>b n. b @ [of_int n]), im_encode = Some\<rparr>"

definition sampleCalls :: osCalls where
  "sampleCalls = \<lparr>oc_createTemp = \<lambda>dir pat. Some ''/m/c_1.tmp'', oc_close = True, oc_rename = True, oc_remove = True\<rparr>"

theorem coverArt_safe_witness:
  "\<exists>fs'. handleGetCoverArt sampleImaging sampleCalls [] mediaReader
        (sampleRequest ''ann'' [(''id'', ''al-al1''), (''size'', ''5'')]) mediaFiles
      = (ServeContent emptyWriter True ''/m/c_32.jpg'' [1, 2, 3, 32], fs')
    \<and> fs' ''/m/c.png'' = Some (fileOf [1, 2, 3]) \<and> resizedImage sampleImaging mediaFiles ''/m/c.png'' 32 = Some [1, 2, 3, 32]"
proof -
  let ?r = "sampleRequest ''ann'' [(''id'', ''al-al1''), (''size'', ''5'')]"
  obtain a fs' where run: "handleGetCoverArt sampleImaging sampleCalls [] mediaReader ?r mediaFiles = (a, fs')" by fastforce
  have parts: "coverFile mediaReader ''al1'' = Some ''/m/c.png''" "resizedPath ''/m/c.png'' 32 = ''/m/c_32.jpg''"
    "FormValue ?r ''id'' = ''al-al1''" "FormValue ?r ''size'' = ''5''"
    "trimPrefix ''al-al1'' coverArtPrefix = ''al1''" "rd_pool mediaReader"
    by code_simp+
  have five: "atoi ''5'' = (5, True)" by (simp add: parseInt_def isDigit_def digitVal_def Let_def)
  have a: "fst (handleGetCoverArt sampleImaging sampleCalls [] mediaReader ?r mediaFiles)
      = ServeContent emptyWriter True ''/m/c_32.jpg'' [1, 2, 3, 32]"
    by (simp add: handleGetCoverArt_def parts five minCoverArtSize_def maxCoverArtSize_def resizedCoverArt_def
        mediaFiles_def sampleImaging_def sampleCalls_def Let_def fileOf_def)
  have stat: "\<forall>q f. mediaFiles q = Some f \<longrightarrow> of_size f \<noteq> None" by (simp add: mediaFiles_def fileOf_def)
  have fresh: "\<forall>dir pat t n p. oc_createTemp sampleCalls dir pat = Some t \<longrightarrow> mediaFiles t = None \<and> t \<noteq> resizedPath p n"
  proof (intro allI impI conjI)
    fix dir pat t n p assume "oc_createTemp sampleCalls dir pat = Some t"
    then have t: "t = ''/m/c_1.tmp''" by (simp add: sampleCalls_def)
    show "mediaFiles t = None" by (simp add: t mediaFiles_def)
    obtain x where "resizedPath p n = x @ ''.jpg''" using resizedPath_jpg by blast
    then have "last (resizedPath p n) = CHR ''g''" by simp
    moreover have "last t = CHR ''p''" by (simp add: t)
    ultimately show "t \<noteq> resizedPath p n" by auto
  qed
  have kept: "fs' ''/m/c.png'' = Some (fileOf [1, 2, 3])"
    using coverArt_safe [OF run stat fresh] by (simp add: mediaFiles_def)
  have "resizedImage sampleImaging mediaFiles ''/m/c.png'' 32 = Some [1, 2, 3, 32]" by code_simp
  then show ?thesis using run a kept by simp
qed

end
