(* ===== verification/Server_Samples.thy ===== *)
theory Server_Samples
  imports Server_Facts Log_Facts Auth_Facts Credential_Facts Media_Facts
begin

text \<open>A server with one credential and a small library, and the theorems on servers applied to it.\<close>

definition sampleDeps :: "(SecretAuthenticator, bytes) deps" where
  "sampleDeps = \<lparr>dp_cfg = sampleConfig, dp_crypto = sampleCrypto, dp_parseDuration = hours,
     dp_unicode = \<lparr>uni_upper = id, uni_letter = (\<lambda>_. True)\<rparr>,
     dp_firstRune = (\<lambda>s. case s of [] \<Rightarrow> 0 | c # _ \<Rightarrow> of_char c), dp_hexFloat = (\<lambda>_. None),
     dp_fts = (\<lambda>q rows. []), dp_imaging = sampleImaging, dp_authn = secretAuthn\<rparr>"

definition sampleInput :: input where
  "sampleInput = \<lparr>in_env = quietEnv, in_pool = (\<lambda>_. True), in_readFault = (\<lambda>_ _. None),
     in_readNow = (\<lambda>_ _. 1700000000), in_times = sampleTimes 1, in_gate = 1, in_session = 1, in_clock = 1,
     in_readClock = 1, in_shuffleAlbums = id, in_shuffleSongs = id, in_os = sampleCalls, in_partial = [],
     in_mint = sampleMint, in_body = None, in_login = \<lparr>li_state = [], li_verifier = [], li_now = 1\<rparr>,
     in_rnd = [], in_status = 200\<rparr>"

definition sampleServer :: "SecretAuthenticator server" where
  "sampleServer = SetScanner \<lparr>sc_scanning = False, sc_count = 0\<rparr> (SetManageHandler
     (NewServer \<lparr>sc_username = ''admin'', sc_password = ''secret''\<rparr>)
     (NewAPIServer (connOf (sampleDb\<lparr>db_credential := [sampleCredential]\<rparr>)) (\<lambda>_. None)))"

definition starRequest :: "(string \<times> string) list \<Rightarrow> request" where
  "starRequest form = (sampleRequest '''' form)\<lparr>rq_path := ''/rest/star''\<rparr>"

lemma sampleServer_simps [simp]:
  "sv_auth sampleServer = authInit"
  "sv_conn sampleServer = connOf (sampleDb\<lparr>db_credential := [sampleCredential]\<rparr>)"
  "dp_cfg sampleDeps = sampleConfig" "dp_crypto sampleDeps = sampleCrypto" "dp_authn sampleDeps = secretAuthn"
  "in_times sampleInput = sampleTimes 1" "rd_pool (readerOf sampleInput k c)"
  "rd_query (readerOf sampleInput k c) q = Inr (committed c)" "rd_now (readerOf sampleInput k c) q = 1700000000"
  by (simp_all add: sampleServer_def SetScanner_def SetManageHandler_def NewAPIServer_def sampleDeps_def
      sampleInput_def readerOf_def)

lemma starRequest_simps [simp]:
  "formValues (starRequest form) k = map snd (filter (\<lambda>p. fst p = k) form)"
  "clientIP (starRequest form) = ''10.0.0.1''" "rq_user (starRequest form) = Some ''''"
  "rq_headers (starRequest form) = []" "rq_cookies (starRequest form) = []"
  by (simp_all add: starRequest_def formValues_def sampleRequest_def clientIP_def splitHost_def lastIndex_def
      Let_def)



lemma allContiguous_sampleDb: "allContiguous (sampleDb\<lparr>db_credential := cs\<rparr>)"
proof -
  have "allContiguous sampleDb" by code_simp
  then show ?thesis by (subst allContiguous_cong [of _ sampleDb]) simp_all
qed

lemma schemaOK_sample_credential: "schemaOK (sampleDb\<lparr>db_credential := [sampleCredential]\<rparr>)"
  by simp

theorem server_wellformed_witness:
  "serverOK (runServer sampleDeps [SubsonicRequest sampleInput (starRequest [(''apiKey'', ''key1''), (''id'', ''a'')]),
       AdminRequest sampleInput (starRequest []), Reaps 5] sampleServer)
   \<and> allContiguous (committed (sv_conn (runServer sampleDeps
       [SubsonicRequest sampleInput (starRequest [(''apiKey'', ''key1''), (''id'', ''a'')]),
        AdminRequest sampleInput (starRequest []), Reaps 5] sampleServer)))"
proof -
  have "serverOK sampleServer"
    using schemaOK_sample_credential
    by (simp add: serverOK_def) (simp add: sampleServer_def SetScanner_def SetManageHandler_def
        NewAPIServer_def sessionsOK_def NewServer_def)
  from server_wellformed [OF this, of sampleDeps "[SubsonicRequest sampleInput
      (starRequest [(''apiKey'', ''key1''), (''id'', ''a'')]), AdminRequest sampleInput (starRequest []), Reaps 5]"]
    allContiguous_sampleDb [of "[sampleCredential]"]
  show ?thesis by simp
qed

theorem log_query_witness:
  "\<exists>l. AdminHandler sampleDeps sampleInput ((starRequest [])\<lparr>rq_query := ''id=a&apiKey=k1''\<rparr>) sampleServer
      = ((Status 401, Some l), sampleServer)
    \<and> lg_path l = ''/rest/star'' \<and> parseQuery (lg_query l) = [(''apiKey'', [''***'']), (''id'', [''a''])]"
proof -
  let ?q = "(starRequest [])\<lparr>rq_query := ''id=a&apiKey=k1''\<rparr>"
  have m: "mux adminTopMux ''GET'' ''/rest/star'' = Matched AdminAPI []" by code_simp
  have q: "rq_method ?q = ''GET''" "rq_path ?q = ''/rest/star''" "rq_query ?q = ''id=a&apiKey=k1''"
    "rq_headers ?q = []"
    by (simp_all add: starRequest_def sampleRequest_def)
  have "adminAuthMiddleware sampleConfig ?q = None"
    using q(4) by (simp add: adminAuthMiddleware_def headerGet_def Let_def)
  with m q obtain l where
    h: "AdminHandler sampleDeps sampleInput ?q sampleServer = ((Status 401, Some l), sampleServer)"
    by (simp add: AdminHandler_def loggingMiddleware_def)
  have p: "sort_key fst (map (\<lambda>(k, vs). if k = ''p'' \<or> k = ''apiKey'' then (k, [''***'']) else (k, vs))
      (parseQuery ''id=a&apiKey=k1'')) = [(''apiKey'', [''***'']), (''id'', [''a''])]" by code_simp
  from log_query [OF disjI2 [OF h]] p q h show ?thesis by simp
qed

end
