(* ===== verification/Report_Facts.thy ===== *)
theory Report_Facts
  imports Reports Sample
begin

text \<open>
  The admin reports: the play history is paged without loss or repetition, and the issue lists, their
  counts and the statistics agree.
\<close>

section \<open>Joins under the schema\<close>

lemma find_by_key: "x \<in> set xs \<Longrightarrow> f x = k \<Longrightarrow> \<exists>y \<in> set xs. find (\<lambda>x. f x = k) xs = Some y \<and> f y = k"
  by (induction xs) auto

lemma refersTo_find:
  assumes "refersTo f rows key ps" "r \<in> set rows"
  shows "\<exists>p \<in> set ps. find (\<lambda>p. key p = f r) ps = Some p \<and> key p = f r"
proof -
  from refersToD [OF assms] obtain x where "x \<in> set ps" "key x = f r" by auto
  then show ?thesis by (rule find_by_key)
qed

lemma schema_refers:
  assumes "schemaOK d"
  shows "refersTo ph_song (db_play d) so_id (db_song d)" "refersTo so_album_id (db_song d) al_id (db_album d)"
    "refersTo so_artist_id (db_song d) ar_id (db_artist d)" "refersTo al_artist_id (db_album d) ar_id (db_artist d)"
  using assms by (simp_all add: schemaOK_def playOK_def libraryOK_def)

lemma songOf_play: "schemaOK d \<Longrightarrow> ph \<in> set (db_play d) \<Longrightarrow> \<exists>s \<in> set (db_song d). songOf d (ph_song ph) = Some s"
  unfolding songOf_def using refersTo_find [OF schema_refers(1)] by blast

lemma albumOf_song:
  "schemaOK d \<Longrightarrow> s \<in> set (db_song d) \<Longrightarrow> \<exists>al \<in> set (db_album d). albumOf d (so_album_id s) = Some al"
  unfolding albumOf_def using refersTo_find [OF schema_refers(2)] by blast

lemma artistOf_song:
  "schemaOK d \<Longrightarrow> s \<in> set (db_song d)
    \<Longrightarrow> \<exists>a \<in> set (db_artist d). artistOf d (so_artist_id s) = Some a \<and> ar_id a = so_artist_id s"
  unfolding artistOf_def using refersTo_find [OF schema_refers(3)] by blast

lemma artistOf_album:
  "schemaOK d \<Longrightarrow> al \<in> set (db_album d)
    \<Longrightarrow> \<exists>a \<in> set (db_artist d). artistOf d (al_artist_id al) = Some a \<and> ar_id a = al_artist_id al"
  unfolding artistOf_def using refersTo_find [OF schema_refers(4)] by blast

section \<open>The play history\<close>

lemma historyEntry_one:
  assumes "schemaOK d" "ph \<in> set (db_play d)"
  shows "\<exists>e. historyEntry d ph = [e] \<and> pe_rowid e = ph_rowid ph"
proof -
  from songOf_play [OF assms] obtain s where s: "s \<in> set (db_song d)" "songOf d (ph_song ph) = Some s" by blast
  from albumOf_song [OF assms(1) s(1)] obtain al where al: "al \<in> set (db_album d)" "albumOf d (so_album_id s) = Some al"
    by blast
  from artistOf_album [OF assms(1) al(1)] obtain a where "artistOf d (al_artist_id al) = Some a" by blast
  with s al show ?thesis by (simp add: historyEntry_def)
qed

definition playsAfter :: "db \<Rightarrow> int \<Rightarrow> play_row list" where
  "playsAfter d since = sort_key ph_rowid (filter (\<lambda>ph. ph_rowid ph > since) (db_play d))"

lemma history_map:
  assumes "schemaOK d" "set rows \<subseteq> set (db_play d)"
  shows "map pe_rowid (concat (map (historyEntry d) rows)) = map ph_rowid rows
    \<and> length (concat (map (historyEntry d) rows)) = length rows
    \<and> concat (map (historyEntry d) (take n rows)) = take n (concat (map (historyEntry d) rows))
    \<and> concat (map (historyEntry d) (drop n rows)) = drop n (concat (map (historyEntry d) rows))"
  using assms(2)
proof (induction rows arbitrary: n)
  case (Cons r rows)
  with historyEntry_one [OF assms(1), of r] obtain e where "historyEntry d r = [e]" "pe_rowid e = ph_rowid r"
    by auto
  with Cons show ?case by (cases n) auto
qed simp

lemma playsAfter_sorted:
  assumes "schemaOK d"
  shows "sorted (map ph_rowid (playsAfter d since)) \<and> distinct (map ph_rowid (playsAfter d since))"
  using assms
  by (simp add: playsAfter_def distinct_map schemaOK_def playOK_def inj_on_def)

lemma filter_after:
  "sorted xs \<Longrightarrow> distinct xs \<Longrightarrow> 0 < n \<Longrightarrow> n \<le> length xs \<Longrightarrow> filter (\<lambda>x. x > xs ! (n - 1)) xs = drop n (xs :: int list)"
proof (induction xs arbitrary: n)
  case (Cons x xs)
  show ?case
  proof (cases "n = 1")
    case True
    with Cons.prems show ?thesis by (auto intro!: filter_True simp: less_le)
  next
    case False
    with Cons.prems have "xs ! (n - 2) \<in> set xs" by (intro nth_mem) (auto simp: Suc_le_eq)
    with Cons.prems have "x \<le> xs ! (n - 2)" by simp
    moreover have "(x # xs) ! (n - 1) = xs ! (n - 2)" using False Cons.prems by (cases n; cases "n - 1") auto
    ultimately have "\<not> x > (x # xs) ! (n - 1)" "(x # xs) ! (n - 1) = xs ! (n - 1 - 1)"
      by (simp_all add: numeral_2_eq_2)
    with Cons.IH [of "n - 1"] Cons.prems False show ?thesis by (cases n) auto
  qed
qed simp

lemma playsAfter_drop:
  assumes "schemaOK d" "0 < n" "n \<le> length (playsAfter d since)"
  shows "playsAfter d (ph_rowid (playsAfter d since ! (n - 1))) = drop n (playsAfter d since)"
proof -
  let ?xs = "playsAfter d since" and ?c = "ph_rowid (playsAfter d since ! (n - 1))"
  note s = playsAfter_sorted [OF assms(1), of since]
  have "?xs ! (n - 1) \<in> set ?xs" using assms(2,3) by simp
  then have c: "?c > since" by (simp add: playsAfter_def)
  have "playsAfter d ?c = filter (\<lambda>ph. ph_rowid ph > ?c) ?xs"
    using c by (simp add: playsAfter_def filter_sort [symmetric] conj_commute) (metis (mono_tags) less_trans)
  moreover have "map ph_rowid (filter (\<lambda>ph. ph_rowid ph > ?c) ?xs) = map ph_rowid (drop n ?xs)"
    using filter_after [of "map ph_rowid ?xs" n] s assms(2,3) by (simp add: filter_map comp_def drop_map nth_map)
  moreover have "inj_on ph_rowid (set (filter (\<lambda>ph. ph_rowid ph > ?c) ?xs) \<union> set (drop n ?xs))"
    using s by (auto simp: distinct_map dest: in_set_dropD intro: inj_on_subset)
  ultimately show ?thesis by (metis map_inj_on)
qed

lemma last_take: "0 < k \<Longrightarrow> k \<le> length xs \<Longrightarrow> last (take k xs) = xs ! (k - 1)"
  by (subst last_conv_nth) auto

lemma historyQuery_take:
  "0 \<le> n \<Longrightarrow> historyQuery since n d = take (nat n) (concat (map (historyEntry d) (playsAfter d since)))"
  by (simp add: historyQuery_def sqlLimit_def playsAfter_def Let_def)

lemma clampLimit_bounds: "0 < def \<Longrightarrow> def \<le> mx \<Longrightarrow> 0 < clampLimit def mx v \<and> clampLimit def mx v \<le> mx"
  by (simp add: clampLimit_def Let_def)

text \<open>
  Claim C30. The collector that asks for the play history again from the last row number it was given
  gets every play exactly once: a full page followed by the page asked for from its last entry is the
  longer page from the start, the row numbers of all pages are those of the plays after the start, in
  order, and every page is between 1 and 500 plays at most.
\<close>

theorem history_pages:
  assumes "schemaOK d" "0 < n" "0 \<le> m" "length (historyQuery since n d) = nat n"
  shows "historyQuery since n d @ historyQuery (pe_rowid (last (historyQuery since n d))) m d
      = historyQuery since (n + m) d
    \<and> map pe_rowid (historyQuery since m d)
      = take (nat m) (sort (filter (\<lambda>i. i > since) (map ph_rowid (db_play d))))
    \<and> 0 < clampLimit 50 500 v \<and> clampLimit 50 500 v \<le> 500"
proof -
  let ?rows = "playsAfter d since" and ?E = "\<lambda>rows. concat (map (historyEntry d) rows)"
  have sub: "set ?rows \<subseteq> set (db_play d)" by (auto simp: playsAfter_def)
  note h = history_map [OF assms(1) sub]
  have len: "nat n \<le> length ?rows"
    using assms(2,4) h by (simp add: historyQuery_take)
  have page: "historyQuery since n d = take (nat n) (?E ?rows)" using assms(2) by (simp add: historyQuery_take)
  have "last (take (nat n) (?E ?rows)) = ?E ?rows ! (nat n - 1)"
    using len assms(2) conjunct1 [OF conjunct2 [OF h]] by (intro last_take) linarith+
  moreover have "pe_rowid (?E ?rows ! (nat n - 1)) = ph_rowid (?rows ! (nat n - 1))"
    using h len assms(2) by (metis (no_types, lifting) diff_less leD le_less_linear length_map less_le_trans nth_map
        zero_less_nat_eq zero_less_one)
  ultimately have next_rows: "playsAfter d (pe_rowid (last (historyQuery since n d))) = drop (nat n) ?rows"
    using playsAfter_drop [OF assms(1) _ len] assms(2) page by simp
  have "historyQuery (pe_rowid (last (historyQuery since n d))) m d = take (nat m) (drop (nat n) (?E ?rows))"
    using assms(3) h by (simp add: historyQuery_take next_rows)
  then have pages: "historyQuery since n d @ historyQuery (pe_rowid (last (historyQuery since n d))) m d
      = historyQuery since (n + m) d"
    using assms(2,3) page by (simp add: historyQuery_take take_add nat_add_distrib)
  have "map ph_rowid ?rows = sort (filter (\<lambda>i. i > since) (map ph_rowid (db_play d)))"
    using playsAfter_sorted [OF assms(1), of since] distinct_filter [of "map ph_rowid (db_play d)"] assms(1)
    by (intro sorted_distinct_set_unique) (auto simp: playsAfter_def schemaOK_def playOK_def)
  then have "map pe_rowid (historyQuery since m d)
      = take (nat m) (sort (filter (\<lambda>i. i > since) (map ph_rowid (db_play d))))"
    using assms(3) conjunct1 [OF h] by (simp add: historyQuery_take take_map [symmetric])
  with pages clampLimit_bounds [of 50 500 v] show ?thesis by simp
qed

section \<open>Issues and statistics\<close>

lemma songsWithArtist_map:
  assumes "schemaOK d"
  shows "map fst (songsWithArtist d) = db_song d
    \<and> (\<forall>(s, ar) \<in> set (songsWithArtist d). ar \<in> set (db_artist d) \<and> ar_id ar = so_artist_id s)"
proof -
  have "map fst (concat (map (\<lambda>s. case artistOf d (so_artist_id s) of None \<Rightarrow> [] | Some ar \<Rightarrow> [(s, ar)]) songs)) = songs
    \<and> (\<forall>(s, ar) \<in> set (concat (map (\<lambda>s. case artistOf d (so_artist_id s) of None \<Rightarrow> [] | Some ar \<Rightarrow> [(s, ar)]) songs)).
         ar \<in> set (db_artist d) \<and> ar_id ar = so_artist_id s)" if "set songs \<subseteq> set (db_song d)" for songs
    using that
  proof (induction songs)
    case (Cons s songs)
    then obtain a where "a \<in> set (db_artist d)" "artistOf d (so_artist_id s) = Some a" "ar_id a = so_artist_id s"
      using artistOf_song [OF assms, of s] by auto
    with Cons show ?case by auto
  qed simp
  from this [OF subset_refl] show ?thesis unfolding songsWithArtist_def .
qed

lemma albumsWithArtist_map: "schemaOK d \<Longrightarrow> map fst (albumsWithArtist d) = db_album d"
proof -
  assume d: "schemaOK d"
  have "map fst (concat (map (\<lambda>al. case artistOf d (al_artist_id al) of None \<Rightarrow> [] | Some ar \<Rightarrow> [(al, ar)]) albums)) = albums"
    if "set albums \<subseteq> set (db_album d)" for albums
    using that
  proof (induction albums)
    case (Cons al albums)
    then obtain a where "artistOf d (al_artist_id al) = Some a"
      using artistOf_album [OF d, of al] by auto
    with Cons show ?case by simp
  qed simp
  from this [of "db_album d"] show ?thesis by (simp only: albumsWithArtist_def subset_refl)
qed

lemma filter_fst: "length (filter (\<lambda>(x, y). P x) ps) = length (filter P (map fst ps))"
  by (induction ps) auto

lemma filter_snd_cong:
  assumes "\<forall>(x, y) \<in> set ps. Q x y = P x"
  shows "length (filter (\<lambda>(x, y). Q x y) ps) = length (filter P (map fst ps))"
  using assms by (induction ps) auto

lemma unknown_iff:
  assumes "schemaOK d" "ar \<in> set (db_artist d)" "ar_id ar = so_artist_id s"
  shows "(ar_name ar = unknownArtist)
    = (so_artist_id s \<in> set (map ar_id (filter (\<lambda>a. ar_name a = unknownArtist) (db_artist d))))"
proof -
  from assms(1) have "inj_on ar_id (set (db_artist d))" by (simp add: schemaOK_def libraryOK_def distinct_map)
  then have "x = ar" if "x \<in> set (db_artist d)" "ar_id x = ar_id ar" for x
    using that assms(2) by (auto dest: inj_onD)
  then show ?thesis
    using assms(2) unfolding assms(3) [symmetric] by (auto simp: image_iff intro: bexI [of _ ar])
qed

definition songRows :: "(song_row \<Rightarrow> artist_row \<Rightarrow> bool) \<Rightarrow> db \<Rightarrow> (song_row \<times> artist_row \<times> album_row) list" where
  "songRows cond d = concat (map (\<lambda>(s, ar). case albumOf d (so_album_id s) of
     None \<Rightarrow> [] | Some al \<Rightarrow> if cond s ar then [(s, ar, al)] else []) (songsWithArtist d))"

lemma length_songRows:
  assumes "schemaOK d"
  shows "length (songRows cond d) = length (filter (\<lambda>(s, ar). cond s ar) (songsWithArtist d))"
proof -
  have "length (concat (map (\<lambda>(s, ar). case albumOf d (so_album_id s) of
     None \<Rightarrow> [] | Some al \<Rightarrow> if cond s ar then [(s, ar, al)] else []) ps)) = length (filter (\<lambda>(s, ar). cond s ar) ps)"
    if "set (map fst ps) \<subseteq> set (db_song d)" for ps
    using that
  proof (induction ps)
    case (Cons p ps)
    then obtain al where "albumOf d (so_album_id (fst p)) = Some al"
      using albumOf_song [OF assms, of "fst p"] by auto
    with Cons show ?case by (cases p) auto
  qed simp
  from this [of "songsWithArtist d"] songsWithArtist_map [OF assms] show ?thesis
    by (simp only: songRows_def subset_refl)
qed

lemma length_orderNull [simp]: "length (orderNull f xs) = length xs"
  using sum_length_filter_compl [of "\<lambda>x. f x = None" xs] by (simp add: orderNull_def comp_def)

lemma sqlLimit_map: "map f (sqlLimit n m xs) = sqlLimit n m (map f xs)"
  by (simp add: sqlLimit_def Let_def take_map drop_map)

lemma sqlLimit_all [simp]: "sqlLimit (- 1) 0 xs = xs"
  by (simp add: sqlLimit_def)

text \<open>
  Claim C40. The reports agree with one another: for each kind of issue the total of the issue list is
  the figure of the statistics, although one counts through joins and the other through subqueries;
  the list without a limit has as many items as that total; and a page is the corresponding part of
  that list.
\<close>

theorem issues_agree:
  assumes "schemaOK d"
  shows "map (\<lambda>(name, spec). (name, issueCount spec d)) issueTypes =
      [(''songs_no_genre'', sa_songsNoGenre (statsOf d)), (''songs_no_year'', sa_songsNoYear (statsOf d)),
       (''songs_unknown_artist'', sa_songsUnknownArtist (statsOf d)),
       (''songs_zero_duration'', sa_songsZeroDuration (statsOf d)),
       (''albums_missing_art'', sa_albumsMissingArt (statsOf d)),
       (''albums_no_year'', sa_albumsNoYear (statsOf d)), (''albums_no_genre'', sa_albumsNoGenre (statsOf d))]
    \<and> length (songIssues dir cond (- 1) 0 d) = issueCount (SongIssue cond) d
    \<and> length (albumIssues acond (- 1) 0 d) = issueCount (AlbumIssue acond) d
    \<and> songIssues dir cond n m d = sqlLimit n m (songIssues dir cond (- 1) 0 d)
    \<and> albumIssues acond n m d = sqlLimit n m (albumIssues acond (- 1) 0 d)"
proof -
  note sa = songsWithArtist_map [OF assms] and aa = albumsWithArtist_map [OF assms]
  have songs: "length (filter (\<lambda>(s, ar). P s) (songsWithArtist d)) = length (filter P (db_song d))" for P
    using sa by (simp add: filter_fst)
  have albums: "length (filter (\<lambda>(al, ar). P al) (albumsWithArtist d)) = length (filter P (db_album d))" for P
    using aa by (simp add: filter_fst)
  have unknown: "length (filter (\<lambda>(s, ar). ar_name ar = unknownArtist) (songsWithArtist d))
    = length (filter (\<lambda>s. so_artist_id s \<in> set (map ar_id (filter (\<lambda>a. ar_name a = unknownArtist) (db_artist d))))
        (db_song d))"
  proof (subst filter_snd_cong [where P = "\<lambda>s. so_artist_id s
      \<in> set (map ar_id (filter (\<lambda>a. ar_name a = unknownArtist) (db_artist d)))"])
    show "\<forall>(s, ar) \<in> set (songsWithArtist d). (ar_name ar = unknownArtist)
      = (so_artist_id s \<in> set (map ar_id (filter (\<lambda>a. ar_name a = unknownArtist) (db_artist d))))"
      using sa unknown_iff [OF assms] by blast
  qed (simp add: sa)
  show ?thesis
    by (simp only: issueTypes_def list.map prod.case issueCount_def issueSpec.case songs albums unknown statsOf_def
        adminStats.select_convs)
      (simp add: songIssues_def albumIssues_def Let_def songRows_def [symmetric] sqlLimit_map
        length_songRows [OF assms] albums [of acond])
qed

section \<open>Witnesses\<close>

definition playedDb :: db where
  "playedDb = sampleDb\<lparr>db_play := map (\<lambda>(n, s). \<lparr>ph_rowid = n, ph_id = s, ph_song = s, ph_user = ''ann'',
     ph_played = 1700000000 + n\<rparr>) [(1, ''a''), (3, ''b''), (4, ''c'')]\<rparr>"

theorem history_pages_witness:
  "map pe_rowid (historyQuery 0 2 playedDb) = [1, 3]
   \<and> historyQuery 0 2 playedDb @ historyQuery (pe_rowid (last (historyQuery 0 2 playedDb))) 2 playedDb
     = historyQuery 0 4 playedDb"
proof -
  have ok: "schemaOK playedDb" by code_simp
  have len: "length (historyQuery 0 2 playedDb) = nat 2" by code_simp
  have "take (nat 2) (sort (filter (\<lambda>i. i > 0) (map ph_rowid (db_play playedDb)))) = [1, 3]" by code_simp
  with history_pages [OF ok _ _ len, of 2 "''''"] show ?thesis by simp
qed

theorem issues_agree_witness:
  "issueCount (SongIssue (\<lambda>s ar. noInt (so_disc s))) sampleDb = 3
   \<and> length (songIssues ''/m'' (\<lambda>s ar. noInt (so_disc s)) (- 1) 0 sampleDb) = 3
   \<and> songIssues ''/m'' (\<lambda>s ar. noInt (so_disc s)) 2 1 sampleDb
     = sqlLimit 2 1 (songIssues ''/m'' (\<lambda>s ar. noInt (so_disc s)) (- 1) 0 sampleDb)"
proof -
  have "issueCount (SongIssue (\<lambda>s ar. noInt (so_disc s))) sampleDb = 3" by code_simp
  with issues_agree [OF schemaOK_sampleDb, of "''/m''" "\<lambda>s ar. noInt (so_disc s)" "\<lambda>al. True" 2 1] show ?thesis
    by simp
qed

end
