(* ===== verification/Startup.thy ===== *)
theory Startup
  imports Server_Facts Auth_Facts Go_Float Duration
begin

text \<open>
  From the command line to a serving process: \<open>db.Open\<close> and its initialisation
  (\<open>internal/db/db.go\<close>), the sequence of \<open>main\<close> (\<open>cmd/preamp/main.go\<close>) up to the listeners, and the
  external \<open>ffprobe\<close> program as the scanner calls it. The answers of the operating system and of
  SQLite are arguments; what follows the listeners (signals, shutdown) is not modelled.
\<close>

section \<open>Opening the database\<close>

definition readPoolSize :: nat where "readPoolSize = 4"

datatype pool = Unopened | OpenPool | ClosedPool

record DB =
  dbh_write :: pool
  dbh_read :: pool

datatype dbError =
    WritePool | ReadPool | TakeWrite | PragmaFailed string | SchemaFailed | MigrationFailed string
  | TakeRead nat | ReadPragmaFailed nat

text \<open>Whether each call succeeds; for \<open>ALTER TABLE\<close> the text of its error.\<close>

record dbAnswers =
  da_writePool :: bool
  da_readPool :: bool
  da_takeWrite :: bool
  da_pragma :: "string \<Rightarrow> bool"
  da_schema :: bool
  da_addColumn :: "string option"
  da_takeRead :: "nat \<Rightarrow> bool"
  da_readPragma :: "nat \<Rightarrow> bool"

definition pragmas :: "string list" where
  "pragmas =
     [''PRAGMA foreign_keys = ON'', ''PRAGMA busy_timeout = 5000'', ''PRAGMA synchronous = NORMAL'',
      ''PRAGMA journal_mode = WAL'', ''PRAGMA cache_size = -64000'', ''PRAGMA mmap_size = 30000000'',
      ''PRAGMA temp_store = MEMORY'']"

definition containsStr :: "string \<Rightarrow> string \<Rightarrow> bool" where
  "containsStr s t \<longleftrightarrow> list_ex (\<lambda>i. hasPrefix (drop i s) t) [0..<Suc (length s)]"

text \<open>The loop over the read connections, \<open>k\<close> the number of those done.\<close>

fun initReaders :: "dbAnswers \<Rightarrow> nat \<Rightarrow> nat \<Rightarrow> dbError option" where
  "initReaders a 0 k = None"
| "initReaders a (Suc n) k =
     (if \<not> da_takeRead a k then Some (TakeRead k)
      else if \<not> da_readPragma a k then Some (ReadPragmaFailed k)
      else initReaders a n (Suc k))"

definition initDB :: "dbAnswers \<Rightarrow> dbError option" where
  "initDB a =
     (if \<not> da_takeWrite a then Some TakeWrite
      else case find (\<lambda>p. \<not> da_pragma a p) pragmas of
        Some p \<Rightarrow> Some (PragmaFailed p)
      | None \<Rightarrow>
          if \<not> da_schema a then Some SchemaFailed
          else case da_addColumn a of
            Some e \<Rightarrow> if \<not> containsStr e ''duplicate column name'' then Some (MigrationFailed e)
                      else initReaders a readPoolSize 0
          | None \<Rightarrow> initReaders a readPoolSize 0)"

definition closePool :: "pool \<Rightarrow> pool" where
  "closePool p = (if p = Unopened then p else ClosedPool)"

definition CloseDB :: "DB \<Rightarrow> DB" where
  "CloseDB db = \<lparr>dbh_write = closePool (dbh_write db), dbh_read = closePool (dbh_read db)\<rparr>"

definition OpenDB :: "dbAnswers \<Rightarrow> (dbError + unit) \<times> DB" where
  "OpenDB a =
     (if \<not> da_writePool a then (Inl WritePool, \<lparr>dbh_write = Unopened, dbh_read = Unopened\<rparr>)
      else if \<not> da_readPool a then (Inl ReadPool, \<lparr>dbh_write = ClosedPool, dbh_read = Unopened\<rparr>)
      else let db = \<lparr>dbh_write = OpenPool, dbh_read = OpenPool\<rparr> in
        case initDB a of
          Some e \<Rightarrow> (Inl e, CloseDB db)
        | None \<Rightarrow> (Inr (), db))"

section \<open>\<open>main\<close>\<close>

datatype 'r outcome = Exit string | Serving 'r

text \<open>
  Up to the point where the server is built: the configuration, the authenticator and the write
  connection after the development credential, or the reason of \<open>os.Exit(1)\<close>.
\<close>

definition mainStart ::
  "osys \<Rightarrow> dbAnswers \<Rightarrow> crypto \<Rightarrow> bytes option \<Rightarrow> (string \<Rightarrow> bytes option) \<Rightarrow> env \<Rightarrow> (string \<Rightarrow> string option)
    \<Rightarrow> bool \<Rightarrow> conn \<Rightarrow> (config \<times> authenticatorValue \<times> conn) outcome" where
  "mainStart os a cy nonce hash env readFile discoveryOK c =
     (case Load os of
        Inl e \<Rightarrow> Exit ''loading config''
      | Inr cfg \<Rightarrow>
     (case fst (OpenDB a) of
        Inl e \<Rightarrow> Exit ''opening database''
      | Inr _ \<Rightarrow>
          if \<not> cfg_AuthDisabled cfg \<and> cfg_EncryptionKey cfg = '''' then Exit ''PREAMP_ENCRYPTION_KEY is required''
          else let (seeded, c) =
             (if cfg_DevUsername cfg \<noteq> '''' \<and> cfg_DevPassword cfg \<noteq> '''' \<and> cfg_EncryptionKey cfg \<noteq> ''''
              then seedDevCredential cy cfg nonce hash env c else (True, c)) in
          if \<not> seeded then Exit ''seeding dev credential''
          else if cfg_ManageEnabled cfg then
            (case mainAuthenticator cfg readFile discoveryOK of
               None \<Rightarrow> Exit ''initializing admin secret auth''
             | Some v \<Rightarrow> Serving (cfg, v, c))
          else Serving (cfg, NilInterface, c)))"

text \<open>The server it builds; the first scan is due.\<close>

definition startServer :: "conn \<Rightarrow> files \<Rightarrow> 'a option \<Rightarrow> 'a server" where
  "startServer c fs authenticator =
     (let s = SetScanner \<lparr>sc_scanning = False, sc_count = 0\<rparr> (NewAPIServer c fs);
          s = (case authenticator of None \<Rightarrow> s | Some a \<Rightarrow> SetManageHandler (NewServer a) s)
      in s\<lparr>sv_scans := 1\<rparr>)"

section \<open>\<open>ffprobe\<close>\<close>

text \<open>Whether the program was looked for, and found.\<close>

record ffprobeState =
  fp_checked :: bool
  fp_avail :: bool

text \<open>\<open>math.Round\<close>: halves away from zero.\<close>

fun mathRound :: "float64 \<Rightarrow> float64" where
  "mathRound (Finite x) = Finite (of_int (if 0 \<le> x then \<lfloor>x + 1 / 2\<rfloor> else \<lceil>x - 1 / 2\<rceil>))"
| "mathRound x = x"

text \<open>
  \<open>out\<close> is the output of the program, \<^const>\<open>None\<close> if it fails, and \<open>unmarshal\<close> the two strings of
  its JSON; the caller looks at no error.
\<close>

definition ffprobeDuration ::
  "bool \<Rightarrow> bytes option \<Rightarrow> (bytes \<Rightarrow> (string \<times> string) option) \<Rightarrow> (string \<Rightarrow> float64 option) \<Rightarrow> ffprobeState
    \<Rightarrow> (io_error + (int \<times> int)) \<times> ffprobeState" where
  "ffprobeDuration lookPath out unmarshal hexFloat st =
     (let st = (if \<not> fp_checked st then \<lparr>fp_checked = True, fp_avail = lookPath\<rparr> else st) in
      (if \<not> fp_avail st then Inl (OtherErr ''not found'')
       else case out of
         None \<Rightarrow> Inl (OtherErr ''exit status'')
       | Some bs \<Rightarrow>
           (case unmarshal bs of
              None \<Rightarrow> Inl (OtherErr ''json'')
            | Some (durStr, brStr) \<Rightarrow>
                (case parseFloat hexFloat durStr of
                   None \<Rightarrow> Inl (OtherErr ''parsing duration'')
                 | Some durFloat \<Rightarrow> Inr (toInt64 (mathRound durFloat), goDiv (fst (atoi brStr)) 1000))), st))"

section \<open>Facts\<close>

lemma OpenDB_fails:
  "fst (OpenDB a) = Inl e \<Longrightarrow> dbh_write (snd (OpenDB a)) \<noteq> OpenPool \<and> dbh_read (snd (OpenDB a)) \<noteq> OpenPool"
  by (auto simp: OpenDB_def Let_def CloseDB_def closePool_def split: if_splits option.splits)

lemma OpenDB_opens:
  assumes "fst (OpenDB a) = Inr u"
  shows "dbh_write (snd (OpenDB a)) = OpenPool \<and> dbh_read (snd (OpenDB a)) = OpenPool
    \<and> list_all (da_pragma a) pragmas \<and> da_schema a"
proof -
  from assms have i: "initDB a = None" "snd (OpenDB a) = \<lparr>dbh_write = OpenPool, dbh_read = OpenPool\<rparr>"
    by (auto simp: OpenDB_def Let_def split: if_splits option.splits)
  then have "find (\<lambda>p. \<not> da_pragma a p) pragmas = None" "da_schema a"
    by (auto simp: initDB_def split: if_splits option.splits)
  with i(2) show ?thesis by (simp add: find_None_iff list_all_iff)
qed

lemma startServer_ok: "connOK c \<Longrightarrow> serverOK (startServer c fs a)"
  by (cases a) (auto simp: serverOK_def startServer_def SetScanner_def SetManageHandler_def NewAPIServer_def
      NewServer_def sessionsOK_def)

text \<open>What the development credential leaves in the table.\<close>

lemma seed_committed:
  assumes "seedDevCredential cy cfg nonce hash env c = (True, c')" "cn_saved c = None" "connOK c"
  shows "connOK c' \<and> (\<exists>row \<in> set (db_credential (committed c')). cr_id row = ''dev-'' @ cfg_DevUsername cfg
    \<and> hash (cfg_DevPassword cfg) = Some (cr_hash row)
    \<and> (\<exists>enc. cr_encrypted row = Some enc
        \<and> EncryptPassword (cy_aes cy) nonce (cfg_EncryptionKey cfg) (cfg_DevPassword cfg) = Inr enc))"
proof -
  let ?i = "''dev-'' @ cfg_DevUsername cfg"
  from assms(1) obtain enc hashed where
    e: "EncryptPassword (cy_aes cy) nonce (cfg_EncryptionKey cfg) (cfg_DevPassword cfg) = Inr enc"
    and h: "hash (cfg_DevPassword cfg) = Some hashed"
    and x: "exec env (upsertDevCredential ?i (cfg_DevUsername cfg) hashed enc) c = (Inr (), c')"
    by (auto simp: seedDevCredential_def simp del: exec_Inr split: sum.splits option.splits if_splits prod.splits)
  have s: "stmtOK (upsertDevCredential ?i (cfg_DevUsername cfg) hashed enc)"
    unfolding upsertDevCredential_def by (rule stmtOK_checked)
  have ok: "connOK c'" by (rule exec_ok [OF s assms(3) x])
  from x assms(2) have "committed c' = cn_db c'" by (auto intro: committed_closed)
  with x have rows: "db_credential (committed c') =
      (if ?i \<in> cr_id ` set (db_credential (cn_db c))
       then map (\<lambda>r. if cr_id r = ?i then r\<lparr>cr_hash := hashed, cr_encrypted := Some enc\<rparr> else r) (db_credential (cn_db c))
       else db_credential (cn_db c) @ [\<lparr>cr_id = ?i, cr_username = cfg_DevUsername cfg, cr_hash = hashed,
         cr_encrypted = Some enc, cr_client = ''dev'', cr_legacy = 1, cr_expires = None,
         cr_created = ev_now env (cn_tick c)\<rparr>])"
    by (simp add: upsertDevCredential_def)
  have "\<exists>row \<in> set (db_credential (committed c')). cr_id row = ?i \<and> cr_hash row = hashed \<and> cr_encrypted row = Some enc"
  proof (cases "?i \<in> cr_id ` set (db_credential (cn_db c))")
    case True
    then obtain r where "r \<in> set (db_credential (cn_db c))" "cr_id r = ?i" by auto
    with True rows show ?thesis
      by (intro bexI [of _ "r\<lparr>cr_hash := hashed, cr_encrypted := Some enc\<rparr>"]) (auto simp: image_iff)
  qed (simp add: rows)
  with e h ok show ?thesis by auto
qed

section \<open>Starting up\<close>


section \<open>Witness\<close>

definition goodAnswers :: dbAnswers where
  "goodAnswers = \<lparr>da_writePool = True, da_readPool = True, da_takeWrite = True, da_pragma = (\<lambda>_. True),
     da_schema = True, da_addColumn = Some ''duplicate column name: file_mtime'', da_takeRead = (\<lambda>_. True),
     da_readPragma = (\<lambda>_. True)\<rparr>"

lemma goodAnswers_open: "OpenDB goodAnswers = (Inr (), \<lparr>dbh_write = OpenPool, dbh_read = OpenPool\<rparr>)"
  by code_simp


end
