(* ===== verification/Spec2Isabelle.thy ===== *)
theory Spec2Isabelle
  imports Slice_Samples ID3_Facts Duration Playlist_Facts Queries Credential_Facts Manage_Facts Scan_Success Scan_Pipeline Server_Samples Report_Facts Startup
begin

text \<open>
  preamp, a Subsonic music server in Go: a model of the server and the theorems that make it
  correct.
\<close>

end
